(* ===== verification/Prelude.thy ===== *)
theory Prelude
  imports Main
begin

text \<open>
  Shared vocabulary of the pyncloud development. The library is Python 2 code
  (it calls \<open>str.encode('hex')\<close>), so a Python \<open>str\<close> is a byte string and is
  modelled as \<^typ>\<open>string\<close>, a list of 8-bit \<^typ>\<open>char\<close>s. This theory holds
  \<^item> \<open>pyval\<close>: the Python values the code builds and the JSON values the server
    sends back (\<open>resp.json()\<close> yields dicts, lists, ints, strings, booleans, None);
  \<^item> \<open>exc\<close>: the exceptions the code can raise, \<open>NdriveError\<close> among them;
  \<^item> truthiness, comparison with an int, subscript and iteration as Python does them;
  \<^item> an exception-state monad \<open>('s, 'a) act\<close> for methods that mutate state and
    may raise, with the lemmas that make its compositions simplify.
\<close>

named_theorems act_simps "unfolding rules of the exception-state monad"
named_theorems eval_simps "rules that evaluate the model on concrete inputs by simp"

text \<open>\<open>chr(n)\<close> on a numeral, bit by bit, so that \<open>simp\<close> evaluates it.\<close>

lemma char_of_eval [eval_simps]:
  "char_of (n::nat) = Char (odd n) (odd (n div 2)) (odd (n div 4)) (odd (n div 8))
     (odd (n div 16)) (odd (n div 32)) (odd (n div 64)) (odd (n div 128))"
  by (simp add: char_of_def bit_iff_odd_drop_bit drop_bit_eq_div)

declare upt_rec [eval_simps]

section \<open>Python values and exceptions\<close>

datatype pyval =
    PNone
  | PBool bool
  | PInt int
  | PStr string
  | PList "pyval list"
  | PDict "(string \<times> pyval) list"
  | PDate int

text \<open>
  \<open>NdriveError(code, message)\<close> carries the two fields the code copies out of the
  response (\<open>data['resultcode']\<close>, \<open>data['message']\<close>); they are whatever values the
  server sent, so they are \<^typ>\<open>pyval\<close>s.
\<close>

datatype exc =
    ValueError
  | TypeError
  | KeyError
  | AttributeError
  | OverflowError
  | OSError int
  | IOError int
  | NetworkError
  | UnicodeEncodeError
  | NdriveError pyval pyval

type_synonym 'a res = "exc + 'a"

text \<open>\<open>OSError\<close> and \<open>IOError\<close> carry their \<open>errno\<close>.\<close>

definition ENOENT :: int where "ENOENT = 2"
definition EEXIST :: int where "EEXIST = 17"
definition ENOTDIR :: int where "ENOTDIR = 20"
definition EISDIR :: int where "EISDIR = 21"

text \<open>Sequencing of pure computations that may raise.\<close>

definition rbind :: "'a res \<Rightarrow> ('a \<Rightarrow> 'b res) \<Rightarrow> 'b res" where
  "rbind r f = (case r of Inl e \<Rightarrow> Inl e | Inr x \<Rightarrow> f x)"

lemma rbind_simps [simp]:
  "rbind (Inl e) f = Inl e"
  "rbind (Inr x) f = f x"
  by (simp_all add: rbind_def)

lemma rbind_eq_Inr:
  "rbind r f = Inr y \<longleftrightarrow> (\<exists>x. r = Inr x \<and> f x = Inr y)"
  by (cases r) simp_all

lemma rbind_eq_Inl:
  "rbind r f = Inl e \<longleftrightarrow> r = Inl e \<or> (\<exists>x. r = Inr x \<and> f x = Inl e)"
  by (cases r) simp_all

subsection \<open>Python semantics of values\<close>

text \<open>\<open>bool(v)\<close>: None, False, 0 and empty containers are false.\<close>

fun truthy :: "pyval \<Rightarrow> bool" where
  "truthy PNone = False"
| "truthy (PBool b) = b"
| "truthy (PInt i) = (i \<noteq> 0)"
| "truthy (PStr s) = (s \<noteq> [])"
| "truthy (PList xs) = (xs \<noteq> [])"
| "truthy (PDict d) = (d \<noteq> [])"
| "truthy (PDate t) = True"

text \<open>\<open>v == k\<close> for an int literal \<open>k\<close>: \<open>True == 1\<close> and \<open>False == 0\<close> hold in Python.\<close>

fun py_eq_int :: "pyval \<Rightarrow> int \<Rightarrow> bool" where
  "py_eq_int (PInt i) k = (i = k)"
| "py_eq_int (PBool b) k = (k = (if b then 1 else 0))"
| "py_eq_int _ k = False"

text \<open>
  \<open>d[k]\<close> on a value: a dict gives the entry or raises KeyError; subscripting None,
  a list, a string or a number with a string raises TypeError. A dict decoded from
  JSON has distinct keys, so the first binding of the association list is the entry.
\<close>

fun getitem :: "pyval \<Rightarrow> string \<Rightarrow> pyval res" where
  "getitem (PDict d) k = (case map_of d k of None \<Rightarrow> Inl KeyError | Some v \<Rightarrow> Inr v)"
| "getitem _ k = Inl TypeError"

text \<open>\<open>for x in v\<close>: lists give their items, dicts their keys, strings their characters.\<close>

fun py_iter :: "pyval \<Rightarrow> pyval list res" where
  "py_iter (PList xs) = Inr xs"
| "py_iter (PDict d) = Inr (map (PStr \<circ> fst) d)"
| "py_iter (PStr s) = Inr (map (\<lambda>c. PStr [c]) s)"
| "py_iter _ = Inl TypeError"

text \<open>\<open>'T' if b else 'F'\<close>, the flag format of the service's overwrite fields.\<close>

definition tf_flag :: "bool \<Rightarrow> pyval" where
  "tf_flag b = PStr (if b then ''T'' else ''F'')"

section \<open>The exception-state monad\<close>

text \<open>
  A method call runs on a state and either returns a value or raises; state changes
  made before the exception stay, as they do in Python.
\<close>

type_synonym ('s, 'a) act = "'s \<Rightarrow> 'a res \<times> 's"

definition ret :: "'a \<Rightarrow> ('s, 'a) act" where
  "ret x s = (Inr x, s)"

definition throw :: "exc \<Rightarrow> ('s, 'a) act" where
  "throw e s = (Inl e, s)"

definition lift :: "'a res \<Rightarrow> ('s, 'a) act" where
  "lift r s = (r, s)"

definition bindE :: "('s, 'a) act \<Rightarrow> ('a \<Rightarrow> ('s, 'b) act) \<Rightarrow> ('s, 'b) act" where
  "bindE m f s = (case m s of (Inl e, s') \<Rightarrow> (Inl e, s') | (Inr x, s') \<Rightarrow> f x s')"

definition gets :: "('s \<Rightarrow> 'a) \<Rightarrow> ('s, 'a) act" where
  "gets f s = (Inr (f s), s)"

text \<open>\<open>[f(x) for x in xs]\<close> where \<open>f\<close> may raise: the first exception wins.\<close>

fun map_res :: "('a \<Rightarrow> 'b res) \<Rightarrow> 'a list \<Rightarrow> 'b list res" where
  "map_res f [] = Inr []"
| "map_res f (x # xs) = rbind (f x) (\<lambda>y. rbind (map_res f xs) (\<lambda>ys. Inr (y # ys)))"

lemma map_res_all_Inr:
  "(\<forall>x\<in>set xs. \<exists>y. f x = Inr y) \<Longrightarrow> map_res f xs = Inr (map (\<lambda>x. projr (f x)) xs)"
  by (induction xs) auto

text \<open>\<open>try: m except e: h(e)\<close>; the handler sees the state the failed call left.\<close>

definition catchE :: "('s, 'a) act \<Rightarrow> (exc \<Rightarrow> ('s, 'a) act) \<Rightarrow> ('s, 'a) act" where
  "catchE m h s = (case m s of (Inl e, s') \<Rightarrow> h e s' | (Inr x, s') \<Rightarrow> (Inr x, s'))"

lemma ret_apply [act_simps, simp]: "ret x s = (Inr x, s)"
  by (simp add: ret_def)

lemma throw_apply [act_simps, simp]: "throw e s = (Inl e, s)"
  by (simp add: throw_def)

lemma lift_apply [act_simps, simp]: "lift r s = (r, s)"
  by (simp add: lift_def)

lemma gets_apply [act_simps, simp]: "gets f s = (Inr (f s), s)"
  by (simp add: gets_def)

lemma bindE_apply [act_simps]:
  "bindE m f s = (case m s of (Inl e, s') \<Rightarrow> (Inl e, s') | (Inr x, s') \<Rightarrow> f x s')"
  by (simp add: bindE_def)

lemma catchE_apply [act_simps]:
  "catchE m h s = (case m s of (Inl e, s') \<Rightarrow> h e s' | (Inr x, s') \<Rightarrow> (Inr x, s'))"
  by (simp add: catchE_def)

lemma bindE_Inr [simp]: "m s = (Inr x, s') \<Longrightarrow> bindE m f s = f x s'"
  by (simp add: bindE_def)

lemma bindE_Inl [simp]: "m s = (Inl e, s') \<Longrightarrow> bindE m f s = (Inl e, s')"
  by (simp add: bindE_def)

lemma bindE_ret_left [simp]: "bindE (ret x) f = f x"
  by (simp add: bindE_def fun_eq_iff)

lemma bindE_ret_right [simp]: "bindE m ret = m"
  by (simp add: bindE_def fun_eq_iff split: prod.splits sum.splits)

lemma bindE_assoc: "bindE (bindE m f) g = bindE m (\<lambda>x. bindE (f x) g)"
  by (simp add: bindE_def fun_eq_iff split: prod.splits sum.splits)

lemma bindE_lift [simp]:
  "bindE (lift (Inr x)) f = f x"
  "bindE (lift (Inl e)) f = throw e"
  by (simp_all add: bindE_def fun_eq_iff)

subsection \<open>Relations every run keeps\<close>

text \<open>
  \<open>keeps R m\<close>: whatever \<open>m\<close> returns or raises, its start and end states are
  related by \<open>R\<close>. Frame properties and invariants of methods are stated this way and
  proved through the composition rules below.
\<close>

definition keeps :: "('s \<Rightarrow> 's \<Rightarrow> bool) \<Rightarrow> ('s, 'a) act \<Rightarrow> bool" where
  "keeps R m \<longleftrightarrow> (\<forall>s x s'. m s = (x, s') \<longrightarrow> R s s')"

lemma keepsI: "(\<And>s x s'. m s = (x, s') \<Longrightarrow> R s s') \<Longrightarrow> keeps R m"
  by (simp add: keeps_def)

lemma keepsD: "keeps R m \<Longrightarrow> m s = (x, s') \<Longrightarrow> R s s'"
  by (simp add: keeps_def)

lemma keeps_ret [intro]: "reflp R \<Longrightarrow> keeps R (ret x)"
  by (simp add: keeps_def reflp_def)

lemma keeps_throw [intro]: "reflp R \<Longrightarrow> keeps R (throw e)"
  by (simp add: keeps_def reflp_def)

lemma keeps_lift [intro]: "reflp R \<Longrightarrow> keeps R (lift r)"
  by (simp add: keeps_def reflp_def)

lemma keeps_gets [intro]: "reflp R \<Longrightarrow> keeps R (gets f)"
  by (simp add: keeps_def reflp_def)

text \<open>A run related by \<open>R\<close> followed by runs related by \<open>Q\<close> is related by
  \<open>R\<close> when \<open>Q\<close>-steps extend \<open>R\<close>-steps.\<close>

lemma keeps_bindE_seq:
  assumes "keeps R m" and "\<And>x. keeps Q (f x)" and "\<And>a b c. R a b \<Longrightarrow> Q b c \<Longrightarrow> R a c"
    and "reflp Q"
  shows "keeps R (bindE m f)"
proof (rule keepsI)
  fix s y s'
  assume run: "bindE m f s = (y, s')"
  obtain r s1 where m: "m s = (r, s1)" by fastforce
  with assms(1) have R: "R s s1" by (rule keepsD)
  show "R s s'"
  proof (cases r)
    case (Inl e)
    with run m R show ?thesis by (simp add: bindE_apply)
  next
    case (Inr x)
    with run m have "f x s1 = (y, s')" by (simp add: bindE_apply)
    with assms(2) have "Q s1 s'" by (rule keepsD)
    with R assms(3) show ?thesis by blast
  qed
qed

lemma keeps_catchE_seq:
  assumes "keeps R m" and "\<And>e. keeps Q (h e)" and "\<And>a b c. R a b \<Longrightarrow> Q b c \<Longrightarrow> R a c"
  shows "keeps R (catchE m h)"
proof (rule keepsI)
  fix s y s'
  assume run: "catchE m h s = (y, s')"
  obtain r s1 where m: "m s = (r, s1)" by fastforce
  with assms(1) have R: "R s s1" by (rule keepsD)
  show "R s s'"
  proof (cases r)
    case (Inr x)
    with run m R show ?thesis by (simp add: catchE_apply)
  next
    case (Inl e)
    with run m have "h e s1 = (y, s')" by (simp add: catchE_apply)
    with assms(2) have "Q s1 s'" by (rule keepsD)
    with R assms(3) show ?thesis by blast
  qed
qed

lemma keeps_bindE [intro]:
  "keeps R m \<Longrightarrow> (\<And>x. keeps R (f x)) \<Longrightarrow> reflp R \<Longrightarrow> transp R \<Longrightarrow> keeps R (bindE m f)"
  by (rule keeps_bindE_seq [where Q = R]) (auto dest: transpD)

lemma keeps_catchE [intro]:
  "keeps R m \<Longrightarrow> (\<And>e. keeps R (h e)) \<Longrightarrow> transp R \<Longrightarrow> keeps R (catchE m h)"
  by (rule keeps_catchE_seq [where Q = R]) (auto dest: transpD)

lemma keeps_if [intro]: "keeps R m1 \<Longrightarrow> keeps R m2 \<Longrightarrow> keeps R (if b then m1 else m2)"
  by simp

end
