(* ===== verification/Framing.thy ===== *)
theory Framing
  imports Prelude
begin

text \<open>
  The length-prefixed framing of the credential encoder,
  \<open>_naver_style_join\<close> in \<open>src/pyncloud/pyncloud.py\<close> (lines 10--11):
  \<^verbatim>\<open>''.join([chr(len(s)) + s for s in l])\<close>.
  Under Python 2 \<open>chr(n)\<close> is the one-byte string of \<open>n\<close> and raises
  \<open>ValueError\<close> for \<open>n \<ge> 256\<close>, so a field of 256 bytes or more makes the whole
  join raise. \<open>naver_style_split\<close> is a reference decoder (not in the source) that
  reads the frames back; the lemmas show the framing is a total, unambiguous encoding
  of every list of fields shorter than 256 bytes, and that it fails exactly on the
  others.
\<close>

section \<open>Definitions\<close>

definition chr_py :: "nat \<Rightarrow> char res" where
  "chr_py n = (if n < 256 then Inr (char_of n) else Inl ValueError)"

fun naver_style_join :: "string list \<Rightarrow> string res" where
  "naver_style_join [] = Inr []"
| "naver_style_join (s # l) =
     rbind (chr_py (length s)) (\<lambda>c. rbind (naver_style_join l) (\<lambda>r. Inr (c # s @ r)))"

text \<open>A field fits its frame when its length fits in the one-byte prefix.\<close>

definition fits_frame :: "string \<Rightarrow> bool" where
  "fits_frame s \<longleftrightarrow> length s < 256"

text \<open>The framing of the spec (section 4.1, step 2), one length byte before each field.\<close>

fun frames :: "string list \<Rightarrow> string" where
  "frames [] = []"
| "frames (s # l) = char_of (length s) # s @ frames l"

fun naver_style_split :: "string \<Rightarrow> string list option" where
  "naver_style_split [] = Some []"
| "naver_style_split (c # cs) =
     (if of_char c \<le> length cs
      then map_option (Cons (take (of_char c) cs)) (naver_style_split (drop (of_char c) cs))
      else None)"

declare chr_py_def [eval_simps] fits_frame_def [eval_simps]

section \<open>Lemmas\<close>

lemma fits_frame_mod [simp]: "fits_frame s \<Longrightarrow> length s mod 256 = length s"
  by (simp add: fits_frame_def)

lemma chr_py_fits: "chr_py (length s) = (if fits_frame s then Inr (char_of (length s)) else Inl ValueError)"
  by (simp add: chr_py_def fits_frame_def)

text \<open>C1's characterisation, proved by structural induction on the field list.\<close>

lemma naver_style_join_eq:
  "naver_style_join l =
     (if list_all fits_frame l then Inr (frames l) else Inl ValueError)"
  by (induction l) (simp_all add: chr_py_fits)

declare naver_style_join_eq [eval_simps]

lemma naver_style_split_frames:
  "list_all fits_frame l \<Longrightarrow> naver_style_split (frames l @ r) =
     map_option ((@) l) (naver_style_split r)"
proof (induction l)
  case Nil
  then show ?case by (simp add: option.map_ident)
next
  case (Cons s l)
  then have "fits_frame s" and "list_all fits_frame l" by simp_all
  then show ?case
    using Cons.IH by (simp add: option.map_comp comp_def)
qed

lemma naver_style_split_frames_only:
  "list_all fits_frame l \<Longrightarrow> naver_style_split (frames l) = Some l"
  using naver_style_split_frames [of l "[]"] by simp

lemma length_frames:
  "length (frames l) = length l + sum_list (map length l)"
  by (induction l) simp_all


section \<open>Properties of the framing\<close>

text \<open>
  C1 (equivalence, error): \<open>_naver_style_join\<close> raises \<open>ValueError\<close> exactly when
  some field is 256 bytes or longer, and otherwise returns each field preceded by one
  byte holding its length, the fields in their order.
\<close>

theorem naver_style_join_spec:
  "naver_style_join l =
     (if \<exists>s\<in>set l. 256 \<le> length s then Inl ValueError else Inr (frames l))"
  using naver_style_join_eq [of l] by (auto simp: list_all_iff fits_frame_def not_less)

text \<open>
  C2 (roundtrip): whatever \<open>_naver_style_join\<close> returns decodes, frame by frame,
  back to the list of fields it was given: the framing loses nothing and is
  unambiguous.
\<close>

theorem naver_style_join_roundtrip:
  assumes "naver_style_join l = Inr m"
  shows "naver_style_split m = Some l"
proof -
  from assms have "list_all fits_frame l" and "m = frames l"
    by (simp_all add: naver_style_join_eq split: if_splits)
  then show ?thesis by (simp add: naver_style_split_frames_only)
qed

theorem naver_style_join_roundtrip_witness:
  "naver_style_join [''abc123'', ''u'', ''p''] = Inr (frames [''abc123'', ''u'', ''p'']) \<and>
   naver_style_split (frames [''abc123'', ''u'', ''p'']) = Some [''abc123'', ''u'', ''p'']"
proof -
  have j: "naver_style_join [''abc123'', ''u'', ''p''] = Inr (frames [''abc123'', ''u'', ''p''])"
    by (simp add: chr_py_def)
  show ?thesis using j naver_style_join_roundtrip [OF j] by simp
qed

text \<open>
  C3 (bounds): a successful join is exactly one byte longer per field than the
  fields together.
\<close>

theorem naver_style_join_length:
  assumes "naver_style_join l = Inr m"
  shows "length m = length l + sum_list (map length l)"
  using assms by (auto simp: naver_style_join_eq length_frames split: if_splits)

theorem naver_style_join_length_witness:
  "naver_style_join [''abc123'', ''u'', ''p''] = Inr (frames [''abc123'', ''u'', ''p'']) \<and>
   length (frames [''abc123'', ''u'', ''p'']) = 3 + 8"
proof -
  have j: "naver_style_join [''abc123'', ''u'', ''p''] = Inr (frames [''abc123'', ''u'', ''p''])"
    by (simp add: chr_py_def)
  show ?thesis using j naver_style_join_length [OF j] by simp
qed

text \<open>
  The spec's scenario: the key token \<open>abc123\<close>, user \<open>u\<close> and
  password \<open>p\<close> are framed as the bytes \<open>[6]abc123[1]u[1]p\<close>.
\<close>

theorem naver_style_join_scenario:
  "naver_style_join [''abc123'', ''u'', ''p''] =
     Inr (CHR 0x06 # ''abc123'' @ CHR 0x01 # ''u'' @ CHR 0x01 # ''p'')"
  by code_simp

end
