(* ===== verification/PyStr.thy ===== *)
theory PyStr
  imports Prelude
begin

text \<open>
  The Python 2 string and number conversions that \<open>_encrypt\<close>
  (\<open>src/pyncloud/pyncloud.py\<close>, lines 14--23) relies on:
  \<^item> \<open>key_str.split(',')\<close> and the four-way tuple unpacking of its result;
  \<^item> \<open>int(s, 16)\<close>: optional surrounding whitespace, an optional sign (whitespace may follow it,
    as \<open>PyOS_strtol\<close> and \<open>PyLong_FromString\<close> skip it), an optional
    \<open>0x\<close>/\<open>0X\<close> prefix and at least one hexadecimal digit, else \<open>ValueError\<close>;
  \<^item> \<open>encrypted.encode('hex')\<close>: two lower-case hex digits per byte.
  These are library behaviour, not code of the repository; they are modelled from the
  Python 2 reference semantics. The lemmas give the round trips: splitting and
  re-joining, hex encoding and decoding, and reading a hex encoding back as a number.
\<close>

section \<open>Splitting on a separator\<close>

fun py_split :: "char \<Rightarrow> string \<Rightarrow> string list" where
  "py_split c [] = [[]]"
| "py_split c (x # xs) =
     (if x = c then [] # py_split c xs
      else (let ws = py_split c xs in (x # hd ws) # tl ws))"

text \<open>\<open>c.join(ws)\<close>, the inverse of splitting.\<close>

fun join_sep :: "char \<Rightarrow> string list \<Rightarrow> string" where
  "join_sep c [] = []"
| "join_sep c [w] = w"
| "join_sep c (w # ws) = w @ c # join_sep c ws"

lemma py_split_nonempty [simp]: "py_split c s \<noteq> []"
  by (induction s) (simp_all add: Let_def)

lemma join_sep_Cons:
  "ws \<noteq> [] \<Longrightarrow> join_sep c (w # ws) = w @ c # join_sep c ws"
  by (cases ws) simp_all

lemma join_sep_py_split: "join_sep c (py_split c s) = s"
proof (induction s)
  case Nil
  then show ?case by simp
next
  case (Cons x xs)
  obtain w ws where eq: "py_split c xs = w # ws"
    using py_split_nonempty by (cases "py_split c xs") blast+
  show ?case
  proof (cases "x = c")
    case True
    with Cons.IH show ?thesis by (simp add: join_sep_Cons)
  next
    case False
    with Cons.IH eq show ?thesis by (cases ws) simp_all
  qed
qed

lemma py_split_join_sep:
  "\<lbrakk>ws \<noteq> []; \<forall>w\<in>set ws. c \<notin> set w\<rbrakk> \<Longrightarrow> py_split c (join_sep c ws) = ws"
proof (induction ws rule: join_sep.induct)
  case (2 c w)
  then show ?case by (induction w) (auto simp: Let_def)
next
  case (3 c w v vs)
  then have IH: "py_split c (join_sep c (v # vs)) = v # vs" by simp
  from "3.prems" have "c \<notin> set w" by simp
  then show ?case using IH by (induction w) (auto simp: Let_def)
qed simp

lemma length_py_split: "length (py_split c s) = Suc (count_list s c)"
proof (induction s)
  case (Cons x xs)
  then show ?case
    by (cases "py_split c xs") (simp_all add: Let_def)
qed simp

section \<open>Hexadecimal digits\<close>

definition hex_val :: "char \<Rightarrow> nat option" where
  "hex_val c =
     (let n = of_char c in
      if 48 \<le> n \<and> n \<le> 57 then Some (n - 48)
      else if 97 \<le> n \<and> n \<le> 102 then Some (n - 87)
      else if 65 \<le> n \<and> n \<le> 70 then Some (n - 55)
      else None)"

definition is_hex :: "char \<Rightarrow> bool" where
  "is_hex c \<longleftrightarrow> hex_val c \<noteq> None"

text \<open>The digit of a value below 16, lower case, as \<open>binascii.hexlify\<close> writes it.\<close>

definition hexchar :: "nat \<Rightarrow> char" where
  "hexchar n = char_of (if n < 10 then 48 + n else 87 + n)"

lemma hex_val_hexchar [simp]: "n < 16 \<Longrightarrow> hex_val (hexchar n) = Some n"
  by (simp add: hex_val_def hexchar_def Let_def)

lemma hex_val_bound: "hex_val c = Some d \<Longrightarrow> d < 16"
  by (auto simp: hex_val_def Let_def split: if_splits)

text \<open>The value of a string of digits in base 16, most significant first.\<close>

definition hex_value :: "string \<Rightarrow> nat" where
  "hex_value s = foldl (\<lambda>n c. 16 * n + the (hex_val c)) 0 s"

text \<open>The value of a byte string read big-endian, base 256.\<close>

definition be_value :: "string \<Rightarrow> nat" where
  "be_value s = foldl (\<lambda>n c. 256 * n + of_char c) 0 s"

section \<open>\<open>int(s, 16)\<close>\<close>

text \<open>C's \<open>isspace\<close>: space, tab, newline, vertical tab, form feed, carriage return.\<close>

definition is_space :: "char \<Rightarrow> bool" where
  "is_space c \<longleftrightarrow> of_char c = (32::nat) \<or> (9 \<le> (of_char c::nat) \<and> (of_char c::nat) \<le> 13)"

definition strip_space :: "string \<Rightarrow> string" where
  "strip_space s = rev (dropWhile is_space (rev (dropWhile is_space s)))"

definition drop_hex_prefix :: "string \<Rightarrow> string" where
  "drop_hex_prefix s = (if take 2 s = ''0x'' \<or> take 2 s = ''0X'' then drop 2 s else s)"

definition int_base16 :: "string \<Rightarrow> int res" where
  "int_base16 s =
     (let t = strip_space s;
          (k, u) = (case t of
                      x # r \<Rightarrow> if x = CHR ''-'' then (-1, r)
                               else if x = CHR ''+'' then (1, r) else (1, t)
                    | [] \<Rightarrow> (1, t));
          v = drop_hex_prefix (dropWhile is_space u)
      in if v \<noteq> [] \<and> list_all is_hex v then Inr (k * int (hex_value v)) else Inl ValueError)"

section \<open>\<open>s.encode('hex')\<close>\<close>

definition hex_encode :: "string \<Rightarrow> string" where
  "hex_encode s = concat (map (\<lambda>c. [hexchar (of_char c div 16), hexchar (of_char c mod 16)]) s)"

text \<open>\<open>binascii.unhexlify\<close>, the reference decoder.\<close>

fun hex_decode :: "string \<Rightarrow> string option" where
  "hex_decode [] = Some []"
| "hex_decode [c] = None"
| "hex_decode (a # b # r) =
     (case (hex_val a, hex_val b) of
        (Some x, Some y) \<Rightarrow> map_option (Cons (char_of (16 * x + y))) (hex_decode r)
      | _ \<Rightarrow> None)"

lemma hex_encode_Nil [simp]: "hex_encode [] = []"
  by (simp add: hex_encode_def)

lemma hex_encode_Cons [simp]:
  "hex_encode (c # s) = hexchar (of_char c div 16) # hexchar (of_char c mod 16) # hex_encode s"
  by (simp add: hex_encode_def)

lemma byte_digits: "16 * (of_char (c::char) div 16) + of_char c mod 16 = (of_char c :: nat)"
  by simp

declare hex_val_def [eval_simps] is_hex_def [eval_simps] hexchar_def [eval_simps]
  hex_value_def [eval_simps] be_value_def [eval_simps] is_space_def [eval_simps]
  strip_space_def [eval_simps] drop_hex_prefix_def [eval_simps] int_base16_def [eval_simps]

section \<open>Hex encoding lemmas\<close>

lemma of_char_hexchar:
  "n < 16 \<Longrightarrow> (of_char (hexchar n) :: nat) = (if n < 10 then 48 + n else 87 + n)"
  by (simp add: hexchar_def)

lemma hexchar_neq:
  "n < 16 \<Longrightarrow> (of_char d :: nat) < 48 \<or> 57 < (of_char d :: nat) \<and> (of_char d :: nat) < 97 \<or>
     102 < (of_char d :: nat) \<Longrightarrow> hexchar n \<noteq> d"
proof
  assume n: "n < 16" and d: "(of_char d :: nat) < 48 \<or> 57 < (of_char d :: nat) \<and> (of_char d :: nat) < 97 \<or>
     102 < (of_char d :: nat)" and eq: "hexchar n = d"
  from eq have "(of_char d :: nat) = (if n < 10 then 48 + n else 87 + n)"
    using of_char_hexchar [OF n] by simp
  with n d show False by (simp split: if_splits)
qed

lemma hexchar_props:
  assumes "n < 16"
  shows "is_hex (hexchar n)" and "\<not> is_space (hexchar n)"
    and "hexchar n \<noteq> CHR ''-''" and "hexchar n \<noteq> CHR ''+''"
    and "hexchar n \<noteq> CHR ''x''" and "hexchar n \<noteq> CHR ''X''"
  using assms hexchar_neq [OF assms]
  by (auto simp: is_hex_def is_space_def of_char_hexchar hex_val_def)

lemma byte_hex_digits:
  "(of_char (c::char) :: nat) div 16 < 16" "(of_char c :: nat) mod 16 < 16"
  by (simp_all add: div_less_iff_less_mult)

lemma length_hex_encode: "length (hex_encode s) = 2 * length s"
  by (induction s) simp_all

lemma hex_decode_hex_encode: "hex_decode (hex_encode s) = Some s"
proof (induction s)
  case (Cons c s)
  have "char_of (16 * (of_char c div 16) + of_char c mod (16::nat)) = c"
    by (simp only: byte_digits char_of_char)
  with Cons.IH show ?case by (simp add: byte_hex_digits)
qed simp

lemma foldl_hex_encode:
  "foldl (\<lambda>n c. 16 * n + the (hex_val c)) a (hex_encode s) =
   foldl (\<lambda>n c. 256 * n + of_char c) a s"
proof (induction s arbitrary: a)
  case (Cons c s)
  have "16 * (16 * a + of_char c div 16) + of_char c mod 16 = of_char c + 256 * (a :: nat)"
    by simp
  with Cons.IH show ?case by (simp add: byte_hex_digits add.commute)
qed simp

lemma hex_value_hex_encode: "hex_value (hex_encode s) = be_value s"
  by (simp add: hex_value_def be_value_def foldl_hex_encode)

lemma hex_encode_all:
  "list_all P (hex_encode s) \<longleftrightarrow> (\<forall>c\<in>set s. P (hexchar (of_char c div 16)) \<and> P (hexchar (of_char c mod 16)))"
  by (induction s) auto

lemma hex_encode_no_space: "\<not> list_ex is_space (hex_encode s)"
  by (induction s) (simp_all add: hexchar_props byte_hex_digits)

lemma strip_space_id: "\<not> list_ex is_space s \<Longrightarrow> strip_space s = s"
proof -
  assume "\<not> list_ex is_space s"
  then have "dropWhile is_space s = s" and "dropWhile is_space (rev s) = rev s"
    by (auto simp: dropWhile_eq_self_iff list_ex_iff hd_rev)
  then show ?thesis by (simp add: strip_space_def)
qed

text \<open>Reading a hex encoding back as a number gives its big-endian value.\<close>

lemma int_base16_hex_encode:
  "s \<noteq> [] \<Longrightarrow> int_base16 (hex_encode s) = Inr (int (be_value s))"
proof -
  assume "s \<noteq> []"
  then obtain c r where s: "s = c # r" by (cases s) auto
  let ?h = "hex_encode s"
  have strip: "strip_space ?h = ?h"
    by (rule strip_space_id [OF hex_encode_no_space])
  have hd: "?h = hexchar (of_char c div 16) # hexchar (of_char c mod 16) # hex_encode r"
    by (simp add: s)
  have nosign: "hexchar (of_char c div 16) \<noteq> CHR ''-''" "hexchar (of_char c div 16) \<noteq> CHR ''+''"
    using hexchar_props byte_hex_digits by blast+
  have nopfx: "drop_hex_prefix ?h = ?h"
    using hexchar_props(5,6) [OF byte_hex_digits(2) [of c]] by (simp add: hd drop_hex_prefix_def)
  have hexes: "list_all is_hex ?h"
    by (simp add: hex_encode_all hexchar_props byte_hex_digits)
  have nosp: "dropWhile is_space ?h = ?h"
    using hex_encode_no_space [of s] by (cases ?h) auto
  have "?h \<noteq> []" by (simp add: hd)
  with strip nosign nopfx hexes nosp show ?thesis
    by (simp add: int_base16_def hd hex_value_hex_encode [of s, symmetric])
qed

end
