(* ===== verification/Pkcs1.thy ===== *)
theory Pkcs1
  imports PyStr
begin

text \<open>
  The public-key encryption \<open>_encrypt\<close> delegates to the \<open>rsa\<close> package
  (\<open>rsa.PublicKey(n, e)\<close>, \<open>rsa.encrypt\<close>). That package is not part of this
  repository; its behaviour is modelled here from PKCS\#1 v1.5 and the package's
  documented functions:
  \<^item> \<open>byte_size n\<close> (\<open>rsa.common.byte_size\<close>): bytes needed for \<open>n\<close>, at least 1;
  \<^item> \<open>pkcs1_pad\<close> (\<open>_pad_for_encryption\<close>): \<open>00 02 PS 00 M\<close>, \<open>OverflowError\<close> when
    the message is longer than \<open>k - 11\<close> bytes; the padding string \<open>PS\<close> is
    \<open>k - |M| - 3\<close> bytes drawn from \<open>os.urandom\<close> with zero bytes removed, modelled
    as the first bytes of a stream \<open>rnd\<close>, a parameter of the model;
  \<^item> \<open>pow_mod\<close>: Python's \<open>pow(b, e, m)\<close>, square-and-multiply as CPython computes it;
  \<^item> \<open>rsa_encrypt\<close> (\<open>rsa.encrypt\<close>, \<open>core.encrypt_int\<close>, \<open>transform.int2bytes\<close>).
  The reference decoder \<open>pkcs1_unpad\<close> is the message recovery of \<open>rsa.decrypt\<close>.
\<close>

section \<open>Byte sizes and big-endian conversion\<close>

fun bit_len :: "nat \<Rightarrow> nat" where
  "bit_len n = (if n = 0 then 0 else Suc (bit_len (n div 2)))"

declare bit_len.simps [simp del]

definition byte_size :: "nat \<Rightarrow> nat" where
  "byte_size n = (if n = 0 then 1 else (bit_len n + 7) div 8)"

text \<open>\<open>int2bytes(c, k)\<close>: \<open>k\<close> bytes, big-endian, zero-filled on the left.\<close>

fun be_bytes :: "nat \<Rightarrow> nat \<Rightarrow> string" where
  "be_bytes 0 n = []"
| "be_bytes (Suc k) n = be_bytes k (n div 256) @ [char_of (n mod 256)]"

definition int2bytes :: "nat \<Rightarrow> nat \<Rightarrow> string res" where
  "int2bytes c k = (if c < 256 ^ k then Inr (be_bytes k c) else Inl OverflowError)"

section \<open>Modular exponentiation\<close>

fun pow_mod :: "nat \<Rightarrow> nat \<Rightarrow> nat \<Rightarrow> nat" where
  "pow_mod b e m =
     (if e = 0 then 1 mod m
      else (let r = pow_mod (b * b mod m) (e div 2) m in
            if even e then r else b * r mod m))"

declare pow_mod.simps [simp del]

section \<open>PKCS\#1 v1.5 encryption\<close>

text \<open>The random bytes \<open>rsa\<close> pads with, as a stream; it draws until it has
  enough nonzero ones, so the stream it yields has no zero byte.\<close>

type_synonym rng = "nat \<Rightarrow> char"

definition pkcs1_pad :: "string \<Rightarrow> nat \<Rightarrow> rng \<Rightarrow> string res" where
  "pkcs1_pad msg k rnd =
     (if int (length msg) > int k - 11 then Inl OverflowError
      else Inr ([CHR 0x00, CHR 0x02] @ map rnd [0..<k - length msg - 3] @ CHR 0x00 # msg))"

text \<open>
  \<open>rsa.encrypt(message, PublicKey(n, e))\<close>. \<open>encrypt_int\<close> raises
  \<open>OverflowError\<close> when the padded payload exceeds \<open>n\<close> (always so for \<open>n \<le> 0\<close>),
  and Python's three-argument \<open>pow\<close> raises \<open>TypeError\<close> on a negative exponent
  (Python 2; Python 3 raises \<open>ValueError\<close>).
\<close>

definition rsa_encrypt :: "string \<Rightarrow> int \<Rightarrow> int \<Rightarrow> rng \<Rightarrow> string res" where
  "rsa_encrypt msg n e rnd =
     (let k = byte_size (nat \<bar>n\<bar>) in
      rbind (pkcs1_pad msg k rnd) (\<lambda>padded.
        let payload = be_value padded in
        if int payload > n then Inl OverflowError
        else if e < 0 then Inl TypeError
        else int2bytes (pow_mod payload (nat e) (nat n)) k))"

text \<open>Message recovery of \<open>rsa.decrypt\<close>: the block must start \<open>00 02\<close>; the message
  follows the first zero byte after them.\<close>

definition pkcs1_unpad :: "string \<Rightarrow> string option" where
  "pkcs1_unpad b =
     (if take 2 b = [CHR 0x00, CHR 0x02] \<and> CHR 0x00 \<in> set (drop 2 b)
      then Some (tl (dropWhile (\<lambda>c. c \<noteq> CHR 0x00) (drop 2 b)))
      else None)"

section \<open>Lemmas\<close>

lemma pow_mod_eq: "pow_mod b e m = b ^ e mod m"
proof (induction b e m rule: pow_mod.induct)
  case (1 b e m)
  show ?case
  proof (cases "e = 0")
    case True
    then show ?thesis by (simp add: pow_mod.simps)
  next
    case False
    have IH: "pow_mod (b * b mod m) (e div 2) m = (b * b) ^ (e div 2) mod m"
      using "1.IH" False by (simp add: power_mod)
    have sq: "(b * b) ^ (e div 2) = b ^ (2 * (e div 2))"
      by (simp add: power_mult power2_eq_square)
    show ?thesis
    proof (cases "even e")
      case True
      then show ?thesis using False IH sq by (simp add: pow_mod.simps [of b e m])
    next
      case odd: False
      then have "e = Suc (2 * (e div 2))" by simp
      then have "b ^ e = b * b ^ (2 * (e div 2))" by (metis power_Suc)
      then show ?thesis using False odd IH sq
        by (simp add: pow_mod.simps [of b e m] mod_mult_right_eq)
    qed
  qed
qed

declare pow_mod_eq [eval_simps]

lemma be_bytes_eval [eval_simps]:
  "be_bytes k n = (if k = 0 then [] else be_bytes (k - 1) (n div 256) @ [char_of (n mod 256)])"
  by (cases k) simp_all

declare byte_size_def [eval_simps] bit_len.simps [eval_simps] pkcs1_pad_def [eval_simps]
  rsa_encrypt_def [eval_simps] int2bytes_def [eval_simps] pkcs1_unpad_def [eval_simps]

lemma length_be_bytes [simp]: "length (be_bytes k n) = k"
  by (induction k arbitrary: n) simp_all

lemma be_value_snoc: "be_value (s @ [c]) = 256 * be_value s + of_char c"
  by (simp add: be_value_def)

lemma be_value_be_bytes: "be_value (be_bytes k n) = n mod 256 ^ k"
proof (induction k arbitrary: n)
  case (Suc k)
  have "256 * (n div 256 mod 256 ^ k) + n mod 256 = n mod (256 * 256 ^ k)"
    by (simp add: mod_mult2_eq)
  with Suc.IH show ?case by (simp add: be_value_snoc)
qed (simp add: be_value_def)

lemma be_value_bound: "be_value s < 256 ^ length s"
proof (induction s rule: rev_induct)
  case (snoc c s)
  have "of_char c < (256::nat)" by simp
  with snoc.IH have "256 * be_value s + of_char c < 256 * 256 ^ length s"
    by linarith
  then show ?case by (simp add: be_value_snoc)
qed (simp add: be_value_def)

lemma be_bytes_be_value: "be_bytes (length s) (be_value s) = s"
proof (induction s rule: rev_induct)
  case (snoc c s)
  have "(256 * be_value s + of_char c) div 256 = be_value s" by simp
  moreover have "char_of ((256 * be_value s + of_char c) mod 256) = c" by simp
  ultimately show ?case using snoc.IH by (simp add: be_value_snoc)
qed simp

lemma pkcs1_pad_Inr:
  "pkcs1_pad msg k rnd = Inr p \<longleftrightarrow>
     length msg + 11 \<le> k \<and> p = [CHR 0x00, CHR 0x02] @ map rnd [0..<k - length msg - 3] @ CHR 0x00 # msg"
  by (auto simp: pkcs1_pad_def)

lemma length_pkcs1_pad: "pkcs1_pad msg k rnd = Inr p \<Longrightarrow> length p = k"
  by (auto simp: pkcs1_pad_Inr)

lemma pkcs1_unpad_pad:
  assumes "pkcs1_pad msg k rnd = Inr p" and "CHR 0x00 \<notin> range rnd"
  shows "pkcs1_unpad p = Some msg"
proof -
  let ?ps = "map rnd [0..<k - length msg - 3]"
  from assms(1) have p: "p = [CHR 0x00, CHR 0x02] @ ?ps @ CHR 0x00 # msg"
    by (simp add: pkcs1_pad_Inr)
  have "dropWhile (\<lambda>c. c \<noteq> CHR 0x00) (?ps @ CHR 0x00 # msg) = CHR 0x00 # msg"
    using assms(2) by (auto simp: dropWhile_append3) (metis rangeI)
  then show ?thesis by (simp add: pkcs1_unpad_def p)
qed

lemma bit_len_bound: "n < 2 ^ bit_len n"
proof (induction n rule: bit_len.induct)
  case (1 n)
  show ?case
  proof (cases "n = 0")
    case False
    with "1.IH" have "n div 2 < 2 ^ bit_len (n div 2)" by simp
    then have "n < 2 * 2 ^ bit_len (n div 2)" by linarith
    with False show ?thesis by (simp add: bit_len.simps [of n])
  qed simp
qed

lemma byte_size_bound: "n < 256 ^ byte_size n"
proof (cases "n = 0")
  case False
  have "bit_len n \<le> 8 * ((bit_len n + 7) div 8)" by simp
  then have "(2::nat) ^ bit_len n \<le> 2 ^ (8 * ((bit_len n + 7) div 8))"
    by (rule power_increasing) simp
  also have "\<dots> = 256 ^ ((bit_len n + 7) div 8)"
    by (simp add: power_mult)
  finally show ?thesis using bit_len_bound [of n] False by (simp add: byte_size_def)
qed (simp add: byte_size_def)

lemma be_value_append: "be_value (xs @ ys) = be_value xs * 256 ^ length ys + be_value ys"
proof (induction ys rule: rev_induct)
  case (snoc y ys)
  have "be_value (xs @ ys @ [y]) = 256 * be_value (xs @ ys) + of_char y"
    using be_value_snoc [of "xs @ ys" y] by simp
  then show ?case using snoc.IH by (simp add: be_value_snoc algebra_simps)
qed (simp add: be_value_def)

lemma be_value_pad_pos: "pkcs1_pad msg k rnd = Inr p \<Longrightarrow> 0 < be_value p"
proof -
  assume "pkcs1_pad msg k rnd = Inr p"
  then have p: "p = [CHR 0x00, CHR 0x02] @ (map rnd [0..<k - length msg - 3] @ CHR 0x00 # msg)"
    by (simp add: pkcs1_pad_Inr)
  then have "be_value p = 2 * 256 ^ length (map rnd [0..<k - length msg - 3] @ CHR 0x00 # msg) +
      be_value (map rnd [0..<k - length msg - 3] @ CHR 0x00 # msg)"
    by (simp only: p be_value_append) (simp add: be_value_def)
  then show ?thesis by simp
qed

text \<open>What a successful \<open>rsa.encrypt\<close> returns: \<open>k\<close> bytes holding the RSA image,
  under modulus \<open>n\<close> and exponent \<open>e\<close>, of the padded block.\<close>

lemma rsa_encrypt_Inr:
  "rsa_encrypt msg n e rnd = Inr c \<longleftrightarrow>
     (\<exists>p. pkcs1_pad msg (byte_size (nat n)) rnd = Inr p \<and> int (be_value p) \<le> n \<and> 0 \<le> e \<and>
          c = be_bytes (byte_size (nat n)) (be_value p ^ nat e mod nat n))"
  (is "?l \<longleftrightarrow> ?r")
proof
  assume l: ?l
  then obtain p where pad: "pkcs1_pad msg (byte_size (nat \<bar>n\<bar>)) rnd = Inr p"
    by (auto simp: rsa_encrypt_def Let_def rbind_eq_Inr)
  with l have le: "int (be_value p) \<le> n"
    by (simp add: rsa_encrypt_def Let_def split: if_splits)
  with be_value_pad_pos [OF pad] have "0 < n" by linarith
  with l pad le show ?r
    by (auto simp: rsa_encrypt_def Let_def int2bytes_def pow_mod_eq split: if_splits)
next
  assume ?r
  then obtain p where pad: "pkcs1_pad msg (byte_size (nat n)) rnd = Inr p"
    and le: "int (be_value p) \<le> n" and e: "0 \<le> e"
    and c: "c = be_bytes (byte_size (nat n)) (be_value p ^ nat e mod nat n)" by blast
  from le be_value_pad_pos [OF pad] have n: "0 < n" by linarith
  then have "be_value p ^ nat e mod nat n < 256 ^ byte_size (nat n)"
    using byte_size_bound [of "nat n"] by (meson order.strict_trans mod_less_divisor zero_less_nat_eq)
  with pad le e c n show ?l
    by (simp add: rsa_encrypt_def Let_def int2bytes_def pow_mod_eq)
qed

end
