(* ===== verification/Encrypt.thy ===== *)
theory Encrypt
  imports Framing Pkcs1
begin

text \<open>
  \<open>_encrypt(key_str, uid, upw)\<close> (\<open>src/pyncloud/pyncloud.py\<close>, lines 14--23), the
  credential encoder of the login handshake:
  \<^verbatim>\<open>
    session_key, key_name, e_str, n_str = key_str.split(',')
    e, n = int(e_str, 16), int(n_str, 16)
    message = _naver_style_join([session_key, uid, upw])
    pubkey = rsa.PublicKey(e, n)
    encrypted = rsa.encrypt(message, pubkey)
    return key_name, encrypted.encode('hex')
  \<close>
  \<open>rsa.PublicKey\<close> takes the modulus first (\<open>PublicKey(n, e)\<close>), so the value the
  code calls \<open>e\<close>, the third field of the key string, is the modulus and the fourth
  field is the public exponent. \<open>rnd\<close> is the random byte stream \<open>rsa.encrypt\<close> pads with.
\<close>

definition encrypt :: "string \<Rightarrow> string \<Rightarrow> string \<Rightarrow> rng \<Rightarrow> (string \<times> string) res" where
  "encrypt key_str uid upw rnd =
     (case py_split (CHR '','') key_str of
        [session_key, key_name, e_str, n_str] \<Rightarrow>
          rbind (int_base16 e_str) (\<lambda>e.
          rbind (int_base16 n_str) (\<lambda>n.
          rbind (naver_style_join [session_key, uid, upw]) (\<lambda>message.
          rbind (rsa_encrypt message e n rnd) (\<lambda>encrypted.
          Inr (key_name, hex_encode encrypted)))))
      | _ \<Rightarrow> Inl ValueError)"

declare encrypt_def [eval_simps]

section \<open>Lemmas\<close>

lemma encrypt_Inr:
  "encrypt key_str uid upw rnd = Inr (name, ct) \<longleftrightarrow>
     (\<exists>sk a b m e msg c. py_split (CHR '','') key_str = [sk, name, a, b] \<and>
        int_base16 a = Inr m \<and> int_base16 b = Inr e \<and>
        naver_style_join [sk, uid, upw] = Inr msg \<and>
        rsa_encrypt msg m e rnd = Inr c \<and> ct = hex_encode c)"
  by (auto simp: encrypt_def rbind_eq_Inr split: list.splits)

lemma encrypt_bad_fields:
  "length (py_split (CHR '','') key_str) \<noteq> 4 \<Longrightarrow> encrypt key_str uid upw rnd = Inl ValueError"
  by (auto simp: encrypt_def split: list.splits)

lemma int_base16_Inl: "int_base16 s = Inl e \<Longrightarrow> e = ValueError"
  by (auto simp: int_base16_def Let_def split: prod.splits if_splits)

lemma naver_style_join_Inl: "naver_style_join l = Inl e \<Longrightarrow> e = ValueError"
  by (simp add: naver_style_join_eq split: if_splits)

text \<open>The RSA image a successful \<open>rsa.encrypt\<close> returns decodes to the message.\<close>

lemma rsa_encrypt_recover:
  assumes "rsa_encrypt msg m e rnd = Inr c" and "CHR 0x00 \<notin> range rnd"
  shows "\<exists>blk. be_value c = blk ^ nat e mod nat m \<and> pkcs1_unpad (be_bytes (length c) blk) = Some msg"
proof -
  from assms(1) obtain p where pad: "pkcs1_pad msg (byte_size (nat m)) rnd = Inr p"
    and le: "int (be_value p) \<le> m"
    and c: "c = be_bytes (byte_size (nat m)) (be_value p ^ nat e mod nat m)"
    by (auto simp: rsa_encrypt_Inr)
  from le be_value_pad_pos [OF pad] have "0 < m" by linarith
  then have "be_value p ^ nat e mod nat m < 256 ^ byte_size (nat m)"
    using byte_size_bound [of "nat m"] by (meson order.strict_trans mod_less_divisor zero_less_nat_eq)
  then have val: "be_value c = be_value p ^ nat e mod nat m"
    by (simp add: c be_value_be_bytes)
  have "length c = length p" by (simp add: c length_pkcs1_pad [OF pad])
  then have "be_bytes (length c) (be_value p) = p" by (simp add: be_bytes_be_value)
  with val pkcs1_unpad_pad [OF pad assms(2)] show ?thesis by auto
qed

section \<open>Properties of the credential encoder\<close>

text \<open>A 22-byte key with exponent 3 and constant padding bytes, evaluated.\<close>

lemma encrypt_example:
  "encrypt ''abc123,keyA,80000000000000000000000000000000000000000001,3'' ''u'' ''p'' (\<lambda>_. CHR ''A'') =
     Inr (''keyA'', ''28e4afbfb6274a4bf79c0e7a84e2a82c8a7853e142b4'')"
  by (simp add: eval_simps)

lemma byte_div_16: "(of_char (c::char) :: nat) div 16 < 16"
  using nat_of_char_less_256 [of c] by (simp add: div_less_iff_less_mult)

lemma hexchar_range:
  "n < 16 \<Longrightarrow> (48 \<le> (of_char (hexchar n) :: nat) \<and> (of_char (hexchar n) :: nat) \<le> 57) \<or>
     (97 \<le> (of_char (hexchar n) :: nat) \<and> (of_char (hexchar n) :: nat) \<le> 102)"
  by (simp add: of_char_hexchar)

text \<open>
  C4 (roundtrip, refinement): what \<open>_encrypt\<close> submits lets the key holder recover
  the credentials. The key string splits into four fields; the second is returned as
  the key name; the ciphertext is hex that decodes to bytes whose value is
  \<open>blk ^ e mod m\<close>, with \<open>m\<close> read from the third field and \<open>e\<close> from the
  fourth; the PKCS\#1 block \<open>blk\<close> unpads to a message that unframes to the session
  key, the user id and the password. It needs the padding stream to have no zero byte,
  which \<open>rsa\<close> guarantees by discarding them.
\<close>

theorem encrypt_recovers_credentials:
  assumes "encrypt key_str uid upw rnd = Inr (name, ct)" and "CHR 0x00 \<notin> range rnd"
  shows "\<exists>sk a b m e c blk msg. py_split (CHR '','') key_str = [sk, name, a, b] \<and>
           int_base16 a = Inr m \<and> int_base16 b = Inr e \<and> hex_decode ct = Some c \<and>
           be_value c = blk ^ nat e mod nat m \<and> pkcs1_unpad (be_bytes (length c) blk) = Some msg \<and>
           naver_style_split msg = Some [sk, uid, upw]"
proof -
  from assms(1) obtain sk a b m e msg c where
    split: "py_split (CHR '','') key_str = [sk, name, a, b]" and
    a: "int_base16 a = Inr m" and b: "int_base16 b = Inr e" and
    join: "naver_style_join [sk, uid, upw] = Inr msg" and
    rsa: "rsa_encrypt msg m e rnd = Inr c" and ct: "ct = hex_encode c"
    by (auto simp: encrypt_Inr)
  from join have "naver_style_split msg = Some [sk, uid, upw]"
    by (auto simp: naver_style_join_eq naver_style_split_frames_only split: if_splits)
  moreover from rsa_encrypt_recover [OF rsa assms(2)] obtain blk where
    "be_value c = blk ^ nat e mod nat m" and "pkcs1_unpad (be_bytes (length c) blk) = Some msg"
    by blast
  moreover have "hex_decode ct = Some c" by (simp add: ct hex_decode_hex_encode)
  ultimately show ?thesis using split a b by blast
qed

theorem encrypt_recovers_credentials_witness:
  "encrypt ''abc123,keyA,80000000000000000000000000000000000000000001,3'' ''u'' ''p'' (\<lambda>_. CHR ''A'') =
     Inr (''keyA'', ''28e4afbfb6274a4bf79c0e7a84e2a82c8a7853e142b4'') \<and>
   CHR 0x00 \<notin> range (\<lambda>_::nat. CHR ''A'') \<and>
   (\<exists>sk a b m e c blk msg.
      py_split (CHR '','') ''abc123,keyA,80000000000000000000000000000000000000000001,3'' = [sk, ''keyA'', a, b] \<and>
      int_base16 a = Inr m \<and> int_base16 b = Inr e \<and>
      hex_decode ''28e4afbfb6274a4bf79c0e7a84e2a82c8a7853e142b4'' = Some c \<and>
      be_value c = blk ^ nat e mod nat m \<and> pkcs1_unpad (be_bytes (length c) blk) = Some msg \<and>
      naver_style_split msg = Some [sk, ''u'', ''p''])"
proof -
  note enc = encrypt_example
  have rnd: "CHR 0x00 \<notin> range (\<lambda>_::nat. CHR ''A'')" by auto
  show ?thesis using encrypt_recovers_credentials [OF enc rnd] enc rnd by blast
qed

text \<open>
  C5 (error): a key string that does not split into exactly four comma-separated
  fields makes \<open>_encrypt\<close> raise \<open>ValueError\<close> (the tuple unpacking fails).
\<close>

theorem encrypt_wrong_field_count:
  assumes "length (py_split (CHR '','') key_str) \<noteq> 4"
  shows "encrypt key_str uid upw rnd = Inl ValueError"
  using assms by (auto simp: encrypt_def split: list.splits)

theorem encrypt_wrong_field_count_witness:
  "length (py_split (CHR '','') ''abc123,keyA,10001'') \<noteq> 4 \<and>
   encrypt ''abc123,keyA,10001'' ''u'' ''p'' (\<lambda>_. CHR ''A'') = Inl ValueError"
proof -
  have n: "length (py_split (CHR '','') ''abc123,keyA,10001'') \<noteq> 4" by simp
  show ?thesis using n encrypt_wrong_field_count [OF n] by simp
qed

text \<open>
  C6 (error): a user id or password of 256 bytes or more makes \<open>_encrypt\<close> raise
  \<open>ValueError\<close>, whatever the key string: the length prefix cannot hold it, and
  every earlier failure is a \<open>ValueError\<close> too. Nothing truncated is ever sent.
\<close>

theorem encrypt_oversized_credential:
  assumes "256 \<le> length uid \<or> 256 \<le> length upw"
  shows "encrypt key_str uid upw rnd = Inl ValueError"
proof -
  have join: "naver_style_join [sk, uid, upw] = Inl ValueError" for sk
    using assms by (auto simp: naver_style_join_eq fits_frame_def)
  show ?thesis
    using join int_base16_Inl
    by (auto simp: encrypt_def rbind_def simp del: naver_style_join.simps split: list.splits sum.splits)
qed

theorem encrypt_oversized_credential_witness:
  "256 \<le> length (replicate 300 (CHR ''x'')) \<and>
   encrypt ''abc123,keyA,3,10d'' ''u'' (replicate 300 (CHR ''x'')) (\<lambda>_. CHR ''A'') = Inl ValueError"
proof -
  have n: "256 \<le> length (replicate 300 (CHR ''x''))" by simp
  show ?thesis
    using n encrypt_oversized_credential [where uid = "''u''" and upw = "replicate 300 (CHR ''x'')"]
    by simp
qed

text \<open>
  C7 (bounds, error): PKCS\#1 v1.5 needs eleven bytes of overhead, so when the framed
  credentials (three length bytes and the three fields) do not fit in the modulus
  less eleven bytes, \<open>_encrypt\<close> raises \<open>OverflowError\<close>. The modulus is the
  value of the third field. The spec's example key \<open>abc123,keyA,3,10d\<close> is one
  such: its modulus is 3, one byte long.
\<close>

theorem encrypt_key_too_small:
  assumes "py_split (CHR '','') key_str = [sk, kn, a, b]"
    and "int_base16 a = Inr m" and "int_base16 b = Inr e"
    and "list_all fits_frame [sk, uid, upw]"
    and "byte_size (nat \<bar>m\<bar>) < length sk + length uid + length upw + 14"
  shows "encrypt key_str uid upw rnd = Inl OverflowError"
  using assms by (simp add: encrypt_def naver_style_join_eq rsa_encrypt_def Let_def pkcs1_pad_def length_frames)

theorem encrypt_key_too_small_witness:
  "py_split (CHR '','') ''abc123,keyA,3,10d'' = [''abc123'', ''keyA'', ''3'', ''10d''] \<and>
   int_base16 ''3'' = Inr 3 \<and> int_base16 ''10d'' = Inr 269 \<and>
   list_all fits_frame [''abc123'', ''u'', ''p''] \<and>
   byte_size (nat \<bar>3\<bar>) < length ''abc123'' + length ''u'' + length ''p'' + 14 \<and>
   encrypt ''abc123,keyA,3,10d'' ''u'' ''p'' (\<lambda>_. CHR ''A'') = Inl OverflowError"
proof -
  have h1: "py_split (CHR '','') ''abc123,keyA,3,10d'' = [''abc123'', ''keyA'', ''3'', ''10d'']" by simp
  have h2: "int_base16 ''3'' = Inr 3" by (simp add: eval_simps)
  have h3: "int_base16 ''10d'' = Inr 269" by (simp add: eval_simps)
  have h4: "list_all fits_frame [''abc123'', ''u'', ''p'']" by (simp add: fits_frame_def)
  have h5: "byte_size (nat \<bar>3\<bar>) < length ''abc123'' + length ''u'' + length ''p'' + 14"
    by (simp add: eval_simps)
  show ?thesis using h1 h2 h3 h4 h5 encrypt_key_too_small [OF h1 h2 h3 h4 h5] by simp
qed

text \<open>
  C27 (type): what \<open>_encrypt\<close> returns is \<open>encrypted.encode('hex')\<close> of a block of
  exactly the modulus's byte length: lower-case hexadecimal digits only, two per
  byte of the modulus (the third field of the key string).
\<close>

theorem encrypt_ciphertext_shape:
  assumes "encrypt key_str uid upw rnd = Inr (name, ct)"
  shows "\<exists>sk a b m. py_split (CHR '','') key_str = [sk, name, a, b] \<and> int_base16 a = Inr m \<and>
           length ct = 2 * byte_size (nat m) \<and>
           (\<forall>ch\<in>set ct. (48 \<le> (of_char ch :: nat) \<and> (of_char ch :: nat) \<le> 57) \<or>
                         (97 \<le> (of_char ch :: nat) \<and> (of_char ch :: nat) \<le> 102))"
proof -
  obtain sk a b m e msg c where split: "py_split (CHR '','') key_str = [sk, name, a, b]"
    and m: "int_base16 a = Inr m" and rsa: "rsa_encrypt msg m e rnd = Inr c" and ct: "ct = hex_encode c"
    using assms unfolding encrypt_Inr by blast
  from rsa obtain x where c: "c = be_bytes (byte_size (nat m)) x"
    unfolding rsa_encrypt_Inr by blast
  have "list_all (\<lambda>ch. (48 \<le> (of_char ch :: nat) \<and> (of_char ch :: nat) \<le> 57) \<or>
                         (97 \<le> (of_char ch :: nat) \<and> (of_char ch :: nat) \<le> 102)) ct"
    unfolding ct hex_encode_all by (simp add: hexchar_range byte_div_16)
  then show ?thesis using split m ct c by (auto simp: length_hex_encode list_all_iff)
qed

theorem encrypt_ciphertext_shape_witness:
  "length ''28e4afbfb6274a4bf79c0e7a84e2a82c8a7853e142b4'' = 2 * byte_size (nat 0x80000000000000000000000000000000000000000001)"
proof -
  obtain sk a b m where "py_split (CHR '','') ''abc123,keyA,80000000000000000000000000000000000000000001,3'' = [sk, ''keyA'', a, b]"
    and "int_base16 a = Inr m" and "length ''28e4afbfb6274a4bf79c0e7a84e2a82c8a7853e142b4'' = 2 * byte_size (nat m)"
    using encrypt_ciphertext_shape [OF encrypt_example] by blast
  then show ?thesis by (simp add: eval_simps)
qed

end
