(* ===== verification/Http.thy ===== *)
theory Http
  imports Prelude
begin

text \<open>
  The interface between the library and its environment. Every HTTP call of
  \<open>src/pyncloud/pyncloud.py\<close> goes through \<open>requests\<close>: \<open>requests.get\<close> for the
  key fetch, and a \<open>requests.Session\<close> for everything after it. The model records
  each request in the order it is sent, in the world's log, and leaves the answer to
  a server function that sees the whole history before the request. The server is
  therefore any deterministic service: its state, cookies included, is a function of
  what it was sent. A transport failure (\<open>requests\<close> raising \<open>ConnectionError\<close>
  and kin) is the reply \<open>Unreachable\<close> and becomes \<open>NetworkError\<close>; the request
  still counts as sent. A reply carries the body (\<open>resp.content\<close>) and what
  \<open>resp.json()\<close> decodes from it, \<open>None\<close> when the body is no JSON.

  The world also holds the local file system, which \<open>download\<close> writes.
  The client object \<open>Ndrive\<close> (fields \<open>_userid\<close>, \<open>_useridx\<close>) is the record
  \<open>ndrive\<close>; its session is the part of the log sent through the session.
\<close>

datatype http_method = GET | POST | PUT

record request =
  req_method :: http_method
  req_url :: string
  req_params :: "(string \<times> pyval) list"
  req_data :: "(string \<times> pyval) list"
  req_headers :: "(string \<times> pyval) list"
  req_body :: string
  req_session :: bool

datatype reply = Unreachable | Reply string "pyval option"

datatype fnode = Dir | File string

record world =
  w_log :: "request list"
  w_fs :: "string \<Rightarrow> fnode option"

type_synonym server = "request list \<Rightarrow> request \<Rightarrow> reply"

text \<open>\<open>Ndrive.__init__(user_id, session)\<close>: \<open>_useridx\<close> starts as \<open>None\<close>.\<close>

record ndrive =
  userid :: string
  useridx :: pyval

definition new_ndrive :: "string \<Rightarrow> ndrive" where
  "new_ndrive uid = \<lparr>userid = uid, useridx = PNone\<rparr>"

text \<open>Nothing sent yet, no local files.\<close>

definition empty_world :: world where
  "empty_world = \<lparr>w_log = [], w_fs = Map.empty\<rparr>"

section \<open>Building and sending requests\<close>

definition get_req :: "string \<Rightarrow> (string \<times> pyval) list \<Rightarrow> bool \<Rightarrow> request" where
  "get_req url params sess =
     \<lparr>req_method = GET, req_url = url, req_params = params, req_data = [], req_headers = [],
      req_body = [], req_session = sess\<rparr>"

definition post_req :: "string \<Rightarrow> (string \<times> pyval) list \<Rightarrow> request" where
  "post_req url data =
     \<lparr>req_method = POST, req_url = url, req_params = [], req_data = data, req_headers = [],
      req_body = [], req_session = True\<rparr>"

definition put_req :: "string \<Rightarrow> string \<Rightarrow> (string \<times> pyval) list \<Rightarrow> request" where
  "put_req url body headers =
     \<lparr>req_method = PUT, req_url = url, req_params = [], req_data = [], req_headers = headers,
      req_body = body, req_session = True\<rparr>"

text \<open>One HTTP call: the request joins the log, then the server answers.\<close>

definition send :: "server \<Rightarrow> request \<Rightarrow> (world, string \<times> pyval option) act" where
  "send srv r w =
     (let w' = w\<lparr>w_log := w_log w @ [r]\<rparr> in
      case srv (w_log w) r of
        Unreachable \<Rightarrow> (Inl NetworkError, w')
      | Reply c j \<Rightarrow> (Inr (c, j), w'))"

text \<open>\<open>resp.json()\<close>: \<open>ValueError\<close> when the body is no JSON.\<close>

definition resp_json :: "string \<times> pyval option \<Rightarrow> pyval res" where
  "resp_json resp = (case snd resp of None \<Rightarrow> Inl ValueError | Some v \<Rightarrow> Inr v)"

lemma send_Reply [simp]:
  "srv (w_log w) r = Reply c j \<Longrightarrow> send srv r w = (Inr (c, j), w\<lparr>w_log := w_log w @ [r]\<rparr>)"
  by (simp add: send_def)

lemma send_Unreachable [simp]:
  "srv (w_log w) r = Unreachable \<Longrightarrow> send srv r w = (Inl NetworkError, w\<lparr>w_log := w_log w @ [r]\<rparr>)"
  by (simp add: send_def)

lemma send_log: "send srv r w = (x, w') \<Longrightarrow> w' = w\<lparr>w_log := w_log w @ [r]\<rparr>"
  by (auto simp: send_def Let_def split: reply.splits)

lemma send_Inr:
  "send srv r w = (Inr v, w') \<longleftrightarrow>
     (\<exists>c j. srv (w_log w) r = Reply c j \<and> v = (c, j)) \<and> w' = w\<lparr>w_log := w_log w @ [r]\<rparr>"
  by (auto simp: send_def Let_def split: reply.splits)

lemma send_Inl:
  "send srv r w = (Inl e, w') \<longleftrightarrow>
     srv (w_log w) r = Unreachable \<and> e = NetworkError \<and> w' = w\<lparr>w_log := w_log w @ [r]\<rparr>"
  by (auto simp: send_def Let_def split: reply.splits)

lemma resp_json_simps [simp]:
  "resp_json (c, None) = Inl ValueError"
  "resp_json (c, Some v) = Inr v"
  by (simp_all add: resp_json_def)

end
