(* ===== verification/Handshake.thy ===== *)
theory Handshake
  imports Encrypt Http
begin

text \<open>
  The login handshake \<open>get_ndrive(nid, npw)\<close>, \<open>src/pyncloud/pyncloud.py\<close>
  lines 26--45: fetch the key string, encrypt the credentials with \<open>_encrypt\<close>, post
  the login form through a new session, find the redirect
  \<open>location.replace("...")\<close> in the answer with
  \<open>re.search(r'location\.replace\("([^"]+)"\)', ...)\<close>, fetch that URL, and return
  \<open>Ndrive(nid, session)\<close>. No step checks the HTTP status; when the answer has no
  redirect, \<open>re.search\<close> returns \<open>None\<close> and \<open>.group(1)\<close> raises
  \<open>AttributeError\<close>.
\<close>

section \<open>The redirect pattern\<close>

definition redirect_open :: string where
  "redirect_open = ''location.replace('' @ [CHR 0x22]"

definition redirect_close :: string where
  "redirect_close = [CHR 0x22, CHR '')'']"

text \<open>
  The pattern matched at the start of a string. \<open>[^"]+\<close> is greedy and the next
  character must be the closing quote, so a match is the longest quote-free run, when
  it is not empty and is followed by \<open>")\<close>; backtracking to a shorter run cannot
  succeed, since the character after it is no quote.
\<close>

definition match_redirect_at :: "string \<Rightarrow> string option" where
  "match_redirect_at s =
     (if take (length redirect_open) s = redirect_open then
        (let r = drop (length redirect_open) s;
             u = takeWhile (\<lambda>c. c \<noteq> CHR 0x22) r
         in if u \<noteq> [] \<and> take 2 (drop (length u) r) = redirect_close then Some u else None)
      else None)"

text \<open>\<open>re.search(...).group(1)\<close>: the leftmost match.\<close>

fun search_redirect :: "string \<Rightarrow> string option" where
  "search_redirect [] = None"
| "search_redirect (c # cs) =
     (case match_redirect_at (c # cs) of Some u \<Rightarrow> Some u | None \<Rightarrow> search_redirect cs)"

definition group1 :: "string option \<Rightarrow> string res" where
  "group1 m = (case m of None \<Rightarrow> Inl AttributeError | Some u \<Rightarrow> Inr u)"

section \<open>\<open>get_ndrive\<close>\<close>

definition keys_url :: string where
  "keys_url = ''http://static.nid.naver.com/enclogin/keys.nhn''"

definition login_url :: string where
  "login_url = ''https://nid.naver.com/nidlogin.login''"

definition login_form :: "string \<Rightarrow> string \<Rightarrow> (string \<times> pyval) list" where
  "login_form encnm encpw =
     [(''url'', PStr ''www.naver.com''),
      (''svctype'', PStr ''0''),
      (''smart_level'', PStr ''1''),
      (''enc_url'', PStr ''http0X0.0000000000001P-10220.0000000.000000www.naver.com''),
      (''enctp'', PStr ''1''),
      (''encnm'', PStr encnm),
      (''encpw'', PStr encpw)]"

definition key_req :: request where
  "key_req = get_req keys_url [] False"

definition login_req :: "string \<Rightarrow> string \<Rightarrow> request" where
  "login_req encnm encpw = post_req login_url (login_form encnm encpw)"

definition finalize_req :: "string \<Rightarrow> request" where
  "finalize_req url = get_req url [] True"

definition get_ndrive :: "server \<Rightarrow> rng \<Rightarrow> string \<Rightarrow> string \<Rightarrow> (world, ndrive) act" where
  "get_ndrive srv rnd nid npw =
     bindE (send srv key_req) (\<lambda>key_resp.
     bindE (lift (encrypt (fst key_resp) nid npw rnd)) (\<lambda>(encnm, encpw).
     bindE (send srv (login_req encnm encpw)) (\<lambda>response.
     bindE (lift (group1 (search_redirect (fst response)))) (\<lambda>finalize_url.
     bindE (send srv (finalize_req finalize_url)) (\<lambda>_.
     ret (new_ndrive nid))))))"

text \<open>A login answer that embeds a redirect script.\<close>

definition sample_page :: string where
  "sample_page = ''<script>'' @ redirect_open @ ''http://nid/fin'' @ redirect_close @ ''</script>''"

text \<open>A key string with a 22-byte modulus, exponent 3, and a server that plays the
  login service: it answers the key fetch with it and the login with the page above.\<close>

definition sample_key :: string where
  "sample_key = ''abc123,keyA,80000000000000000000000000000000000000000001,3''"

definition sample_ct :: string where
  "sample_ct = ''28e4afbfb6274a4bf79c0e7a84e2a82c8a7853e142b4''"

definition sample_server :: server where
  "sample_server h r =
     (if r = key_req then Reply sample_key None
      else if req_url r = login_url then Reply sample_page None
      else Reply [] None)"

section \<open>The redirect search\<close>

lemma sample_encrypt:
  "encrypt sample_key ''u'' ''p'' (\<lambda>_. CHR ''A'') = Inr (''keyA'', sample_ct)"
  by (simp add: sample_key_def sample_ct_def eval_simps)

lemma sample_search: "search_redirect sample_page = Some ''http://nid/fin''"
  by (simp add: sample_page_def redirect_open_def redirect_close_def match_redirect_at_def)

lemma sample_requests_differ:
  "login_req nm ct \<noteq> key_req" "finalize_req u \<noteq> key_req" "req_url (login_req nm ct) = login_url"
  "req_url (finalize_req ''http://nid/fin'') \<noteq> login_url"
  by (simp_all add: login_req_def key_req_def finalize_req_def get_req_def post_req_def login_url_def)


lemma length_redirect_open: "length redirect_open = 18"
  by (simp add: redirect_open_def)

lemma redirect_open_nth_17: "redirect_open ! 17 = CHR 0x22"
  by (simp add: redirect_open_def)

lemma redirect_open_quote_free: "j < 17 \<Longrightarrow> redirect_open ! j \<noteq> CHR 0x22"
proof -
  assume j: "j < 17"
  have "CHR 0x22 \<notin> set (take 17 redirect_open)" by (simp add: redirect_open_def)
  moreover have "redirect_open ! j = take 17 redirect_open ! j" using j by simp
  moreover have "j < length (take 17 redirect_open)" using j by (simp add: length_redirect_open)
  ultimately show ?thesis by (metis nth_mem)
qed

lemma match_redirect_at_Some:
  assumes "match_redirect_at s = Some u"
  shows "\<exists>b. s = redirect_open @ u @ redirect_close @ b \<and> u \<noteq> [] \<and> CHR 0x22 \<notin> set u"
proof -
  let ?r = "drop (length redirect_open) s"
  from assms have op: "take (length redirect_open) s = redirect_open"
    and u: "u = takeWhile (\<lambda>c. c \<noteq> CHR 0x22) ?r" and ne: "u \<noteq> []"
    and cl: "take 2 (drop (length u) ?r) = redirect_close"
    by (auto simp: match_redirect_at_def Let_def split: if_splits)
  have r: "?r = u @ drop (length u) ?r"
    using u by (metis append_take_drop_id takeWhile_eq_take)
  have "drop (length u) ?r = redirect_close @ drop 2 (drop (length u) ?r)"
    using cl by (metis append_take_drop_id)
  with r have "s = redirect_open @ u @ redirect_close @ drop 2 (drop (length u) ?r)"
    using op by (metis append_take_drop_id append.assoc)
  moreover have "CHR 0x22 \<notin> set u" using u by (auto dest: set_takeWhileD)
  ultimately show ?thesis using ne by blast
qed

lemma match_redirect_at_exact:
  assumes "u \<noteq> []" and "CHR 0x22 \<notin> set u"
  shows "match_redirect_at (redirect_open @ u @ redirect_close @ b) = Some u"
proof -
  have "takeWhile (\<lambda>c. c \<noteq> CHR 0x22) (u @ redirect_close @ b) = u"
    using assms(2) by (subst takeWhile_append2) (auto simp: redirect_close_def)
  then show ?thesis using assms(1) by (simp add: match_redirect_at_def redirect_close_def)
qed

lemma match_redirect_at_inside_prefix:
  assumes "a \<noteq> []" and "CHR 0x22 \<notin> set a"
  shows "match_redirect_at (a @ redirect_open @ t) = None"
proof -
  let ?x = "a @ redirect_open @ t"
  have "?x ! 17 \<noteq> CHR 0x22"
  proof (cases "17 < length a")
    case True
    then have "?x ! 17 = a ! 17" by (simp add: nth_append)
    with True assms(2) show ?thesis by (metis nth_mem)
  next
    case False
    have "17 - length a < length redirect_open" by (simp add: length_redirect_open)
    with False have "?x ! 17 = redirect_open ! (17 - length a)"
      by (simp add: nth_append)
    moreover have "17 - length a < 17" using assms(1) False by simp
    ultimately show ?thesis by (simp add: redirect_open_quote_free)
  qed
  moreover have "take 18 ?x ! 17 = ?x ! 17"
    by (rule nth_take) simp
  ultimately have "take 18 ?x \<noteq> redirect_open"
    using redirect_open_nth_17 by metis
  then show ?thesis by (simp add: match_redirect_at_def length_redirect_open)
qed

text \<open>
  C8 (safety): the URL the handshake follows is text that really stands between
  \<open>location.replace("\<close> and \<open>")\<close> in the login answer: non-empty and
  without a quote.
\<close>

theorem search_redirect_Some:
  "search_redirect s = Some u \<Longrightarrow>
     \<exists>a b. s = a @ redirect_open @ u @ redirect_close @ b \<and> u \<noteq> [] \<and> CHR 0x22 \<notin> set u"
proof (induction s rule: search_redirect.induct)
  case (2 c cs)
  show ?case
  proof (cases "match_redirect_at (c # cs)")
    case None
    with "2.prems" "2.IH" obtain a b where "cs = a @ redirect_open @ u @ redirect_close @ b"
      and "u \<noteq> []" "CHR 0x22 \<notin> set u" by auto
    then show ?thesis by (metis append_Cons)
  next
    case (Some v)
    with "2.prems" have "match_redirect_at (c # cs) = Some u" by simp
    from match_redirect_at_Some [OF this] show ?thesis by (metis append_Nil)
  qed
qed simp

text \<open>
  C9 (functional): when the login answer holds \<open>location.replace("u")\<close> with a
  non-empty, quote-free \<open>u\<close> and no quote before it, the search returns exactly
  \<open>u\<close>.
\<close>

theorem search_redirect_first:
  assumes "CHR 0x22 \<notin> set a" and "u \<noteq> []" and "CHR 0x22 \<notin> set u"
  shows "search_redirect (a @ redirect_open @ u @ redirect_close @ b) = Some u"
  using assms(1)
proof (induction a)
  case Nil
  have "redirect_open @ u @ redirect_close @ b = CHR ''l'' # tl redirect_open @ u @ redirect_close @ b"
    by (simp add: redirect_open_def)
  then show ?case using match_redirect_at_exact [OF assms(2,3), of b]
    by (metis search_redirect.simps(2) option.simps(5) append_Nil)
next
  case (Cons c a)
  then have "match_redirect_at ((c # a) @ redirect_open @ u @ redirect_close @ b) = None"
    by (intro match_redirect_at_inside_prefix) simp_all
  with Cons show ?case by simp
qed

theorem search_redirect_Some_witness:
  "search_redirect sample_page = Some ''http://nid/fin'' \<and>
   (\<exists>a b. sample_page = a @ redirect_open @ ''http://nid/fin'' @ redirect_close @ b \<and>
      ''http://nid/fin'' \<noteq> [] \<and> CHR 0x22 \<notin> set ''http://nid/fin'')"
  using sample_search search_redirect_Some [OF sample_search] by simp

theorem search_redirect_first_witness:
  "CHR 0x22 \<notin> set ''<script>'' \<and> ''http://nid/fin'' \<noteq> [] \<and> CHR 0x22 \<notin> set ''http://nid/fin'' \<and>
   search_redirect (''<script>'' @ redirect_open @ ''http://nid/fin'' @ redirect_close @ ''</script>'') =
     Some ''http://nid/fin''"
proof -
  have h: "CHR 0x22 \<notin> set ''<script>''" "''http://nid/fin'' \<noteq> []" "CHR 0x22 \<notin> set ''http://nid/fin''"
    by simp_all
  show ?thesis using h search_redirect_first [OF h, of "''</script>''"] by simp
qed

section \<open>Properties of the handshake\<close>

text \<open>
  C10 (functional): when the key fetch answers a key string the credentials encrypt
  under, the login answer holds a redirect and the redirect target answers, the
  handshake returns a fresh client for \<open>nid\<close> whose user index is unresolved, and it
  has sent exactly three requests, in order: the key fetch outside the session, the
  login form carrying the key name and the ciphertext, and the fetch of the redirect.
\<close>

theorem get_ndrive_success:
  assumes key: "srv (w_log w) key_req = Reply K j1"
    and enc: "encrypt K nid npw rnd = Inr (nm, ct)"
    and login: "srv (w_log w @ [key_req]) (login_req nm ct) = Reply page j2"
    and redir: "search_redirect page = Some u"
    and fin: "srv (w_log w @ [key_req, login_req nm ct]) (finalize_req u) = Reply c3 j3"
  shows "get_ndrive srv rnd nid npw w =
           (Inr (new_ndrive nid), w\<lparr>w_log := w_log w @ [key_req, login_req nm ct, finalize_req u]\<rparr>)"
  by (simp add: get_ndrive_def key enc login redir fin group1_def bindE_apply)

text \<open>
  C11 (error): a login answer without the redirect pattern (wrong credentials, a
  captcha page) makes the handshake raise \<open>AttributeError\<close>, from calling
  \<open>.group(1)\<close> on \<open>None\<close>; no redirect is fetched: the log ends with the login
  request.
\<close>

theorem get_ndrive_rejected:
  assumes key: "srv (w_log w) key_req = Reply K j1"
    and enc: "encrypt K nid npw rnd = Inr (nm, ct)"
    and login: "srv (w_log w @ [key_req]) (login_req nm ct) = Reply page j2"
    and redir: "search_redirect page = None"
  shows "get_ndrive srv rnd nid npw w =
           (Inl AttributeError, w\<lparr>w_log := w_log w @ [key_req, login_req nm ct]\<rparr>)"
  by (simp add: get_ndrive_def key enc login redir group1_def bindE_apply)

text \<open>
  C12 (error, safety): when the key string cannot be used (\<open>_encrypt\<close> raises), the
  handshake raises the same exception after the key fetch alone: no login form is
  sent.
\<close>

theorem get_ndrive_encrypt_error:
  assumes key: "srv (w_log w) key_req = Reply K j1"
    and enc: "encrypt K nid npw rnd = Inl e"
  shows "get_ndrive srv rnd nid npw w = (Inl e, w\<lparr>w_log := w_log w @ [key_req]\<rparr>)"
  by (simp add: get_ndrive_def key enc bindE_apply)

theorem get_ndrive_success_witness:
  "sample_server [] key_req = Reply sample_key None \<and>
   encrypt sample_key ''u'' ''p'' (\<lambda>_. CHR ''A'') = Inr (''keyA'', sample_ct) \<and>
   sample_server [key_req] (login_req ''keyA'' sample_ct) = Reply sample_page None \<and>
   search_redirect sample_page = Some ''http://nid/fin'' \<and>
   sample_server [key_req, login_req ''keyA'' sample_ct] (finalize_req ''http://nid/fin'') = Reply [] None \<and>
   get_ndrive sample_server (\<lambda>_. CHR ''A'') ''u'' ''p'' empty_world =
     (Inr (new_ndrive ''u''),
      empty_world\<lparr>w_log := [key_req, login_req ''keyA'' sample_ct, finalize_req ''http://nid/fin'']\<rparr>)"
proof -
  have k: "sample_server (w_log empty_world) key_req = Reply sample_key None"
    by (simp add: sample_server_def empty_world_def)
  have l: "sample_server (w_log empty_world @ [key_req]) (login_req ''keyA'' sample_ct) = Reply sample_page None"
    by (simp add: sample_server_def sample_requests_differ)
  have f: "sample_server (w_log empty_world @ [key_req, login_req ''keyA'' sample_ct])
             (finalize_req ''http://nid/fin'') = Reply [] None"
    by (simp add: sample_server_def sample_requests_differ)
  show ?thesis
    using get_ndrive_success [OF k sample_encrypt l sample_search f] k l f sample_encrypt sample_search
    by (simp add: empty_world_def)
qed

theorem get_ndrive_rejected_witness:
  "(\<lambda>h r. if r = key_req then Reply sample_key None else Reply ''<p>denied</p>'' None) [] key_req =
     Reply sample_key None \<and>
   encrypt sample_key ''u'' ''p'' (\<lambda>_. CHR ''A'') = Inr (''keyA'', sample_ct) \<and>
   search_redirect ''<p>denied</p>'' = None \<and>
   get_ndrive (\<lambda>h r. if r = key_req then Reply sample_key None else Reply ''<p>denied</p>'' None)
     (\<lambda>_. CHR ''A'') ''u'' ''p'' empty_world =
     (Inl AttributeError, empty_world\<lparr>w_log := [key_req, login_req ''keyA'' sample_ct]\<rparr>)"
proof -
  let ?srv = "\<lambda>(h::request list) r. if r = key_req then Reply sample_key None else Reply ''<p>denied</p>'' None"
  have k: "?srv (w_log empty_world) key_req = Reply sample_key None" by simp
  have l: "?srv (w_log empty_world @ [key_req]) (login_req ''keyA'' sample_ct) = Reply ''<p>denied</p>'' None"
    by (simp add: sample_requests_differ)
  have r: "search_redirect ''<p>denied</p>'' = None"
    by (simp add: redirect_open_def match_redirect_at_def)
  show ?thesis
    using get_ndrive_rejected [OF k sample_encrypt l r] k sample_encrypt r by (simp add: empty_world_def)
qed

theorem get_ndrive_encrypt_error_witness:
  "(\<lambda>(h::request list) r. Reply ''abc123,keyA'' None) [] key_req = Reply ''abc123,keyA'' None \<and>
   encrypt ''abc123,keyA'' ''u'' ''p'' (\<lambda>_. CHR ''A'') = Inl ValueError \<and>
   get_ndrive (\<lambda>h r. Reply ''abc123,keyA'' None) (\<lambda>_. CHR ''A'') ''u'' ''p'' empty_world =
     (Inl ValueError, empty_world\<lparr>w_log := [key_req]\<rparr>)"
proof -
  have k: "(\<lambda>(h::request list) r. Reply ''abc123,keyA'' None) (w_log empty_world) key_req =
      Reply ''abc123,keyA'' None" by simp
  have e: "encrypt ''abc123,keyA'' ''u'' ''p'' (\<lambda>_. CHR ''A'') = Inl ValueError"
    by (simp add: encrypt_def)
  show ?thesis using get_ndrive_encrypt_error [OF k e] e by (simp add: empty_world_def)
qed

end
