(* ===== verification/PyOs.thy ===== *)
theory PyOs
  imports Http "HOL-Library.Sublist"
begin

text \<open>
  The file-system calls of \<open>Ndrive.download\<close>: \<open>os.path.dirname\<close>,
  \<open>os.path.isdir\<close>, \<open>os.path.exists\<close>, \<open>os.makedirs\<close> and \<open>open(path, 'wb+')\<close>
  followed by a full write. They are Python 2 library functions, modelled from their
  reference implementation (\<open>posixpath\<close>, \<open>os.makedirs\<close>) on a file system that
  maps normalised paths (no trailing slash) to directories and files. The current
  directory and the root exist. Paths are not normalised further: \<open>a//b\<close> and
  \<open>a/./b\<close> are different keys, and symbolic links are not modelled.
\<close>

type_synonym fs = "string \<Rightarrow> fnode option"

section \<open>Paths\<close>

definition slash :: char where
  "slash = CHR ''/''"

definition rstrip_slash :: "string \<Rightarrow> string" where
  "rstrip_slash p = rev (dropWhile (\<lambda>c. c = slash) (rev p))"

text \<open>\<open>posixpath.split\<close>: the head up to the last slash (trailing slashes removed
  unless it is all slashes) and the tail after it.\<close>

definition path_split :: "string \<Rightarrow> string \<times> string" where
  "path_split p =
     (let head = rev (dropWhile (\<lambda>c. c \<noteq> slash) (rev p));
          tail = drop (length head) p
      in (if head \<noteq> [] \<and> \<not> list_all (\<lambda>c. c = slash) head then rstrip_slash head else head, tail))"

definition dirname :: "string \<Rightarrow> string" where
  "dirname p = fst (path_split p)"

text \<open>The key a path names: trailing slashes dropped, the root stays \<open>/\<close>.\<close>

definition norm_path :: "string \<Rightarrow> string" where
  "norm_path p = (if p \<noteq> [] \<and> list_all (\<lambda>c. c = slash) p then [slash] else rstrip_slash p)"

definition path_exists :: "fs \<Rightarrow> string \<Rightarrow> bool" where
  "path_exists fs p \<longleftrightarrow> p \<noteq> [] \<and> (norm_path p = [slash] \<or> fs (norm_path p) \<noteq> None)"

definition path_isdir :: "fs \<Rightarrow> string \<Rightarrow> bool" where
  "path_isdir fs p \<longleftrightarrow> p \<noteq> [] \<and> (norm_path p = [slash] \<or> fs (norm_path p) = Some Dir)"

section \<open>\<open>os.mkdir\<close> and \<open>os.makedirs\<close>\<close>

text \<open>\<open>mkdir\<close>: \<open>EEXIST\<close> if the path exists, \<open>ENOENT\<close> for the empty path or a
  missing parent, \<open>ENOTDIR\<close> for a parent that is a file.\<close>

definition mkdir :: "string \<Rightarrow> fs \<Rightarrow> unit res \<times> fs" where
  "mkdir p fs =
     (if p = [] then (Inl (OSError ENOENT), fs)
      else if path_exists fs p then (Inl (OSError EEXIST), fs)
      else (let parent = dirname (norm_path p) in
            if parent = [] \<or> path_isdir fs parent then (Inr (), fs(norm_path p \<mapsto> Dir))
            else if path_exists fs parent then (Inl (OSError ENOTDIR), fs)
            else (Inl (OSError ENOENT), fs)))"

text \<open>
  \<^verbatim>\<open>
  def makedirs(name, mode=0777):
      head, tail = path.split(name)
      if not tail:
          head, tail = path.split(head)
      if head and tail and not path.exists(head):
          try:
              makedirs(head, mode)
          except OSError, e:
              if e.errno != errno.EEXIST: raise
          if tail == curdir: return
      mkdir(name, mode)
  \<close>
\<close>

definition makedirs_split :: "string \<Rightarrow> string \<times> string" where
  "makedirs_split name =
     (let (head, tail) = path_split name in if tail = [] then path_split head else (head, tail))"

lemma length_rstrip_slash: "length (rstrip_slash p) \<le> length p"
  by (simp add: rstrip_slash_def) (metis length_dropWhile_le length_rev)

lemma path_split_shorter:
  assumes "path_split p = (head, tail)"
  shows "length head + length tail \<le> length p"
proof -
  let ?h = "rev (dropWhile (\<lambda>c. c \<noteq> slash) (rev p))"
  have h: "length ?h \<le> length p" by (metis length_dropWhile_le length_rev)
  from assms have tail: "tail = drop (length ?h) p" by (simp add: path_split_def Let_def)
  from assms have "length head \<le> length ?h"
    using length_rstrip_slash [of ?h] by (auto simp: path_split_def Let_def split: if_splits)
  with tail h show ?thesis by simp
qed

lemma makedirs_split_shorter:
  assumes "makedirs_split name = (head, tail)" and "tail \<noteq> []"
  shows "length head < length name"
proof (cases "snd (path_split name) = []")
  case True
  then obtain h0 where s0: "path_split name = (h0, [])" by (cases "path_split name") auto
  with assms(1) have "path_split h0 = (head, tail)" by (simp add: makedirs_split_def)
  then have "length head + length tail \<le> length h0" by (rule path_split_shorter)
  with assms(2) have "length head < length h0" by (cases tail) auto
  moreover have "length h0 \<le> length name" using path_split_shorter [OF s0] by simp
  ultimately show ?thesis by simp
next
  case False
  then obtain h0 t0 where s0: "path_split name = (h0, t0)" and "t0 \<noteq> []"
    by (cases "path_split name") auto
  with assms(1) have "head = h0" by (simp add: makedirs_split_def)
  with path_split_shorter [OF s0] \<open>t0 \<noteq> []\<close> show ?thesis by (cases t0) auto
qed

function makedirs :: "string \<Rightarrow> fs \<Rightarrow> unit res \<times> fs" where
  "makedirs name fs =
     (case makedirs_split name of (head, tail) \<Rightarrow>
        if head \<noteq> [] \<and> tail \<noteq> [] \<and> \<not> path_exists fs head then
          (case makedirs head fs of
             (Inl (OSError e), fs1) \<Rightarrow>
               if e \<noteq> EEXIST then (Inl (OSError e), fs1)
               else if tail = ''.'' then (Inr (), fs1) else mkdir name fs1
           | (Inl e, fs1) \<Rightarrow> (Inl e, fs1)
           | (Inr _, fs1) \<Rightarrow> if tail = ''.'' then (Inr (), fs1) else mkdir name fs1)
        else mkdir name fs)"
  by pat_completeness auto
termination
  by (relation "measure (\<lambda>(name, fs). length name)") (auto intro: makedirs_split_shorter [OF sym])

declare makedirs.simps [simp del]

section \<open>Writing a file\<close>

text \<open>\<open>open(p, 'wb+')\<close> then \<open>shutil.copyfileobj\<close> of the whole body: the file is
  truncated and holds exactly the body. Opening fails with \<open>IOError\<close> when the
  parent is missing or is no directory, or when the path is a directory.\<close>

definition write_file :: "string \<Rightarrow> string \<Rightarrow> fs \<Rightarrow> unit res \<times> fs" where
  "write_file p body fs =
     (let parent = dirname (norm_path p) in
      if p = [] then (Inl (IOError ENOENT), fs)
      else if path_isdir fs p then (Inl (IOError EISDIR), fs)
      else if parent \<noteq> [] \<and> \<not> path_isdir fs parent then
        (Inl (IOError (if path_exists fs parent then ENOTDIR else ENOENT)), fs)
      else (Inr (), fs(norm_path p \<mapsto> File body)))"

section \<open>Where the calls write\<close>

text \<open>Every key these calls change is a prefix of the path they were given:
  \<open>makedirs\<close> creates the path and heads of it, \<open>mkdir\<close> and \<open>open\<close> the path
  without its trailing slashes.\<close>

lemma prefix_rev_dropWhile: "prefix (rev (dropWhile P (rev p))) p"
proof -
  have "p = rev (dropWhile P (rev p)) @ rev (takeWhile P (rev p))"
    by (metis rev_append rev_rev_ident takeWhile_dropWhile_id)
  then show ?thesis by (rule prefixI)
qed

lemma prefix_rstrip_slash: "prefix (rstrip_slash p) p"
  unfolding rstrip_slash_def by (rule prefix_rev_dropWhile)

lemma path_split_prefix: "path_split p = (h, t) \<Longrightarrow> prefix h p"
  using prefix_rev_dropWhile [of "\<lambda>c. c \<noteq> slash" p]
    prefix_rstrip_slash [of "rev (dropWhile (\<lambda>c. c \<noteq> slash) (rev p))"]
  by (auto simp: path_split_def Let_def split: if_splits dest: prefix_order.trans)

lemma dirname_prefix: "prefix (dirname p) p"
  by (cases "path_split p") (simp add: dirname_def path_split_prefix)

lemma makedirs_split_prefix: "makedirs_split name = (h, t) \<Longrightarrow> prefix h name"
  by (cases "path_split name")
    (auto simp: makedirs_split_def split: if_splits dest: path_split_prefix prefix_order.trans)

lemma prefix_norm_path: "prefix (norm_path p) p"
proof (cases "p \<noteq> [] \<and> list_all (\<lambda>c. c = slash) p")
  case True
  then obtain cs where "p = slash # cs" by (cases p) auto
  with True show ?thesis by (simp add: norm_path_def)
next
  case False
  then show ?thesis unfolding norm_path_def using prefix_rstrip_slash by auto
qed

lemma mkdir_local: "mkdir p fs = (r, fs') \<Longrightarrow> fs' q \<noteq> fs q \<Longrightarrow> prefix q p"
  by (auto simp: mkdir_def Let_def prefix_norm_path split: if_splits)

lemma write_file_local: "write_file p body fs = (r, fs') \<Longrightarrow> fs' q \<noteq> fs q \<Longrightarrow> prefix q p"
  by (auto simp: write_file_def Let_def prefix_norm_path split: if_splits)

lemma makedirs_step:
  assumes "makedirs name fs = (r, fs')" and "makedirs_split name = (head, tail)"
    and "head \<noteq> [] \<and> tail \<noteq> [] \<and> \<not> path_exists fs head" and "makedirs head fs = (r1, fs1)"
  shows "fs' = fs1 \<or> (\<exists>r'. mkdir name fs1 = (r', fs'))"
  using assms by (auto simp: makedirs.simps [of name] split: sum.splits exc.splits if_splits)

lemma makedirs_local: "makedirs name fs = (r, fs') \<Longrightarrow> fs' q \<noteq> fs q \<Longrightarrow> prefix q name"
proof (induction name fs arbitrary: r fs' q rule: makedirs.induct)
  case (1 name fs)
  obtain head tail where sp: "makedirs_split name = (head, tail)" by fastforce
  show ?case
  proof (cases "head \<noteq> [] \<and> tail \<noteq> [] \<and> \<not> path_exists fs head")
    case False
    with "1.prems"(1) sp have "mkdir name fs = (r, fs')" by (simp add: makedirs.simps [of name])
    with "1.prems"(2) show ?thesis by (blast dest: mkdir_local)
  next
    case True
    obtain r1 fs1 where m: "makedirs head fs = (r1, fs1)" by fastforce
    have ih: "fs1 q' \<noteq> fs q' \<Longrightarrow> prefix q' name" for q'
      using "1.IH" [OF sp [symmetric] True m] makedirs_split_prefix [OF sp]
      by (blast intro: prefix_order.trans)
    from makedirs_step [OF "1.prems"(1) sp True m] show ?thesis
    proof
      assume "fs' = fs1"
      with "1.prems"(2) ih show ?thesis by simp
    next
      assume "\<exists>r'. mkdir name fs1 = (r', fs')"
      then obtain r' where "mkdir name fs1 = (r', fs')" ..
      with "1.prems"(2) ih show ?thesis by (cases "fs' q = fs1 q") (auto dest: mkdir_local)
    qed
  qed
qed

end
