(* ===== verification/FsTree.thy ===== *)
theory FsTree
  imports PyOs
begin

text \<open>
  The shape of the local file system and what \<open>os.makedirs\<close> promises.
  \<^item> \<open>fs_wf\<close>: the file system is a tree. Every entry is a normalised, non-root path
    whose parent (\<open>os.path.dirname\<close>) is a directory or is the current
    directory (a relative top-level name). \<open>mkdir\<close>, \<open>makedirs\<close> and
    \<open>write_file\<close> keep it.
  \<^item> \<open>makedirs_spec\<close>: an abstract, non-recursive statement of \<open>os.makedirs\<close> on
    an absolute path given by its components (no empty, \<open>.\<close> or \<open>..\<close>
    component). It raises \<open>EEXIST\<close> when the path exists and \<open>ENOTDIR\<close> when an
    ancestor is a file, and otherwise adds every ancestor as a directory. The
    refinement theorem proves that Python 2's recursive \<open>makedirs\<close>, with its
    \<open>EEXIST\<close> catch, computes exactly this on a well-formed tree, file system
    included: a failure leaves the tree unchanged.
\<close>

definition fs_wf :: "fs \<Rightarrow> bool" where
  "fs_wf fs \<longleftrightarrow>
     (\<forall>k\<in>dom fs. k \<noteq> [] \<and> norm_path k = k \<and> k \<noteq> [slash] \<and>
        (dirname k = [] \<or> path_isdir fs (dirname k)))"

text \<open>A path component, and the absolute path \<open>/c1/.../cn\<close> with its ancestors
  \<open>/c1\<close>, \<open>/c1/c2\<close>, ..., the path itself last.\<close>

definition valid_name :: "string \<Rightarrow> bool" where
  "valid_name c \<longleftrightarrow> c \<noteq> [] \<and> slash \<notin> set c \<and> c \<noteq> ''.'' \<and> c \<noteq> ''..''"

definition abs_path :: "string list \<Rightarrow> string" where
  "abs_path cs = concat (map (\<lambda>c. slash # c) cs)"

definition ancestors :: "string list \<Rightarrow> string list" where
  "ancestors cs = map (\<lambda>i. abs_path (take i cs)) [1..<Suc (length cs)]"

definition is_file :: "fnode option \<Rightarrow> bool" where
  "is_file v \<longleftrightarrow> (case v of Some (File _) \<Rightarrow> True | _ \<Rightarrow> False)"

definition makedirs_spec :: "string list \<Rightarrow> fs \<Rightarrow> unit res \<times> fs" where
  "makedirs_spec cs fs =
     (if fs (abs_path cs) \<noteq> None then (Inl (OSError EEXIST), fs)
      else if list_ex (\<lambda>q. is_file (fs q)) (ancestors cs) then (Inl (OSError ENOTDIR), fs)
      else (Inr (), fold (\<lambda>q m. m(q \<mapsto> Dir)) (ancestors cs) fs))"

lemma rstrip_slash_not_all:
  "\<not> list_all (\<lambda>c. c = slash) p \<Longrightarrow> rstrip_slash p \<noteq> [] \<and> last (rstrip_slash p) \<noteq> slash"
  by (induction p rule: rev_induct) (auto simp: rstrip_slash_def)

lemma rstrip_slash_last: "p \<noteq> [] \<Longrightarrow> last p \<noteq> slash \<Longrightarrow> rstrip_slash p = p"
  by (induction p rule: rev_induct) (auto simp: rstrip_slash_def)

lemma last_not_all: "p \<noteq> [] \<Longrightarrow> last p \<noteq> c \<Longrightarrow> \<not> list_all (\<lambda>x. x = c) p"
  by (induction p) (auto split: if_splits)

lemma norm_path_idem: "norm_path (norm_path p) = norm_path p"
proof (cases "p \<noteq> [] \<and> list_all (\<lambda>c. c = slash) p")
  case True
  then show ?thesis by (simp add: norm_path_def)
next
  case False
  show ?thesis
  proof (cases "p = []")
    case True
    then show ?thesis by (simp add: norm_path_def rstrip_slash_def)
  next
    case nil: False
    with False have r: "rstrip_slash p \<noteq> []" "last (rstrip_slash p) \<noteq> slash"
      using rstrip_slash_not_all [of p] by auto
    with False show ?thesis
      by (simp add: norm_path_def last_not_all rstrip_slash_last)
  qed
qed

lemma norm_path_nonempty: "p \<noteq> [] \<Longrightarrow> norm_path p \<noteq> []"
  using rstrip_slash_not_all [of p] by (auto simp: norm_path_def)

lemma path_isdir_upd:
  "path_isdir fs d \<Longrightarrow> fs q \<noteq> Some Dir \<Longrightarrow> path_isdir (fs(q \<mapsto> v)) d"
  by (auto simp: path_isdir_def)

lemma fs_wf_upd:
  assumes "fs_wf fs" and "fs q \<noteq> Some Dir" and "q \<noteq> []" and "norm_path q = q" and "q \<noteq> [slash]"
    and "dirname q = [] \<or> path_isdir fs (dirname q)"
  shows "fs_wf (fs(q \<mapsto> v))"
  using assms(1) assms(3-6) path_isdir_upd [where fs = fs and q = q and v = v, OF _ assms(2)]
  unfolding fs_wf_def by auto

lemma mkdir_wf: "fs_wf fs \<Longrightarrow> fs_wf (snd (mkdir p fs))"
  by (auto simp: mkdir_def Let_def path_exists_def norm_path_idem norm_path_nonempty
      intro!: fs_wf_upd)

lemma write_file_wf: "fs_wf fs \<Longrightarrow> fs_wf (snd (write_file p body fs))"
  by (auto simp: write_file_def Let_def path_isdir_def norm_path_idem norm_path_nonempty
      intro!: fs_wf_upd)

lemma makedirs_wf: "fs_wf fs \<Longrightarrow> fs_wf (snd (makedirs name fs))"
proof (induction name fs rule: makedirs.induct)
  case (1 name fs)
  obtain head tail where sp: "makedirs_split name = (head, tail)" by fastforce
  show ?case
  proof (cases "head \<noteq> [] \<and> tail \<noteq> [] \<and> \<not> path_exists fs head")
    case True
    have wf1: "fs_wf (snd (makedirs head fs))" using "1.IH" [OF sp [symmetric] _ "1.prems"] True by simp
    then show ?thesis using True sp
      by (subst makedirs.simps) (auto simp: mkdir_wf split: prod.splits sum.splits exc.splits)
  next
    case False
    then show ?thesis using sp "1.prems" by (subst makedirs.simps) (auto simp: mkdir_wf)
  qed
qed

lemma abs_path_simps [simp]:
  "abs_path [] = []" "abs_path (cs @ [c]) = abs_path cs @ slash # c" "abs_path [c] = slash # c"
  by (simp_all add: abs_path_def)

lemma ancestors_snoc: "ancestors (cs @ [c]) = ancestors cs @ [abs_path (cs @ [c])]"
  by (auto simp: ancestors_def)

lemma ancestors_Nil [simp]: "ancestors [] = []"
  by (simp add: ancestors_def)

lemma abs_path_last:
  assumes "cs \<noteq> []" and "list_all valid_name cs"
  shows "abs_path cs \<noteq> [] \<and> last (abs_path cs) \<noteq> slash"
proof (cases cs rule: rev_exhaust)
  case (snoc ys x)
  then have "x \<noteq> []" and "slash \<notin> set x" using assms(2) by (simp_all add: valid_name_def)
  moreover have "last x \<in> set x" using \<open>x \<noteq> []\<close> by (rule last_in_set)
  ultimately have "last x \<noteq> slash" by metis
  then show ?thesis using snoc \<open>x \<noteq> []\<close> by (simp add: last_append)
qed (use assms in simp)

lemma abs_path_norm:
  assumes "cs \<noteq> []" and "list_all valid_name cs"
  shows "norm_path (abs_path cs) = abs_path cs" and "abs_path cs \<noteq> [slash]"
  using abs_path_last [OF assms] last_not_all [of "abs_path cs" slash]
  by (auto simp: norm_path_def rstrip_slash_last)

lemma path_split_abs:
  assumes "valid_name c" and "list_all valid_name cs"
  shows "path_split ((abs_path cs @ slash # c)) = (if cs = [] then [slash] else abs_path cs, c)"
proof -
  have nc: "slash \<notin> set c" using assms(1) by (simp add: valid_name_def)
  have dw: "dropWhile (\<lambda>x. x \<noteq> slash) (rev (abs_path cs @ slash # c)) = slash # rev (abs_path cs)"
    using nc by (simp add: dropWhile_append)
  have rs: "cs \<noteq> [] \<Longrightarrow> rstrip_slash (abs_path cs @ [slash]) = abs_path cs"
    using abs_path_last [of cs] assms(2) by (auto simp: rstrip_slash_def rstrip_slash_last [unfolded rstrip_slash_def])
  have na: "cs \<noteq> [] \<Longrightarrow> \<not> list_all (\<lambda>x. x = slash) (abs_path cs @ [slash])"
    using abs_path_last [of cs] assms(2) last_not_all [of "abs_path cs" slash] by auto
  show ?thesis using dw rs na by (auto simp: path_split_def Let_def)
qed

lemma makedirs_split_abs:
  "valid_name c \<Longrightarrow> list_all valid_name cs \<Longrightarrow>
     makedirs_split ((abs_path cs @ slash # c)) = (if cs = [] then [slash] else abs_path cs, c)"
  using path_split_abs [of c cs] by (simp add: makedirs_split_def valid_name_def)

lemma dirname_abs:
  "valid_name c \<Longrightarrow> list_all valid_name cs \<Longrightarrow>
     dirname ((abs_path cs @ slash # c)) = (if cs = [] then [slash] else abs_path cs)"
  by (simp add: dirname_def path_split_abs)

lemma root_exists [simp]: "path_exists fs [slash]" "path_isdir fs [slash]"
  by (simp_all add: path_exists_def path_isdir_def norm_path_def)

lemma abs_path_exists:
  assumes "cs \<noteq> []" and "list_all valid_name cs"
  shows "path_exists fs (abs_path cs) \<longleftrightarrow> fs (abs_path cs) \<noteq> None"
    and "path_isdir fs (abs_path cs) \<longleftrightarrow> fs (abs_path cs) = Some Dir"
  using abs_path_norm [OF assms] abs_path_last [OF assms]
  by (simp_all add: path_exists_def path_isdir_def)

lemma mkdir_abs:
  assumes "valid_name c" and "list_all valid_name cs"
  shows "mkdir (abs_path cs @ slash # c) fs =
    (if fs (abs_path cs @ slash # c) \<noteq> None then (Inl (OSError EEXIST), fs)
     else if cs = [] \<or> fs (abs_path cs) = Some Dir then (Inr (), fs(abs_path cs @ slash # c \<mapsto> Dir))
     else if fs (abs_path cs) \<noteq> None then (Inl (OSError ENOTDIR), fs)
     else (Inl (OSError ENOENT), fs))"
proof -
  have v: "list_all valid_name (cs @ [c])" "cs @ [c] \<noteq> []" using assms by simp_all
  show ?thesis
    using abs_path_norm (1) [OF v(2,1)] abs_path_exists [OF v(2,1), of fs] dirname_abs [OF assms]
      abs_path_exists [of cs fs] abs_path_last [of cs] assms(2)
    by (auto simp: mkdir_def Let_def)
qed

lemma wf_parent:
  assumes "fs_wf fs" and "valid_name c" and "list_all valid_name cs" and "cs \<noteq> []"
    and "fs (abs_path cs @ slash # c) \<noteq> None"
  shows "fs (abs_path cs) = Some Dir"
proof -
  have "dirname (abs_path cs @ slash # c) = [] \<or> path_isdir fs (dirname (abs_path cs @ slash # c))"
    using assms(1,5) unfolding fs_wf_def by blast
  then show ?thesis
    using dirname_abs [OF assms(2,3)] abs_path_exists [OF assms(4,3)] abs_path_last [OF assms(4,3)]
      assms(4) by auto
qed

lemma wf_ancestors_dir:
  "fs_wf fs \<Longrightarrow> list_all valid_name cs \<Longrightarrow> fs (abs_path cs) = Some Dir \<Longrightarrow>
     \<forall>q\<in>set (ancestors cs). fs q = Some Dir"
proof (induction cs rule: rev_induct)
  case (snoc c cs)
  have v: "valid_name c" "list_all valid_name cs" using snoc.prems(2) by simp_all
  have last: "fs (abs_path (cs @ [c])) = Some Dir" using snoc.prems(3) .
  have "\<forall>q\<in>set (ancestors cs). fs q = Some Dir"
  proof (cases "cs = []")
    case False
    have "fs (abs_path cs @ slash # c) \<noteq> None" using last by simp
    from wf_parent [OF snoc.prems(1) v False this] show ?thesis
      using snoc.IH snoc.prems(1) v(2) by blast
  qed simp
  with last show ?case unfolding ancestors_snoc by simp
qed simp

lemma fold_Dir_lookup: "fold (\<lambda>q m. m(q \<mapsto> Dir)) qs m p = (if p \<in> set qs then Some Dir else m p)"
  by (induction qs arbitrary: m) auto

lemma fold_Dir_same: "\<forall>q\<in>set qs. m q = Some Dir \<Longrightarrow> fold (\<lambda>q m. m(q \<mapsto> Dir)) qs m = m"
  by (rule ext) (auto simp: fold_Dir_lookup)

lemma abs_path_take: "abs_path cs = abs_path (take i cs) @ abs_path (drop i cs)"
  by (simp add: abs_path_def flip: concat_append map_append)

lemma ancestors_shorter:
  assumes "q \<in> set (ancestors cs)"
  shows "length q \<le> length (abs_path cs)"
proof -
  from assms obtain i where "q = abs_path (take i cs)" by (auto simp: ancestors_def)
  moreover have "length (abs_path cs) = length (abs_path (take i cs)) + length (abs_path (drop i cs))"
    using arg_cong [OF abs_path_take [of cs i], of length] by simp
  ultimately show ?thesis by simp
qed

lemma abs_path_in_ancestors:
  assumes "cs \<noteq> []"
  shows "abs_path cs \<in> set (ancestors cs)"
proof -
  obtain ys x where "cs = ys @ [x]" using assms by (metis rev_exhaust)
  then show ?thesis by (simp only: ancestors_snoc set_append list.set) blast
qed

lemma makedirs_abs_head_exists:
  assumes "valid_name c" and "list_all valid_name cs" and "cs = [] \<or> fs (abs_path cs) \<noteq> None"
  shows "makedirs (abs_path cs @ slash # c) fs = mkdir (abs_path cs @ slash # c) fs"
  using assms abs_path_exists(1) [of cs fs] abs_path_last [of cs]
  by (subst makedirs.simps) (auto simp: makedirs_split_abs)

lemma makedirs_abs_recurse:
  assumes "valid_name c" and "list_all valid_name cs" and "cs \<noteq> []" and "fs (abs_path cs) = None"
  shows "makedirs (abs_path cs @ slash # c) fs =
    (case makedirs (abs_path cs) fs of
       (Inl (OSError e), fs1) \<Rightarrow> if e \<noteq> EEXIST then (Inl (OSError e), fs1) else mkdir (abs_path cs @ slash # c) fs1
     | (Inl e, fs1) \<Rightarrow> (Inl e, fs1)
     | (Inr _, fs1) \<Rightarrow> mkdir (abs_path cs @ slash # c) fs1)"
proof -
  have "c \<noteq> ''.''" "c \<noteq> []" using assms(1) by (simp_all add: valid_name_def)
  then show ?thesis
    using assms abs_path_exists(1) [of cs fs] abs_path_last [of cs]
    by (subst makedirs.simps) (auto simp: makedirs_split_abs split: prod.split sum.split exc.split)
qed

lemma makedirs_spec_snoc:
  "makedirs_spec (cs @ [c]) fs =
     (if fs (abs_path cs @ slash # c) \<noteq> None then (Inl (OSError EEXIST), fs)
      else if list_ex (\<lambda>q. is_file (fs q)) (ancestors cs) \<or> is_file (fs (abs_path cs @ slash # c))
      then (Inl (OSError ENOTDIR), fs)
      else (Inr (), (fold (\<lambda>q m. m(q \<mapsto> Dir)) (ancestors cs) fs)(abs_path cs @ slash # c \<mapsto> Dir)))"
  by (simp add: makedirs_spec_def ancestors_snoc)

text \<open>The step of the refinement when the parent exists (or is the root): one
  \<open>mkdir\<close>, which the tree shape makes agree with the specification.\<close>

lemma makedirs_refines_head_exists:
  assumes wf: "fs_wf fs" and v: "valid_name c" "list_all valid_name cs"
    and h: "cs = [] \<or> fs (abs_path cs) \<noteq> None"
  shows "makedirs (abs_path cs @ slash # c) fs = makedirs_spec (cs @ [c]) fs"
proof -
  let ?h = "abs_path cs"
  have m: "makedirs (abs_path cs @ slash # c) fs = mkdir (abs_path cs @ slash # c) fs"
    using makedirs_abs_head_exists [where fs = fs, OF v h] .
  have inh: "cs \<noteq> [] \<Longrightarrow> ?h \<in> set (ancestors cs)" by (rule abs_path_in_ancestors)
  consider (at_root) "cs = []" | (head_dir) "cs \<noteq> []" "fs ?h = Some Dir"
    | (head_file) x where "cs \<noteq> []" "fs ?h = Some (File x)"
    using h by (metis fnode.exhaust option.exhaust)
  then show ?thesis
  proof cases
    case at_root
    show ?thesis using m mkdir_abs [OF v, of fs] unfolding at_root
      by (simp add: makedirs_spec_def ancestors_def is_file_def)
  next
    case head_dir
    then show ?thesis
      using inh wf_ancestors_dir [OF wf v(2)] fold_Dir_same [of "ancestors cs" fs]
      by (auto simp: m makedirs_spec_snoc mkdir_abs [OF v] is_file_def list_ex_iff)
  next
    case head_file
    then show ?thesis using inh
      by (auto simp: m makedirs_spec_snoc mkdir_abs [OF v] is_file_def list_ex_iff)
  qed
qed

text \<open>
  C26 (refinement): on a well-formed tree, \<open>os.makedirs\<close> of an absolute path of
  proper components behaves as its abstract specification. It raises \<open>EEXIST\<close>
  if the path exists. It raises \<open>ENOTDIR\<close>, changing nothing, if an ancestor is a
  regular file. Otherwise it returns with exactly the missing ancestors and the
  path added as directories.
\<close>

theorem makedirs_refines:
  assumes "fs_wf fs" and "cs \<noteq> []" and "list_all valid_name cs"
  shows "makedirs (abs_path cs) fs = makedirs_spec cs fs"
  using assms
proof (induction cs arbitrary: fs rule: rev_induct)
  case (snoc c cs)
  have v: "valid_name c" "list_all valid_name cs" using snoc.prems(3) by simp_all
  let ?p = "abs_path cs @ slash # c" and ?h = "abs_path cs"
  show ?case
  proof (cases "cs \<noteq> [] \<and> fs ?h = None")
    case False
    then show ?thesis using makedirs_refines_head_exists [OF snoc.prems(1) v] by auto
  next
    case True
    have pn: "fs ?p = None" using wf_parent [OF snoc.prems(1) v] True by fastforce
    let ?fs1 = "fold (\<lambda>q m. m(q \<mapsto> Dir)) (ancestors cs) fs"
    have ih: "makedirs ?h fs =
        (if list_ex (\<lambda>q. is_file (fs q)) (ancestors cs) then (Inl (OSError ENOTDIR), fs) else (Inr (), ?fs1))"
      using snoc.IH [OF snoc.prems(1)] True v(2) by (simp add: makedirs_spec_def)
    have notin: "?p \<notin> set (ancestors cs)" using ancestors_shorter [of ?p cs] by auto
    have fs1: "?fs1 ?p = None" "?fs1 ?h = Some Dir"
      using pn notin abs_path_in_ancestors [of cs] True by (simp_all add: fold_Dir_lookup)
    show ?thesis
      using True pn fs1
      by (auto simp: makedirs_abs_recurse [OF v] ih makedirs_spec_snoc mkdir_abs [OF v]
          ENOTDIR_def EEXIST_def is_file_def)
  qed
qed simp

lemma path_split_tail:
  assumes "d \<noteq> []" and "norm_path d = d" and "d \<noteq> [slash]"
  shows "snd (path_split d) \<noteq> []"
proof -
  have na: "\<not> list_all (\<lambda>c. c = slash) d" using assms by (auto simp: norm_path_def)
  then have "rstrip_slash d = d" using assms(2) by (simp add: norm_path_def)
  with rstrip_slash_not_all [OF na] have l: "last d \<noteq> slash" by simp
  obtain ys x where d: "d = ys @ [x]" using assms(1) by (metis rev_exhaust)
  with l have "x \<noteq> slash" by simp
  then have "length (rev (dropWhile (\<lambda>c. c \<noteq> slash) (rev d))) < length d"
    using d by simp (metis length_dropWhile_le length_rev le_imp_less_Suc)
  then show ?thesis by (simp add: path_split_def Let_def)
qed

lemma makedirs_exists:
  assumes "fs_wf fs" and "fs d \<noteq> None"
  shows "makedirs d fs = (Inl (OSError EEXIST), fs)"
proof -
  have d: "d \<noteq> []" "norm_path d = d" "d \<noteq> [slash]" "dirname d = [] \<or> path_isdir fs (dirname d)"
    using assms unfolding fs_wf_def by blast+
  have sp: "makedirs_split d = path_split d"
    using path_split_tail [OF d(1-3)] by (cases "path_split d") (simp add: makedirs_split_def)
  have "path_isdir fs (dirname d) \<Longrightarrow> path_exists fs (dirname d)"
    by (auto simp: path_isdir_def path_exists_def)
  then have "makedirs d fs = mkdir d fs"
    using d(4) sp by (subst makedirs.simps) (auto simp: dirname_def split: prod.split)
  then show ?thesis using assms(2) d(1,2) by (simp add: mkdir_def path_exists_def)
qed

lemma wf_tmp_eval: "fs_wf (Map.empty(''/tmp'' \<mapsto> Dir))"
  by (simp add: fs_wf_def norm_path_def rstrip_slash_def dirname_def path_split_def slash_def
      path_isdir_def)

theorem makedirs_refines_witness:
  "makedirs ''/tmp/a/b'' (Map.empty(''/tmp'' \<mapsto> Dir)) =
     (Inr (), Map.empty(''/tmp'' \<mapsto> Dir, ''/tmp/a'' \<mapsto> Dir, ''/tmp/a/b'' \<mapsto> Dir))"
proof -
  have v: "[''tmp'', ''a'', ''b''] \<noteq> []" "list_all valid_name [''tmp'', ''a'', ''b'']"
    by (simp_all add: valid_name_def slash_def)
  have p: "abs_path [''tmp'', ''a'', ''b''] = ''/tmp/a/b''" by (simp add: abs_path_def slash_def)
  show ?thesis
    using makedirs_refines [OF wf_tmp_eval v]
    by (simp add: p makedirs_spec_def ancestors_def abs_path_def slash_def is_file_def
        numeral_3_eq_3 upt_rec)
qed

end
