(* ===== verification/Client.thy ===== *)
theory Client
  imports FsTree
begin

text \<open>
  The client object \<open>Ndrive\<close> of \<open>src/pyncloud/pyncloud.py\<close> (lines 60--257) and
  its error class \<open>NdriveError\<close> (lines 48--57). A method runs on the pair of the
  object and the world (\<open>cst\<close>) and may raise. Every authenticated method starts with
  \<^verbatim>\<open>if not self._useridx: self.check_status()\<close>, the lazy resolution of the internal
  user index (\<open>ensure_useridx\<close>), then sends one request carrying
  \<open>userid\<close>/\<open>useridx\<close>, decodes the JSON answer and calls \<open>_check_error\<close>; the
  methods that post a form share that shape, \<open>api_post\<close>. \<open>download\<close> also
  writes the local file system, through the \<open>os\<close> model of the theory PyOs.
  The datatype \<open>call\<close> names every public method, and \<open>run_call\<close> runs one:
  the interface the session-level properties are stated over.
\<close>

type_synonym cst = "ndrive \<times> world"

section \<open>Constants of the service\<close>

definition ndrive_host :: string where
  "ndrive_host = ''http://ndrive2.naver.com''"

definition status_url :: string where
  "status_url = ndrive_host @ ''/GetRegisterUserInfo.ndrive''"

definition getlist_url :: string where
  "getlist_url = ndrive_host @ ''/GetList.ndrive''"

definition mkdir_url :: string where
  "mkdir_url = ndrive_host @ ''/MakeDirectory.ndrive''"

definition diskspace_url :: string where
  "diskspace_url = ndrive_host @ ''/GetDiskSpace.ndrive''"

definition checkupload_url :: string where
  "checkupload_url = ndrive_host @ ''/CheckUpload.ndrive''"

definition property_url :: string where
  "property_url = ndrive_host @ ''/GetProperty.ndrive''"

definition move_url :: string where
  "move_url = ndrive_host @ ''/DoMove.ndrive''"

text \<open>\<open>NdriveError.Codes.NotExistPath\<close> and \<open>Ndrive.Types\<close>.\<close>

definition not_exist_path :: int where
  "not_exist_path = 11"

definition type_dir :: int where
  "type_dir = 1"

definition type_file :: int where
  "type_file = 2"

section \<open>The object state and its requests\<close>

definition nsend :: "server \<Rightarrow> request \<Rightarrow> (cst, string \<times> pyval option) act" where
  "nsend srv r s = (let (x, w') = send srv r (snd s) in (x, (fst s, w')))"

definition set_useridx :: "pyval \<Rightarrow> (cst, unit) act" where
  "set_useridx v s = (Inr (), (fst s\<lparr>useridx := v\<rparr>, snd s))"

definition ident :: "ndrive \<Rightarrow> (string \<times> pyval) list" where
  "ident n = [(''userid'', PStr (userid n)), (''useridx'', useridx n)]"

section \<open>\<open>_check_error\<close> and \<open>check_status\<close>\<close>

text \<open>\<open>if data['resultcode'] != 0: raise NdriveError(data['resultcode'], data['message'])\<close>\<close>

definition check_error :: "pyval \<Rightarrow> unit res" where
  "check_error data =
     rbind (getitem data ''resultcode'') (\<lambda>rc.
       if py_eq_int rc 0 then Inr ()
       else rbind (getitem data ''message'') (\<lambda>msg. Inl (NdriveError rc msg)))"

definition status_req :: "string \<Rightarrow> request" where
  "status_req uid =
     get_req status_url
       [(''userid'', PStr uid), (''svctype'', PStr ''Android NDrive App ver''), (''auto'', PInt 0)] True"

definition check_status :: "server \<Rightarrow> (cst, pyval) act" where
  "check_status srv =
     bindE (gets (userid \<circ> fst)) (\<lambda>uid.
     bindE (nsend srv (status_req uid)) (\<lambda>resp.
     bindE (lift (resp_json resp)) (\<lambda>data.
     bindE (lift (check_error data)) (\<lambda>_.
     bindE (lift (rbind (getitem data ''resultvalue'') (\<lambda>rv. getitem rv ''useridx''))) (\<lambda>idx.
     bindE (set_useridx idx) (\<lambda>_.
     lift (getitem data ''resultvalue'')))))))"

text \<open>\<open>if not self._useridx: self.check_status()\<close>\<close>

definition ensure_useridx :: "server \<Rightarrow> (cst, unit) act" where
  "ensure_useridx srv =
     bindE (gets (useridx \<circ> fst)) (\<lambda>idx.
       if truthy idx then ret () else bindE (check_status srv) (\<lambda>_. ret ()))"

text \<open>Resolve, post a form built from the object, decode, check the result code.\<close>

definition api_post :: "server \<Rightarrow> string \<Rightarrow> (ndrive \<Rightarrow> (string \<times> pyval) list) \<Rightarrow> (cst, pyval) act" where
  "api_post srv url form =
     bindE (ensure_useridx srv) (\<lambda>_.
     bindE (gets fst) (\<lambda>n.
     bindE (nsend srv (post_req url (form n))) (\<lambda>resp.
     bindE (lift (resp_json resp)) (\<lambda>data.
     bindE (lift (check_error data)) (\<lambda>_.
     ret data)))))"

section \<open>The methods\<close>

definition list_form :: "string \<Rightarrow> int \<Rightarrow> ndrive \<Rightarrow> (string \<times> pyval) list" where
  "list_form target kind n =
     [(''orgresource'', PStr target), (''type'', PInt kind), (''dept'', PInt 0),
      (''sort'', PStr ''name''), (''order'', PStr ''asc''), (''startnum'', PInt 0),
      (''pagingrow'', PInt 1000), (''dummy'', PInt 56184)] @ ident n"

text \<open>\<open>if not data['resultvalue']: return []\<close>, else \<open>[(x['href'], x) for x in ...]\<close>.\<close>

definition list_result :: "pyval \<Rightarrow> (pyval \<times> pyval) list res" where
  "list_result data =
     rbind (getitem data ''resultvalue'') (\<lambda>rv.
       if \<not> truthy rv then Inr []
       else rbind (py_iter rv) (map_res (\<lambda>x. rbind (getitem x ''href'') (\<lambda>h. Inr (h, x)))))"

definition list_kind :: "server \<Rightarrow> string \<Rightarrow> int \<Rightarrow> (cst, (pyval \<times> pyval) list) act" where
  "list_kind srv target kind =
     bindE (api_post srv getlist_url (list_form target kind)) (\<lambda>data. lift (list_result data))"

definition list_dirs :: "server \<Rightarrow> string \<Rightarrow> (cst, (pyval \<times> pyval) list) act" where
  "list_dirs srv target = list_kind srv target type_dir"

definition list_files :: "server \<Rightarrow> string \<Rightarrow> (cst, (pyval \<times> pyval) list) act" where
  "list_files srv target = list_kind srv target type_file"

definition mkdir_form :: "string \<Rightarrow> ndrive \<Rightarrow> (string \<times> pyval) list" where
  "mkdir_form target n = (''dstresource'', PStr target) # ident n @ [(''dummy'', PInt 40841)]"

definition make_dir :: "server \<Rightarrow> string \<Rightarrow> (cst, bool) act" where
  "make_dir srv target = bindE (api_post srv mkdir_url (mkdir_form target)) (\<lambda>_. ret True)"

definition get_disk_space :: "server \<Rightarrow> (cst, pyval) act" where
  "get_disk_space srv =
     bindE (api_post srv diskspace_url ident) (\<lambda>data.
       lift (rbind (getitem data ''resultvalue'') (\<lambda>rv. getitem rv ''unusedspace'')))"

text \<open>
  An open file: the bytes \<open>requests\<close> streams from it and its modification time
  (\<open>os.fstat(fp.fileno()).st_mtime\<close>).
\<close>

record fhandle =
  f_data :: string
  f_mtime :: int

text \<open>
  The name \<open>datetime\<close> of the module: \<open>from datetime import datetime\<close> (line 5)
  binds it to the class \<open>datetime.datetime\<close>, not to the module. Attribute lookup
  on the module and on the class, with the public attributes they have in Python 2.7;
  of the objects they yield, the code calls only \<open>fromtimestamp\<close>, with a timestamp,
  which gives a \<open>datetime\<close> (\<^term>\<open>PDate\<close>). Special (dunder) attributes are left out.
\<close>

datatype pyobj = DatetimeModule | DatetimeClass | DtFromtimestamp | PyAttr string

definition datetime_name :: pyobj where
  "datetime_name = DatetimeClass"

definition datetime_module_attrs :: "string list" where
  "datetime_module_attrs = [''MAXYEAR'', ''MINYEAR'', ''date'', ''datetime'', ''datetime_CAPI'', ''time'',
     ''timedelta'', ''tzinfo'']"

definition datetime_class_attrs :: "string list" where
  "datetime_class_attrs = [''astimezone'', ''combine'', ''ctime'', ''date'', ''day'', ''dst'', ''fromordinal'',
     ''fromtimestamp'', ''hour'', ''isocalendar'', ''isoformat'', ''isoweekday'', ''max'', ''microsecond'',
     ''min'', ''minute'', ''month'', ''now'', ''replace'', ''resolution'', ''second'', ''strftime'',
     ''strptime'', ''time'', ''timetuple'', ''timetz'', ''today'', ''toordinal'', ''tzinfo'', ''tzname'',
     ''utcfromtimestamp'', ''utcnow'', ''utcoffset'', ''utctimetuple'', ''weekday'', ''year'']"

fun py_getattr :: "pyobj \<Rightarrow> string \<Rightarrow> pyobj res" where
  "py_getattr DatetimeModule a =
     (if a = ''datetime'' then Inr DatetimeClass
      else if a \<in> set datetime_module_attrs then Inr (PyAttr a) else Inl AttributeError)"
| "py_getattr DatetimeClass a =
     (if a = ''fromtimestamp'' then Inr DtFromtimestamp
      else if a \<in> set datetime_class_attrs then Inr (PyAttr a) else Inl AttributeError)"
| "py_getattr _ a = Inl AttributeError"

text \<open>\<open>datetime.a1.a2...(t)\<close>: the attribute path from the name \<open>datetime\<close>, then the
  call with the timestamp.\<close>

fun getattr_path :: "pyobj \<Rightarrow> string list \<Rightarrow> pyobj res" where
  "getattr_path obj [] = Inr obj"
| "getattr_path obj (a # as) = rbind (py_getattr obj a) (\<lambda>obj'. getattr_path obj' as)"

definition datetime_call :: "string list \<Rightarrow> int \<Rightarrow> pyval res" where
  "datetime_call path t =
     rbind (getattr_path datetime_name path) (\<lambda>f. if f = DtFromtimestamp then Inr (PDate t) else Inl TypeError)"

text \<open>
  \<^verbatim>\<open>
  file_stat = os.fstat(fp.fileno())
  resp = self._s.post('http://ndrive2.naver.com/CheckUpload.ndrive', data={
      'userid': ..., 'useridx': ..., 'overwrite': 'T' if overwrite else 'F',
      'uploadsize': file_stat.st_size,
      'getlastmodified': datetime.datetime.fromtimestamp(file_stat.st_mtime),
      'dstresource': target_path})
  data = resp.json(); self._check_error(data); return True
  \<close>
  The form's values are evaluated before the request is sent.
\<close>

definition checkupload_form :: "string \<Rightarrow> fhandle \<Rightarrow> bool \<Rightarrow> pyval \<Rightarrow> ndrive \<Rightarrow> (string \<times> pyval) list" where
  "checkupload_form target fp overwrite stamp n =
     ident n @
     [(''overwrite'', tf_flag overwrite), (''uploadsize'', PInt (int (length (f_data fp)))),
      (''getlastmodified'', stamp), (''dstresource'', PStr target)]"

definition check_upload :: "server \<Rightarrow> string \<Rightarrow> fhandle \<Rightarrow> bool \<Rightarrow> (cst, bool) act" where
  "check_upload srv target fp overwrite =
     bindE (ensure_useridx srv) (\<lambda>_.
     bindE (gets fst) (\<lambda>n.
     bindE (lift (datetime_call [''datetime'', ''fromtimestamp''] (f_mtime fp))) (\<lambda>stamp.
     bindE (nsend srv (post_req checkupload_url (checkupload_form target fp overwrite stamp n))) (\<lambda>resp.
     bindE (lift (resp_json resp)) (\<lambda>data.
     bindE (lift (check_error data)) (\<lambda>_.
     ret True))))))"

definition fileinfo_form :: "string \<Rightarrow> ndrive \<Rightarrow> (string \<times> pyval) list" where
  "fileinfo_form target n = (''orgresource'', PStr target) # ident n @ [(''dummy'', PInt 56184)]"

definition get_fileinfo :: "server \<Rightarrow> string \<Rightarrow> (cst, pyval) act" where
  "get_fileinfo srv target =
     bindE (api_post srv property_url (fileinfo_form target)) (\<lambda>data. lift (getitem data ''resultvalue''))"

definition exists :: "server \<Rightarrow> string \<Rightarrow> (cst, bool) act" where
  "exists srv target =
     catchE (bindE (get_fileinfo srv target) (\<lambda>_. ret True))
       (\<lambda>e. case e of
              NdriveError code msg \<Rightarrow>
                if \<not> py_eq_int code not_exist_path then throw e else ret False
            | _ \<Rightarrow> throw e)"

text \<open>\<open>mime or 'application/octet-binary'\<close>, \<open>mime\<close> from \<open>mimetypes.guess_type\<close>.\<close>

definition content_type :: "string option \<Rightarrow> string" where
  "content_type mime =
     (case mime of None \<Rightarrow> ''application/octet-binary''
      | Some m \<Rightarrow> if m = [] then ''application/octet-binary'' else m)"

definition upload_headers :: "ndrive \<Rightarrow> pyval \<Rightarrow> string option \<Rightarrow> bool \<Rightarrow> (string \<times> pyval) list" where
  "upload_headers n stamp mime overwrite =
     ident n @
     [(''MODIFYDATE'', stamp),
      (''Content-Type'', PStr (content_type mime)),
      (''charset'', PStr ''UTF-8''),
      (''Origin'', PStr ndrive_host),
      (''OVERWRITE'', tf_flag overwrite),
      (''X-Requested-With'', PStr ''XMLHttpRequest''),
      (''NDriveSvcType'', PStr ''NHN/DRAGDROP Ver'')]"

definition upload :: "server \<Rightarrow> (string \<Rightarrow> string option) \<Rightarrow> string \<Rightarrow> fhandle \<Rightarrow> bool \<Rightarrow> (cst, bool) act" where
  "upload srv guess_type target fp overwrite =
     bindE (ensure_useridx srv) (\<lambda>_.
     bindE (gets fst) (\<lambda>n.
     bindE (lift (datetime_call [''fromtimestamp''] (f_mtime fp))) (\<lambda>stamp.
     bindE (nsend srv (put_req (ndrive_host @ target) (f_data fp)
                         (upload_headers n stamp (guess_type target) overwrite))) (\<lambda>resp.
     bindE (lift (resp_json resp)) (\<lambda>data.
     bindE (lift (check_error data)) (\<lambda>_.
     ret True))))))"

definition move_form :: "string \<Rightarrow> string \<Rightarrow> ndrive \<Rightarrow> (string \<times> pyval) list" where
  "move_form from_path to_path n =
     ident n @
     [(''orgresource'', PStr from_path), (''dstresource'', PStr to_path),
      (''overwrite'', PStr ''T''), (''bShareFireCopy'', PStr ''false''), (''dummy'', PInt 56147)]"

definition move :: "server \<Rightarrow> string \<Rightarrow> string \<Rightarrow> (cst, bool) act" where
  "move srv from_path to_path = bindE (api_post srv move_url (move_form from_path to_path)) (\<lambda>_. ret True)"

text \<open>A file-system operation run on the world of the client state.\<close>

definition fs_act :: "(fs \<Rightarrow> 'a res \<times> fs) \<Rightarrow> (cst, 'a) act" where
  "fs_act f s = (case f (w_fs (snd s)) of (r, fs') \<Rightarrow> (r, (fst s, (snd s)\<lparr>w_fs := fs'\<rparr>)))"

definition download_params :: "ndrive \<Rightarrow> (string \<times> pyval) list" where
  "download_params n =
     [(''attachment'', PInt 2)] @ ident n @ [(''NDriveSvcType'', PStr ''NHN/ND-WEB Ver'')]"

text \<open>
  \<^verbatim>\<open>
  resp = self._s.get('http://ndrive2.naver.com' + remote_path, params=..., stream=True)
  dirname = os.path.dirname(local_path)
  if not os.path.isdir(dirname) or not os.path.exists(dirname):
      os.makedirs(dirname)
  shutil.copyfileobj(resp.raw, open(local_path, 'wb+'))
  \<close>
  The answer is written as it comes: neither the HTTP status nor a \<open>resultcode\<close> is
  looked at.
\<close>

definition dl_req :: "string \<Rightarrow> ndrive \<Rightarrow> request" where
  "dl_req remote_path n = get_req (ndrive_host @ remote_path) (download_params n) True"

definition download :: "server \<Rightarrow> string \<Rightarrow> string \<Rightarrow> (cst, unit) act" where
  "download srv remote_path local_path =
     bindE (ensure_useridx srv) (\<lambda>_.
     bindE (gets fst) (\<lambda>n.
     bindE (nsend srv (dl_req remote_path n)) (\<lambda>resp.
     bindE (gets (w_fs \<circ> snd)) (\<lambda>fs.
     bindE (let d = dirname local_path in
            if \<not> path_isdir fs d \<or> \<not> path_exists fs d then fs_act (makedirs d) else ret ()) (\<lambda>_.
     fs_act (write_file local_path (fst resp)))))))"

section \<open>The public methods as one interface\<close>

datatype call =
    CheckStatus
  | ListDirs string
  | ListFiles string
  | MakeDir string
  | GetDiskSpace
  | CheckUpload string fhandle bool
  | GetFileinfo string
  | Exists string
  | Upload string fhandle bool
  | Download string string
  | Move string string

text \<open>The calls that post a form through \<open>_api_post\<close>, with the URL and the form.\<close>

fun post_call :: "call \<Rightarrow> (string \<times> (ndrive \<Rightarrow> (string \<times> pyval) list)) option" where
  "post_call (ListDirs p) = Some (getlist_url, list_form p type_dir)"
| "post_call (ListFiles p) = Some (getlist_url, list_form p type_file)"
| "post_call (MakeDir p) = Some (mkdir_url, mkdir_form p)"
| "post_call GetDiskSpace = Some (diskspace_url, ident)"
| "post_call (GetFileinfo p) = Some (property_url, fileinfo_form p)"
| "post_call (Move a b) = Some (move_url, move_form a b)"
| "post_call _ = None"

definition discard :: "('s, 'a) act \<Rightarrow> ('s, unit) act" where
  "discard m = bindE m (\<lambda>_. ret ())"

fun run_call :: "server \<Rightarrow> (string \<Rightarrow> string option) \<Rightarrow> call \<Rightarrow> (cst, unit) act" where
  "run_call srv g CheckStatus = discard (check_status srv)"
| "run_call srv g (ListDirs p) = discard (list_dirs srv p)"
| "run_call srv g (ListFiles p) = discard (list_files srv p)"
| "run_call srv g (MakeDir p) = discard (make_dir srv p)"
| "run_call srv g GetDiskSpace = discard (get_disk_space srv)"
| "run_call srv g (CheckUpload p fp ow) = discard (check_upload srv p fp ow)"
| "run_call srv g (GetFileinfo p) = discard (get_fileinfo srv p)"
| "run_call srv g (Exists p) = discard (exists srv p)"
| "run_call srv g (Upload p fp ow) = discard (upload srv g p fp ow)"
| "run_call srv g (Download r l) = download srv r l"
| "run_call srv g (Move a b) = discard (move srv a b)"

section \<open>Relations between the states before and after a call\<close>

text \<open>A status-resolution request, as \<open>check_status\<close> sends it.\<close>

definition is_status :: "request \<Rightarrow> bool" where
  "is_status r \<longleftrightarrow>
     req_method r = GET \<and> req_url r = status_url \<and>
     map_of (req_params r) ''svctype'' = Some (PStr ''Android NDrive App ver'')"

text \<open>The index a status answer yields, if \<open>check_status\<close> accepts it.\<close>

definition status_index :: "pyval \<Rightarrow> pyval res" where
  "status_index data =
     rbind (check_error data) (\<lambda>_. rbind (getitem data ''resultvalue'') (\<lambda>rv. getitem rv ''useridx''))"

text \<open>A quiet step leaves the object alone, sends no status request, and keeps the
  local file tree well formed.\<close>

definition quiet :: "cst \<Rightarrow> cst \<Rightarrow> bool" where
  "quiet s s' \<longleftrightarrow>
     fst s' = fst s \<and> (\<exists>rs. w_log (snd s') = w_log (snd s) @ rs \<and> \<not> list_ex is_status rs) \<and>
     (fs_wf (w_fs (snd s)) \<longrightarrow> fs_wf (w_fs (snd s')))"

text \<open>
  What an authenticated call does to the object and the log: the user id stays; a
  resolved index stays, and then no status request is sent; an unresolved one causes
  exactly one status request, for the object's user id.
\<close>

definition one_status :: "cst \<Rightarrow> cst \<Rightarrow> bool" where
  "one_status s s' \<longleftrightarrow>
     userid (fst s') = userid (fst s) \<and>
     (truthy (useridx (fst s)) \<longrightarrow> fst s' = fst s) \<and>
     (\<exists>rs. w_log (snd s') = w_log (snd s) @ rs \<and>
        filter is_status rs =
          (if truthy (useridx (fst s)) then [] else [status_req (userid (fst s))]))"

text \<open>A step that changes the local file system only at paths satisfying \<open>P\<close>, and
  the paths a call may write: a prefix of the local path of a download (the path
  and the directories above it); nothing for every other call.\<close>

definition fs_within :: "(string \<Rightarrow> bool) \<Rightarrow> cst \<Rightarrow> cst \<Rightarrow> bool" where
  "fs_within P s s' \<longleftrightarrow> (\<forall>q. w_fs (snd s') q \<noteq> w_fs (snd s) q \<longrightarrow> P q)"

fun call_writes :: "call \<Rightarrow> string \<Rightarrow> bool" where
  "call_writes (Download r l) q = prefix q l"
| "call_writes _ q = False"

text \<open>A service that accepts every call and resolves the user to \<open>idx\<close>.\<close>

definition drive_server :: "pyval \<Rightarrow> server" where
  "drive_server idx h r =
     (if is_status r
      then Reply [] (Some (PDict [(''resultcode'', PInt 0), (''resultvalue'', PDict [(''useridx'', idx)])]))
      else Reply [] (Some (PDict [(''resultcode'', PInt 0), (''resultvalue'', PList [])])))"

text \<open>A service that resolves the user to 7 and fails every other call with a given
  result code and message.\<close>

definition failing_server :: "int \<Rightarrow> string \<Rightarrow> server" where
  "failing_server code msg h r =
     (if is_status r
      then Reply [] (Some (PDict [(''resultcode'', PInt 0), (''resultvalue'', PDict [(''useridx'', PInt 7)])]))
      else Reply [] (Some (PDict [(''resultcode'', PInt code), (''message'', PStr msg)])))"

text \<open>A local disk with \<open>/tmp\<close>, and a service whose downloads answer \<open>v1\<close> to
  the first request and \<open>v2\<close> afterwards.\<close>

definition tmp_world :: world where
  "tmp_world = \<lparr>w_log = [], w_fs = Map.empty(''/tmp'' \<mapsto> Dir)\<rparr>"

definition file_world :: world where
  "file_world = \<lparr>w_log = [], w_fs = Map.empty(''/tmp'' \<mapsto> Dir, ''/tmp/f'' \<mapsto> File ''old'')\<rparr>"

definition versions_server :: server where
  "versions_server h r = (if length h < 1 then Reply ''v1'' None else Reply ''v2'' None)"

declare failing_server_def [eval_simps] fileinfo_form_def [eval_simps]

declare ensure_useridx_def [eval_simps] check_status_def [eval_simps] api_post_def [eval_simps]
  nsend_def [eval_simps] send_def [eval_simps] set_useridx_def [eval_simps] check_error_def [eval_simps]
  drive_server_def [eval_simps] is_status_def [eval_simps] status_req_def [eval_simps]
  get_req_def [eval_simps] post_req_def [eval_simps] put_req_def [eval_simps] new_ndrive_def [eval_simps]
  empty_world_def [eval_simps] ident_def [eval_simps] make_dir_def [eval_simps]
  get_fileinfo_def [eval_simps] exists_def [eval_simps] not_exist_path_def [eval_simps]

section \<open>Frame lemmas: what a call may change\<close>

text \<open>The class has no attribute \<open>datetime\<close>; \<open>fromtimestamp\<close> is found.\<close>

lemma datetime_datetime_fromtimestamp [simp]:
  "datetime_call [''datetime'', ''fromtimestamp''] t = Inl AttributeError"
  by (simp add: datetime_call_def datetime_name_def datetime_class_attrs_def)

lemma datetime_fromtimestamp [simp]: "datetime_call [''fromtimestamp''] t = Inr (PDate t)"
  by (simp add: datetime_call_def datetime_name_def)

lemma reflp_quiet: "reflp quiet"
  by (rule reflpI) (simp add: quiet_def)

lemma transp_quiet: "transp quiet"
  by (rule transpI) (auto simp: quiet_def)

lemma one_status_quiet: "one_status a b \<Longrightarrow> quiet b c \<Longrightarrow> one_status a c"
  by (auto simp: one_status_def quiet_def list_ex_iff filter_empty_conv)

lemma is_status_status_req: "is_status (status_req uid)"
  by (simp add: is_status_def status_req_def get_req_def)

lemma not_is_status_post [simp]: "\<not> is_status (post_req url d)"
  by (simp add: is_status_def post_req_def)

lemma not_is_status_put [simp]: "\<not> is_status (put_req url b h)"
  by (simp add: is_status_def put_req_def)

lemma not_is_status_download [simp]: "\<not> is_status (dl_req url n)"
  by (simp add: is_status_def dl_req_def get_req_def download_params_def ident_def)

lemma nsend_quiet: "\<not> is_status r \<Longrightarrow> keeps quiet (nsend srv r)"
  by (rule keepsI) (auto simp: nsend_def quiet_def send_def Let_def split: reply.splits prod.splits)

lemma fs_act_quiet:
  assumes "\<And>fs. fs_wf fs \<Longrightarrow> fs_wf (snd (f fs))"
  shows "keeps quiet (fs_act f)"
proof (rule keepsI)
  fix s x s'
  assume "fs_act f s = (x, s')"
  then show "quiet s s'" using assms [of "w_fs (snd s)"]
    by (auto simp: fs_act_def quiet_def split: prod.splits)
qed

lemmas quiet_rules = reflp_quiet transp_quiet nsend_quiet fs_act_quiet

lemma check_status_log:
  "check_status srv s = (x, s') \<Longrightarrow>
     userid (fst s') = userid (fst s) \<and> w_log (snd s') = w_log (snd s) @ [status_req (userid (fst s))] \<and>
     w_fs (snd s') = w_fs (snd s)"
  by (cases s) (auto simp: check_status_def act_simps nsend_def send_def set_useridx_def Let_def
      split: reply.splits prod.splits sum.splits)

lemma ensure_one_status: "keeps one_status (ensure_useridx srv)"
proof (rule keepsI)
  fix s x s'
  assume run: "ensure_useridx srv s = (x, s')"
  show "one_status s s'"
  proof (cases "truthy (useridx (fst s))")
    case True
    with run show ?thesis by (auto simp: ensure_useridx_def act_simps one_status_def)
  next
    case False
    obtain y s1 where cs: "check_status srv s = (y, s1)" by (meson surj_pair)
    with run False have "s' = s1"
      by (auto simp: ensure_useridx_def act_simps split: sum.splits)
    with check_status_log [OF cs] False show ?thesis
      by (auto simp: one_status_def is_status_status_req)
  qed
qed

text \<open>
  The public methods share one shape: \<open>_ensure_useridx\<close> (or \<open>check_status\<close>),
  then quiet steps. So any relation that the resolution step keeps and that quiet
  steps extend is kept by every method; \<open>one_status\<close> is one such relation.
\<close>

lemma keeps_then_quiet:
  assumes "keeps R m" and "\<And>a b c. R a b \<Longrightarrow> quiet b c \<Longrightarrow> R a c"
    and "\<And>x. keeps quiet (f x)"
  shows "keeps R (bindE m f)"
  by (rule keeps_bindE_seq [OF assms(1) assms(3) assms(2) reflp_quiet])

lemmas quiet_intros = keeps_bindE keeps_gets keeps_lift keeps_ret keeps_throw keeps_if
  nsend_quiet fs_act_quiet reflp_quiet transp_quiet

lemma api_post_keeps:
  assumes "keeps R (ensure_useridx srv)" and "\<And>a b c. R a b \<Longrightarrow> quiet b c \<Longrightarrow> R a c"
  shows "keeps R (api_post srv url form)"
  unfolding api_post_def by (intro keeps_then_quiet [OF assms] quiet_intros) simp_all

lemma list_kind_keeps:
  assumes "keeps R (ensure_useridx srv)" and "\<And>a b c. R a b \<Longrightarrow> quiet b c \<Longrightarrow> R a c"
  shows "keeps R (list_kind srv p k)"
  unfolding list_kind_def by (intro keeps_then_quiet [OF api_post_keeps [OF assms] assms(2)] quiet_intros)

lemma make_dir_keeps:
  assumes "keeps R (ensure_useridx srv)" and "\<And>a b c. R a b \<Longrightarrow> quiet b c \<Longrightarrow> R a c"
  shows "keeps R (make_dir srv p)"
  unfolding make_dir_def by (intro keeps_then_quiet [OF api_post_keeps [OF assms] assms(2)] quiet_intros)

lemma get_disk_space_keeps:
  assumes "keeps R (ensure_useridx srv)" and "\<And>a b c. R a b \<Longrightarrow> quiet b c \<Longrightarrow> R a c"
  shows "keeps R (get_disk_space srv)"
  unfolding get_disk_space_def by (intro keeps_then_quiet [OF api_post_keeps [OF assms] assms(2)] quiet_intros)

lemma get_fileinfo_keeps:
  assumes "keeps R (ensure_useridx srv)" and "\<And>a b c. R a b \<Longrightarrow> quiet b c \<Longrightarrow> R a c"
  shows "keeps R (get_fileinfo srv p)"
  unfolding get_fileinfo_def by (intro keeps_then_quiet [OF api_post_keeps [OF assms] assms(2)] quiet_intros)

lemma move_keeps:
  assumes "keeps R (ensure_useridx srv)" and "\<And>a b c. R a b \<Longrightarrow> quiet b c \<Longrightarrow> R a c"
  shows "keeps R (move srv a b)"
  unfolding move_def by (intro keeps_then_quiet [OF api_post_keeps [OF assms] assms(2)] quiet_intros)

lemma check_upload_keeps:
  assumes "keeps R (ensure_useridx srv)" and "\<And>a b c. R a b \<Longrightarrow> quiet b c \<Longrightarrow> R a c"
  shows "keeps R (check_upload srv p fp ow)"
  unfolding check_upload_def by (intro keeps_then_quiet [OF assms] quiet_intros) simp_all

lemma exists_keeps:
  assumes "keeps R (ensure_useridx srv)" and "\<And>a b c. R a b \<Longrightarrow> quiet b c \<Longrightarrow> R a c"
  shows "keeps R (exists srv p)"
  unfolding exists_def
proof (rule keeps_catchE_seq [where Q = quiet])
  show "keeps R (bindE (get_fileinfo srv p) (\<lambda>_. ret True))"
    by (intro keeps_then_quiet [OF get_fileinfo_keeps [OF assms] assms(2)] quiet_intros)
  fix e
  show "keeps quiet (case e of NdriveError code msg \<Rightarrow>
          if \<not> py_eq_int code not_exist_path then throw e else ret False | _ \<Rightarrow> throw e)"
    by (cases e) (auto intro: quiet_intros)
qed (rule assms(2))

lemma upload_keeps:
  assumes "keeps R (ensure_useridx srv)" and "\<And>a b c. R a b \<Longrightarrow> quiet b c \<Longrightarrow> R a c"
  shows "keeps R (upload srv g p fp ow)"
  unfolding upload_def by (intro keeps_then_quiet [OF assms] quiet_intros) simp_all

lemma download_keeps:
  assumes "keeps R (ensure_useridx srv)" and "\<And>a b c. R a b \<Longrightarrow> quiet b c \<Longrightarrow> R a c"
  shows "keeps R (download srv r l)"
  unfolding download_def Let_def
  by (intro keeps_then_quiet [OF assms] quiet_intros) (simp_all add: makedirs_wf write_file_wf)

lemma discard_keeps:
  "keeps R m \<Longrightarrow> (\<And>a b c. R a b \<Longrightarrow> quiet b c \<Longrightarrow> R a c) \<Longrightarrow> keeps R (discard m)"
  unfolding discard_def by (intro keeps_then_quiet quiet_intros)

text \<open>Every call but an explicit \<open>check_status\<close> starts with the resolution step.\<close>

lemma run_call_keeps:
  assumes "c \<noteq> CheckStatus" and e: "keeps R (ensure_useridx srv)"
    and q: "\<And>a b c. R a b \<Longrightarrow> quiet b c \<Longrightarrow> R a c"
  shows "keeps R (run_call srv g c)"
  using assms(1)
  by (cases c) (simp_all add: discard_keeps [OF _ q] list_dirs_def list_files_def
      list_kind_keeps [OF e q] make_dir_keeps [OF e q] get_disk_space_keeps [OF e q]
      check_upload_keeps [OF e q] get_fileinfo_keeps [OF e q] exists_keeps [OF e q]
      upload_keeps [OF e q] download_keeps [OF e q] move_keeps [OF e q])

text \<open>Where a call writes: only \<open>download\<close> touches the local file system, and only
  at its local path and the directories above it.\<close>

lemma reflp_fs_within: "reflp (fs_within P)"
  by (rule reflpI) (simp add: fs_within_def)

lemma transp_fs_within: "transp (fs_within P)"
  by (rule transpI) (metis fs_within_def)

lemma nsend_fs_within: "keeps (fs_within P) (nsend srv r)"
  by (rule keepsI) (auto simp: nsend_def send_def fs_within_def Let_def split: reply.splits)

lemma set_useridx_fs_within: "keeps (fs_within P) (set_useridx v)"
  by (rule keepsI) (auto simp: set_useridx_def fs_within_def)

lemma fs_act_within:
  assumes "\<And>fs r fs' q. f fs = (r, fs') \<Longrightarrow> fs' q \<noteq> fs q \<Longrightarrow> P q"
  shows "keeps (fs_within P) (fs_act f)"
  by (rule keepsI) (auto simp: fs_act_def fs_within_def split: prod.splits dest: assms)

lemmas within_intros = keeps_bindE keeps_catchE keeps_gets keeps_lift keeps_ret keeps_throw keeps_if
  nsend_fs_within set_useridx_fs_within reflp_fs_within transp_fs_within

lemma ensure_fs_within: "keeps (fs_within P) (ensure_useridx srv)"
  unfolding ensure_useridx_def check_status_def by (intro within_intros)

lemma api_post_fs_within: "keeps (fs_within P) (api_post srv url form)"
  unfolding api_post_def by (intro within_intros ensure_fs_within)

lemma download_fs_within: "keeps (fs_within (\<lambda>q. prefix q l)) (download srv r l)"
  unfolding download_def Let_def
  by (intro within_intros ensure_fs_within fs_act_within)
    (auto dest: makedirs_local write_file_local intro: prefix_order.trans dirname_prefix)

lemma run_call_fs_within: "keeps (fs_within (call_writes c)) (run_call srv g c)"
proof (cases c)
  case (Exists p)
  have "keeps (fs_within (\<lambda>_. False)) (exists srv p)"
    unfolding exists_def get_fileinfo_def
    by (intro within_intros api_post_fs_within) (auto split: exc.split intro: within_intros)
  moreover have "call_writes c = (\<lambda>_. False)" using Exists by (simp add: fun_eq_iff)
  ultimately show ?thesis
    using Exists by (simp add: discard_def keeps_bindE keeps_ret reflp_fs_within transp_fs_within)
next
  case (Download r l)
  moreover have "call_writes c = (\<lambda>q. prefix q l)" using Download by (simp add: fun_eq_iff)
  ultimately show ?thesis by (simp add: download_fs_within)
qed (simp_all add: discard_def list_dirs_def list_files_def list_kind_def make_dir_def get_disk_space_def
      get_fileinfo_def move_def check_upload_def upload_def check_status_def,
     (intro within_intros api_post_fs_within ensure_fs_within)+)

text \<open>
  C13 (invariant): every public method but \<open>check_status\<close> keeps the user id,
  leaves a resolved index alone, and sends a status-resolution request exactly once
  when the index is unresolved and never when it is resolved: the lazy
  initialisation of \<open>_useridx\<close> is at most once per call, whether the call
  succeeds or raises.
\<close>

theorem run_call_one_status:
  assumes "c \<noteq> CheckStatus" and "run_call srv g c s = (x, s')"
  shows "one_status s s'"
proof -
  have "keeps one_status (run_call srv g c)"
    by (rule run_call_keeps [OF assms(1) ensure_one_status one_status_quiet])
  then show ?thesis using assms(2) by (rule keepsD)
qed

theorem run_call_one_status_witness:
  "MakeDir ''/a'' \<noteq> CheckStatus \<and>
   one_status (new_ndrive ''u'', empty_world)
     (snd (run_call (drive_server (PInt 7)) (\<lambda>_. None) (MakeDir ''/a'') (new_ndrive ''u'', empty_world)))"
proof -
  have c: "MakeDir ''/a'' \<noteq> CheckStatus" by simp
  have r: "run_call (drive_server (PInt 7)) (\<lambda>_. None) (MakeDir ''/a'') (new_ndrive ''u'', empty_world) =
    (fst (run_call (drive_server (PInt 7)) (\<lambda>_. None) (MakeDir ''/a'') (new_ndrive ''u'', empty_world)),
     snd (run_call (drive_server (PInt 7)) (\<lambda>_. None) (MakeDir ''/a'') (new_ndrive ''u'', empty_world)))"
    by simp
  show ?thesis using c run_call_one_status [OF c r] by simp
qed

section \<open>Lazy resolution of the user index\<close>

text \<open>
  The spec's scenario: on a fresh client, against a service that resolves the user
  to index 7, the first \<open>make_dir\<close> sends one status request before its own
  request and the second sends none.
\<close>

theorem make_dir_twice_one_status:
  "(case make_dir (drive_server (PInt 7)) ''/a'' (new_ndrive ''u'', empty_world) of (r1, s1) \<Rightarrow>
    case make_dir (drive_server (PInt 7)) ''/b'' s1 of (r2, s2) \<Rightarrow>
      r1 = Inr True \<and> r2 = Inr True \<and>
      w_log (snd s2) =
        [status_req ''u'',
         post_req mkdir_url (mkdir_form ''/a'' \<lparr>userid = ''u'', useridx = PInt 7\<rparr>),
         post_req mkdir_url (mkdir_form ''/b'' \<lparr>userid = ''u'', useridx = PInt 7\<rparr>)])"
  by (simp add: eval_simps act_simps)

text \<open>The same with a service that resolves the user to index 0.\<close>

theorem make_dir_twice_zero_index:
  "(case make_dir (drive_server (PInt 0)) ''/a'' (new_ndrive ''u'', empty_world) of (r1, s1) \<Rightarrow>
    case make_dir (drive_server (PInt 0)) ''/b'' s1 of (r2, s2) \<Rightarrow>
      r1 = Inr True \<and> r2 = Inr True \<and>
      w_log (snd s2) =
        [status_req ''u'',
         post_req mkdir_url (mkdir_form ''/a'' \<lparr>userid = ''u'', useridx = PInt 0\<rparr>),
         status_req ''u'',
         post_req mkdir_url (mkdir_form ''/b'' \<lparr>userid = ''u'', useridx = PInt 0\<rparr>)])"
  by (simp add: eval_simps act_simps)

text \<open>\<open>check_status\<close> on a status answer with an index: the index is stored as it is,
  after one status request.\<close>

lemma check_status_answer:
  assumes "srv (w_log (snd s)) (status_req (userid (fst s))) = Reply b (Some j)"
    and "status_index j = Inr i"
  shows "\<exists>v. check_status srv s =
           (Inr v, ((fst s)\<lparr>useridx := i\<rparr>, (snd s)\<lparr>w_log := w_log (snd s) @ [status_req (userid (fst s))]\<rparr>))"
  using assms
  by (cases s) (auto simp: check_status_def act_simps nsend_def set_useridx_def resp_json_def
      status_index_def rbind_eq_Inr)

text \<open>
  C14 (functional; a divergence from the spec's "populated exactly once"): the cache
  test is Python truthiness. When the index is unset and the service resolves the
  user to a false index (such as 0), every public method but \<open>check_status\<close> sends
  the status request first and leaves the object holding that same false index, so
  the next call resolves it again: the resolution happens on every call.
\<close>

theorem falsy_index_reresolved:
  assumes "c \<noteq> CheckStatus" and "\<not> truthy (useridx (fst s))"
    and "srv (w_log (snd s)) (status_req (userid (fst s))) = Reply b (Some j)"
    and "status_index j = Inr i" and "\<not> truthy i"
    and "run_call srv g c s = (x, s')"
  shows "(\<exists>rs. w_log (snd s') = w_log (snd s) @ status_req (userid (fst s)) # rs) \<and>
         useridx (fst s') = i \<and> \<not> truthy (useridx (fst s'))"
proof -
  let ?R = "\<lambda>a a'. \<not> truthy (useridx (fst a)) \<and>
      srv (w_log (snd a)) (status_req (userid (fst a))) = Reply b (Some j) \<longrightarrow>
      (\<exists>rs. w_log (snd a') = w_log (snd a) @ status_req (userid (fst a)) # rs) \<and> useridx (fst a') = i"
  have e: "keeps ?R (ensure_useridx srv)"
  proof (rule keepsI)
    fix a y a'
    assume run: "ensure_useridx srv a = (y, a')"
    show "?R a a'"
    proof
      assume h: "\<not> truthy (useridx (fst a)) \<and>
          srv (w_log (snd a)) (status_req (userid (fst a))) = Reply b (Some j)"
      then obtain v where "check_status srv a = (Inr v, ((fst a)\<lparr>useridx := i\<rparr>,
          (snd a)\<lparr>w_log := w_log (snd a) @ [status_req (userid (fst a))]\<rparr>))"
        using check_status_answer [OF _ assms(4)] by blast
      with run h show "(\<exists>rs. w_log (snd a') = w_log (snd a) @ status_req (userid (fst a)) # rs) \<and>
          useridx (fst a') = i"
        by (auto simp: ensure_useridx_def act_simps)
    qed
  qed
  have "keeps ?R (run_call srv g c)"
    by (rule run_call_keeps [OF assms(1) e]) (fastforce simp: quiet_def)
  then have "?R s s'" using assms(6) by (rule keepsD)
  with assms(2,3,5) show ?thesis by auto
qed

theorem falsy_index_reresolved_witness:
  "(\<exists>rs. w_log (snd (snd (run_call (drive_server (PInt 0)) (\<lambda>_. None) (MakeDir ''/a'') (new_ndrive ''u'', empty_world)))) =
      w_log empty_world @ status_req ''u'' # rs) \<and>
   \<not> truthy (useridx (fst (snd (run_call (drive_server (PInt 0)) (\<lambda>_. None) (MakeDir ''/a'') (new_ndrive ''u'', empty_world)))))"
proof -
  let ?j = "PDict [(''resultcode'', PInt 0), (''resultvalue'', PDict [(''useridx'', PInt 0)])]"
  have c: "MakeDir ''/a'' \<noteq> CheckStatus" by simp
  have u: "\<not> truthy (useridx (fst (new_ndrive ''u'', empty_world)))" by (simp add: new_ndrive_def)
  have a: "drive_server (PInt 0) (w_log (snd (new_ndrive ''u'', empty_world)))
      (status_req (userid (fst (new_ndrive ''u'', empty_world)))) = Reply [] (Some ?j)"
    by (simp add: eval_simps)
  have i: "status_index ?j = Inr (PInt 0)" by (simp add: status_index_def check_error_def)
  have f: "\<not> truthy (PInt 0)" by simp
  have r: "run_call (drive_server (PInt 0)) (\<lambda>_. None) (MakeDir ''/a'') (new_ndrive ''u'', empty_world) =
    (fst (run_call (drive_server (PInt 0)) (\<lambda>_. None) (MakeDir ''/a'') (new_ndrive ''u'', empty_world)),
     snd (run_call (drive_server (PInt 0)) (\<lambda>_. None) (MakeDir ''/a'') (new_ndrive ''u'', empty_world)))"
    by simp
  show ?thesis using falsy_index_reresolved [OF c u a i f r] by (simp add: new_ndrive_def)
qed

section \<open>\<open>exists\<close>\<close>

text \<open>
  C15 (error handling): when \<open>get_fileinfo\<close> raises \<open>NdriveError\<close> with the code
  \<open>NotExistPath\<close> (11), \<open>exists\<close> returns \<open>False\<close> and keeps the state the failed
  call left.
\<close>

theorem exists_not_found:
  assumes "get_fileinfo srv p s = (Inl (NdriveError code msg), s')" and "py_eq_int code 11"
  shows "exists srv p s = (Inr False, s')"
  using assms by (simp add: exists_def act_simps not_exist_path_def)

text \<open>
  C16 (error handling): every other exception of \<open>get_fileinfo\<close>, an
  \<open>NdriveError\<close> with another code included, propagates out of \<open>exists\<close>
  unchanged.
\<close>

theorem exists_reraises:
  assumes "get_fileinfo srv p s = (Inl e, s')"
    and "\<not> (\<exists>code msg. e = NdriveError code msg \<and> py_eq_int code 11)"
  shows "exists srv p s = (Inl e, s')"
  using assms by (cases e) (simp_all add: exists_def act_simps not_exist_path_def)

theorem exists_not_found_witness:
  "get_fileinfo (failing_server 11 ''no such path'') ''/x'' (new_ndrive ''u'', empty_world) =
     (Inl (NdriveError (PInt 11) (PStr ''no such path'')),
      snd (get_fileinfo (failing_server 11 ''no such path'') ''/x'' (new_ndrive ''u'', empty_world))) \<and>
   py_eq_int (PInt 11) 11 \<and>
   exists (failing_server 11 ''no such path'') ''/x'' (new_ndrive ''u'', empty_world) =
     (Inr False, snd (get_fileinfo (failing_server 11 ''no such path'') ''/x'' (new_ndrive ''u'', empty_world)))"
proof -
  have g: "get_fileinfo (failing_server 11 ''no such path'') ''/x'' (new_ndrive ''u'', empty_world) =
     (Inl (NdriveError (PInt 11) (PStr ''no such path'')),
      snd (get_fileinfo (failing_server 11 ''no such path'') ''/x'' (new_ndrive ''u'', empty_world)))"
    by (simp add: eval_simps act_simps)
  have c: "py_eq_int (PInt 11) 11" by simp
  show ?thesis using g c exists_not_found [OF g c] by simp
qed

theorem exists_reraises_witness:
  "get_fileinfo (failing_server 99 ''quota exceeded'') ''/x'' (new_ndrive ''u'', empty_world) =
     (Inl (NdriveError (PInt 99) (PStr ''quota exceeded'')),
      snd (get_fileinfo (failing_server 99 ''quota exceeded'') ''/x'' (new_ndrive ''u'', empty_world))) \<and>
   \<not> (\<exists>code msg. NdriveError (PInt 99) (PStr ''quota exceeded'') = NdriveError code msg \<and> py_eq_int code 11) \<and>
   exists (failing_server 99 ''quota exceeded'') ''/x'' (new_ndrive ''u'', empty_world) =
     (Inl (NdriveError (PInt 99) (PStr ''quota exceeded'')),
      snd (get_fileinfo (failing_server 99 ''quota exceeded'') ''/x'' (new_ndrive ''u'', empty_world)))"
proof -
  have g: "get_fileinfo (failing_server 99 ''quota exceeded'') ''/x'' (new_ndrive ''u'', empty_world) =
     (Inl (NdriveError (PInt 99) (PStr ''quota exceeded'')),
      snd (get_fileinfo (failing_server 99 ''quota exceeded'') ''/x'' (new_ndrive ''u'', empty_world)))"
    by (simp add: eval_simps act_simps)
  have c: "\<not> (\<exists>code msg. NdriveError (PInt 99) (PStr ''quota exceeded'') = NdriveError code msg \<and>
      py_eq_int code 11)" by simp
  show ?thesis using g c exists_reraises [OF g c] by simp
qed

section \<open>Listing\<close>

text \<open>
  C17 (error; a divergence from the spec, which promises an empty list when the value
  field is absent): an answer without \<open>resultvalue\<close> makes the listing raise
  \<open>KeyError\<close>.
\<close>

theorem list_result_absent:
  assumes "map_of d ''resultvalue'' = None"
  shows "list_result (PDict d) = Inl KeyError"
  using assms by (simp add: list_result_def)

theorem list_result_absent_witness:
  "map_of [(''resultcode'', PInt 0)] ''resultvalue'' = None \<and>
   list_result (PDict [(''resultcode'', PInt 0)]) = Inl KeyError"
  using list_result_absent [of "[(''resultcode'', PInt 0)]"] by simp

text \<open>
  C18 (functional): a \<open>resultvalue\<close> that is null, empty or otherwise false lists
  as the empty sequence, not an error.
\<close>

theorem list_result_empty:
  assumes "map_of d ''resultvalue'' = Some v" and "\<not> truthy v"
  shows "list_result (PDict d) = Inr []"
  using assms by (simp add: list_result_def)

theorem list_result_empty_witness:
  "map_of [(''resultcode'', PInt 0), (''resultvalue'', PNone)] ''resultvalue'' = Some PNone \<and>
   \<not> truthy PNone \<and>
   list_result (PDict [(''resultcode'', PInt 0), (''resultvalue'', PNone)]) = Inr []"
proof -
  have a: "map_of [(''resultcode'', PInt 0), (''resultvalue'', PNone)] ''resultvalue'' = Some PNone"
    by simp
  have b: "\<not> truthy PNone" by simp
  show ?thesis using a b list_result_empty [OF a b] by simp
qed

text \<open>
  C19 (functional): a non-empty list of entries that all have an \<open>href\<close> lists as the
  pairs \<open>(href, entry)\<close>, in the service's order.
\<close>

theorem list_result_entries:
  assumes "map_of d ''resultvalue'' = Some (PList xs)" and "xs \<noteq> []"
    and "\<forall>x\<in>set xs. \<exists>h. getitem x ''href'' = Inr h"
  shows "list_result (PDict d) = Inr (map (\<lambda>x. (projr (getitem x ''href''), x)) xs)"
proof -
  have "map_res (\<lambda>x. rbind (getitem x ''href'') (\<lambda>h. Inr (h, x))) xs =
        Inr (map (\<lambda>x. projr (rbind (getitem x ''href'') (\<lambda>h. Inr (h, x)))) xs)"
    using assms(3) by (intro map_res_all_Inr) auto
  moreover have "projr (rbind (getitem x ''href'') (\<lambda>h. Inr (h, x))) = (projr (getitem x ''href''), x)"
    if "x \<in> set xs" for x
    using assms(3) that by auto
  ultimately show ?thesis using assms(1,2) by (simp add: list_result_def)
qed

theorem list_result_entries_witness:
  "list_result (PDict [(''resultvalue'', PList [PDict [(''href'', PStr ''/a'')], PDict [(''href'', PStr ''/b'')]])]) =
     Inr [(PStr ''/a'', PDict [(''href'', PStr ''/a'')]), (PStr ''/b'', PDict [(''href'', PStr ''/b'')])]"
proof -
  let ?xs = "[PDict [(''href'', PStr ''/a'')], PDict [(''href'', PStr ''/b'')]]"
  have a: "map_of [(''resultvalue'', PList ?xs)] ''resultvalue'' = Some (PList ?xs)" by simp
  have b: "?xs \<noteq> []" by simp
  have c: "\<forall>x\<in>set ?xs. \<exists>h. getitem x ''href'' = Inr h" by simp
  show ?thesis using list_result_entries [OF a b c] by simp
qed

section \<open>Uploads\<close>

text \<open>
  C20 (a bug of the code): \<open>check_upload\<close> never succeeds. The form it builds reads
  \<open>datetime.datetime.fromtimestamp\<close>, but the name \<open>datetime\<close> is the class, which
  has no attribute \<open>datetime\<close>. Whatever the service and the state, the method raises
  (\<open>AttributeError\<close> once the index is resolved), and it sends nothing beyond what the
  index resolution sends: no \<open>CheckUpload\<close> request ever leaves the client.
\<close>

theorem check_upload_never_succeeds:
  "fst (check_upload srv p fp ow s) \<noteq> Inr b \<and>
   snd (check_upload srv p fp ow s) = snd (ensure_useridx srv s)"
  by (cases "ensure_useridx srv s" rule: prod.exhaust)
     (auto simp: check_upload_def act_simps split: sum.splits)

text \<open>
  C21 (functional): with the index resolved, \<open>upload\<close> sends exactly one \<open>PUT\<close> of
  the file's bytes to the path on the service host, with the identity, the file's
  modification time, the guessed content type (\<open>application/octet-binary\<close> when
  none is guessed) and the overwrite flag as \<open>T\<close>/\<open>F\<close>; a zero result code
  gives \<open>True\<close>.
\<close>

theorem upload_resolved:
  assumes "truthy (useridx n)"
    and "srv (w_log w) (put_req (ndrive_host @ t) (f_data fp) (upload_headers n (PDate (f_mtime fp)) (g t) ow)) =
           Reply c (Some data)"
    and "check_error data = Inr ()"
  shows "upload srv g t fp ow (n, w) =
           (Inr True, (n, w\<lparr>w_log := w_log w @
              [put_req (ndrive_host @ t) (f_data fp) (upload_headers n (PDate (f_mtime fp)) (g t) ow)]\<rparr>)) \<and>
         upload_headers n (PDate (f_mtime fp)) (g t) ow =
           [(''userid'', PStr (userid n)), (''useridx'', useridx n), (''MODIFYDATE'', PDate (f_mtime fp)),
            (''Content-Type'', PStr (case g t of None \<Rightarrow> ''application/octet-binary''
                                    | Some m \<Rightarrow> if m = [] then ''application/octet-binary'' else m)),
            (''charset'', PStr ''UTF-8''), (''Origin'', PStr ''http://ndrive2.naver.com''),
            (''OVERWRITE'', PStr (if ow then ''T'' else ''F'')), (''X-Requested-With'', PStr ''XMLHttpRequest''),
            (''NDriveSvcType'', PStr ''NHN/DRAGDROP Ver'')]"
  using assms
  by (simp add: upload_def ensure_useridx_def act_simps nsend_def upload_headers_def ident_def
      content_type_def tf_flag_def ndrive_host_def)

theorem upload_resolved_witness:
  "upload (drive_server (PInt 7)) (\<lambda>_. None) ''/f.bin'' \<lparr>f_data = ''data'', f_mtime = 1400000000\<rparr> True
     (\<lparr>userid = ''u'', useridx = PInt 7\<rparr>, empty_world) =
   (Inr True, (\<lparr>userid = ''u'', useridx = PInt 7\<rparr>, empty_world\<lparr>w_log :=
      [put_req (ndrive_host @ ''/f.bin'') ''data'' (upload_headers \<lparr>userid = ''u'', useridx = PInt 7\<rparr>
        (PDate 1400000000) None True)]\<rparr>)) \<and>
   map_of (upload_headers \<lparr>userid = ''u'', useridx = PInt 7\<rparr> (PDate 1400000000) None True) ''OVERWRITE'' =
     Some (PStr ''T'')"
proof -
  let ?n = "\<lparr>userid = ''u'', useridx = PInt 7\<rparr>"
  let ?fp = "\<lparr>f_data = ''data'', f_mtime = 1400000000\<rparr>"
  let ?d = "PDict [(''resultcode'', PInt 0), (''resultvalue'', PList [])]"
  have a: "truthy (useridx ?n)" by simp
  have b: "drive_server (PInt 7) (w_log empty_world)
     (put_req (ndrive_host @ ''/f.bin'') (f_data ?fp)
        (upload_headers ?n (PDate (f_mtime ?fp)) ((\<lambda>_. None) ''/f.bin'') True)) = Reply [] (Some ?d)"
    by (simp add: drive_server_def is_status_def put_req_def empty_world_def)
  have c: "check_error ?d = Inr ()" by (simp add: check_error_def)
  show ?thesis
    using upload_resolved [where srv = "drive_server (PInt 7)" and w = empty_world, OF a b c]
    by (simp add: empty_world_def)
qed

text \<open>
  C22 (functional): with the index resolved, \<open>move\<close> posts one \<open>DoMove\<close> form,
  which always asks for overwriting (\<open>overwrite=T\<close>), and returns \<open>True\<close> on a zero
  result code.
\<close>

theorem move_forces_overwrite:
  assumes "truthy (useridx n)"
    and "srv (w_log w) (post_req move_url (move_form a b n)) = Reply c (Some data)"
    and "check_error data = Inr ()"
  shows "move srv a b (n, w) = (Inr True, (n, w\<lparr>w_log := w_log w @ [post_req move_url (move_form a b n)]\<rparr>)) \<and>
         map_of (move_form a b n) ''overwrite'' = Some (PStr ''T'')"
  using assms by (simp add: move_def api_post_def ensure_useridx_def act_simps nsend_def move_form_def ident_def)

theorem move_forces_overwrite_witness:
  "truthy (PInt 7) \<and>
   drive_server (PInt 7) [] (post_req move_url (move_form ''/a'' ''/b'' \<lparr>userid = ''u'', useridx = PInt 7\<rparr>)) =
     Reply [] (Some (PDict [(''resultcode'', PInt 0), (''resultvalue'', PList [])])) \<and>
   check_error (PDict [(''resultcode'', PInt 0), (''resultvalue'', PList [])]) = Inr () \<and>
   move (drive_server (PInt 7)) ''/a'' ''/b'' (\<lparr>userid = ''u'', useridx = PInt 7\<rparr>, empty_world) =
     (Inr True, (\<lparr>userid = ''u'', useridx = PInt 7\<rparr>, empty_world\<lparr>w_log :=
        [post_req move_url (move_form ''/a'' ''/b'' \<lparr>userid = ''u'', useridx = PInt 7\<rparr>)]\<rparr>))"
proof -
  let ?n = "\<lparr>userid = ''u'', useridx = PInt 7\<rparr>"
  let ?d = "PDict [(''resultcode'', PInt 0), (''resultvalue'', PList [])]"
  have a: "truthy (useridx ?n)" by simp
  have b: "drive_server (PInt 7) (w_log empty_world) (post_req move_url (move_form ''/a'' ''/b'' ?n)) =
     Reply [] (Some ?d)"
    by (simp add: drive_server_def is_status_def post_req_def empty_world_def)
  have c: "check_error ?d = Inr ()" by (simp add: check_error_def)
  show ?thesis
    using move_forces_overwrite [where srv = "drive_server (PInt 7)" and w = empty_world, OF a b c] a b c
    by (simp add: empty_world_def)
qed

section \<open>Downloads\<close>

lemma path_isdir_exists: "path_isdir fs p \<Longrightarrow> path_exists fs p"
  by (auto simp: path_isdir_def path_exists_def)

lemma makedirs_empty: "makedirs [] fs = (Inl (OSError ENOENT), fs)"
  by (simp add: makedirs.simps makedirs_split_def path_split_def mkdir_def)

lemmas fs_eval = makedirs.simps makedirs_split_def path_split_def mkdir_def write_file_def
  path_isdir_def path_exists_def norm_path_def rstrip_slash_def dirname_def slash_def

text \<open>
  C23 (functional; the spec asks every call to check the result code, this one does
  not): with the index resolved and the target's directory present, \<open>download\<close>
  sends one request and stores the body of the answer, whatever it is (an error
  document of the service included), as the whole content of the local file.
\<close>

theorem download_writes_body:
  assumes "truthy (useridx n)"
    and "srv (w_log w) (dl_req r n) = Reply c j"
    and "norm_path l = l" and "path_isdir (w_fs w) (dirname l)" and "\<not> path_isdir (w_fs w) l"
  shows "download srv r l (n, w) =
           (Inr (), (n, w\<lparr>w_log := w_log w @ [dl_req r n], w_fs := (w_fs w)(l \<mapsto> File c)\<rparr>))"
proof -
  have "l \<noteq> []" using assms(4) by (auto simp: dirname_def path_split_def path_isdir_def)
  then show ?thesis
    using assms path_isdir_exists [OF assms(4)]
    by (simp add: download_def ensure_useridx_def act_simps nsend_def fs_act_def write_file_def Let_def)
qed

theorem download_writes_body_witness:
  "truthy (PInt 7) \<and>
   versions_server [] (dl_req ''/remote/f.txt'' \<lparr>userid = ''u'', useridx = PInt 7\<rparr>) = Reply ''v1'' None \<and>
   norm_path ''/tmp/f.txt'' = ''/tmp/f.txt'' \<and>
   path_isdir (w_fs tmp_world) (dirname ''/tmp/f.txt'') \<and> \<not> path_isdir (w_fs tmp_world) ''/tmp/f.txt'' \<and>
   download versions_server ''/remote/f.txt'' ''/tmp/f.txt'' (\<lparr>userid = ''u'', useridx = PInt 7\<rparr>, tmp_world) =
     (Inr (), (\<lparr>userid = ''u'', useridx = PInt 7\<rparr>,
       tmp_world\<lparr>w_log := [dl_req ''/remote/f.txt'' \<lparr>userid = ''u'', useridx = PInt 7\<rparr>],
                 w_fs := (w_fs tmp_world)(''/tmp/f.txt'' \<mapsto> File ''v1'')\<rparr>))"
proof -
  let ?n = "\<lparr>userid = ''u'', useridx = PInt 7\<rparr>"
  have a: "truthy (useridx ?n)" by simp
  have b: "versions_server (w_log tmp_world) (dl_req ''/remote/f.txt'' ?n) = Reply ''v1'' None"
    by (simp add: versions_server_def tmp_world_def)
  have c: "norm_path ''/tmp/f.txt'' = ''/tmp/f.txt''" by (simp add: fs_eval)
  have d: "path_isdir (w_fs tmp_world) (dirname ''/tmp/f.txt'')" by (simp add: fs_eval tmp_world_def)
  have e: "\<not> path_isdir (w_fs tmp_world) ''/tmp/f.txt''" by (simp add: fs_eval tmp_world_def)
  show ?thesis
    using download_writes_body [where srv = versions_server and w = tmp_world, OF a b c d e] a b c d e
    by (simp add: tmp_world_def)
qed

text \<open>
  The spec's scenario: downloading \<open>/remote/f.txt\<close> to
  \<open>/tmp/newdir/f.txt\<close> creates the missing \<open>/tmp/newdir\<close>; downloading again with
  another body replaces the file's content entirely.
\<close>

theorem download_twice_scenario:
  "(case download versions_server ''/remote/f.txt'' ''/tmp/newdir/f.txt''
           (\<lparr>userid = ''u'', useridx = PInt 7\<rparr>, tmp_world) of (r1, s1) \<Rightarrow>
      w_fs (snd s1) ''/tmp/newdir'' = Some Dir \<and> w_fs (snd s1) ''/tmp/newdir/f.txt'' = Some (File ''v1'') \<and>
      (case download versions_server ''/remote/f.txt'' ''/tmp/newdir/f.txt'' s1 of (r2, s2) \<Rightarrow>
         r1 = Inr () \<and> r2 = Inr () \<and> w_fs (snd s2) ''/tmp/newdir'' = Some Dir \<and>
         w_fs (snd s2) ''/tmp/newdir/f.txt'' = Some (File ''v2'')))"
  by (simp add: download_def ensure_useridx_def act_simps nsend_def send_def fs_act_def versions_server_def
      tmp_world_def fs_eval Let_def)

text \<open>
  C24 (a bug of the code): a local path without a directory part, such as
  \<open>f.txt\<close>, has the empty \<open>dirname\<close>, which is no directory, so the code calls
  \<open>os.makedirs('')\<close>, which raises \<open>OSError(ENOENT)\<close>: the body, already fetched,
  is never written.
\<close>

theorem download_bare_filename:
  assumes "truthy (useridx n)" and "srv (w_log w) (dl_req r n) = Reply c j" and "dirname l = []"
  shows "download srv r l (n, w) = (Inl (OSError ENOENT), (n, w\<lparr>w_log := w_log w @ [dl_req r n]\<rparr>))"
  using assms
  by (simp add: download_def ensure_useridx_def act_simps nsend_def fs_act_def path_isdir_def makedirs_empty)

theorem download_bare_filename_witness:
  "truthy (PInt 7) \<and>
   versions_server [] (dl_req ''/remote/f.txt'' \<lparr>userid = ''u'', useridx = PInt 7\<rparr>) = Reply ''v1'' None \<and>
   dirname ''f.txt'' = [] \<and>
   download versions_server ''/remote/f.txt'' ''f.txt'' (\<lparr>userid = ''u'', useridx = PInt 7\<rparr>, tmp_world) =
     (Inl (OSError ENOENT), (\<lparr>userid = ''u'', useridx = PInt 7\<rparr>,
        tmp_world\<lparr>w_log := [dl_req ''/remote/f.txt'' \<lparr>userid = ''u'', useridx = PInt 7\<rparr>]\<rparr>))"
proof -
  let ?n = "\<lparr>userid = ''u'', useridx = PInt 7\<rparr>"
  have a: "truthy (useridx ?n)" by simp
  have b: "versions_server (w_log tmp_world) (dl_req ''/remote/f.txt'' ?n) = Reply ''v1'' None"
    by (simp add: versions_server_def tmp_world_def)
  have c: "dirname ''f.txt'' = []" by (simp add: fs_eval)
  show ?thesis
    using download_bare_filename [where srv = versions_server and w = tmp_world, OF a b c] a b c
    by (simp add: tmp_world_def)
qed

text \<open>
  C28 (error): when the directory part of the local path names a regular file,
  \<open>download\<close>'s guard (\<open>not isdir(d) or not exists(d)\<close>) still calls
  \<open>os.makedirs(d)\<close>. Python 2's \<open>makedirs\<close> has no \<open>exist_ok\<close>, so on a well-formed
  tree it raises \<open>OSError(EEXIST)\<close>. The body has been fetched by then, and nothing
  is written.
\<close>

theorem download_dir_is_file:
  assumes "truthy (useridx n)" and "srv (w_log w) (dl_req r n) = Reply c j"
    and "fs_wf (w_fs w)" and "w_fs w (dirname l) = Some (File x)"
  shows "download srv r l (n, w) = (Inl (OSError EEXIST), (n, w\<lparr>w_log := w_log w @ [dl_req r n]\<rparr>))"
proof -
  have "norm_path (dirname l) = dirname l" "dirname l \<noteq> []" "dirname l \<noteq> [slash]"
    using assms(3,4) unfolding fs_wf_def by blast+
  then have "\<not> path_isdir (w_fs w) (dirname l)" using assms(4) by (simp add: path_isdir_def)
  then show ?thesis
    using assms makedirs_exists [OF assms(3), of "dirname l"]
    by (simp add: download_def ensure_useridx_def act_simps nsend_def fs_act_def)
qed

theorem download_dir_is_file_witness:
  "download versions_server ''/remote/f.txt'' ''/tmp/f/out.txt'' (\<lparr>userid = ''u'', useridx = PInt 7\<rparr>, file_world) =
     (Inl (OSError EEXIST), (\<lparr>userid = ''u'', useridx = PInt 7\<rparr>,
        file_world\<lparr>w_log := [dl_req ''/remote/f.txt'' \<lparr>userid = ''u'', useridx = PInt 7\<rparr>]\<rparr>))"
proof -
  let ?n = "\<lparr>userid = ''u'', useridx = PInt 7\<rparr>"
  have a: "truthy (useridx ?n)" by simp
  have b: "versions_server (w_log file_world) (dl_req ''/remote/f.txt'' ?n) = Reply ''v1'' None"
    by (simp add: versions_server_def file_world_def)
  have c: "fs_wf (w_fs file_world)"
    by (simp add: file_world_def fs_wf_def norm_path_def rstrip_slash_def dirname_def path_split_def
        slash_def path_isdir_def)
  have d: "w_fs file_world (dirname ''/tmp/f/out.txt'') = Some (File ''old'')"
    by (simp add: file_world_def fs_eval)
  show ?thesis
    using download_dir_is_file [where srv = versions_server and w = file_world, OF a b c d]
    by (simp add: file_world_def)
qed

lemma api_post_error:
  assumes "truthy (useridx n)" and "srv (w_log w) (post_req url (form n)) = Reply b (Some (PDict d))"
    and "map_of d ''resultcode'' = Some rc" and "\<not> py_eq_int rc 0" and "map_of d ''message'' = Some msg"
  shows "api_post srv url form (n, w) =
           (Inl (NdriveError rc msg), (n, w\<lparr>w_log := w_log w @ [post_req url (form n)]\<rparr>))"
  using assms
  by (simp add: api_post_def ensure_useridx_def act_simps nsend_def resp_json_def check_error_def)

text \<open>
  C30 (error): every call that posts a form (listing, \<open>make_dir\<close>,
  \<open>get_disk_space\<close>, \<open>get_fileinfo\<close>, \<open>move\<close>) raises
  \<open>NdriveError(resultcode, message)\<close> when the service answers a non-zero result
  code. It sends exactly that one request when the index is resolved, and leaves
  the object unchanged.
\<close>

theorem run_call_service_error:
  assumes "post_call c = Some (url, form)" and "truthy (useridx n)"
    and "srv (w_log w) (post_req url (form n)) = Reply b (Some (PDict d))"
    and "map_of d ''resultcode'' = Some rc" and "\<not> py_eq_int rc 0" and "map_of d ''message'' = Some msg"
  shows "run_call srv g c (n, w) =
           (Inl (NdriveError rc msg), (n, w\<lparr>w_log := w_log w @ [post_req url (form n)]\<rparr>))"
proof -
  have e: "api_post srv url form (n, w) =
      (Inl (NdriveError rc msg), (n, w\<lparr>w_log := w_log w @ [post_req url (form n)]\<rparr>))"
    using api_post_error [where srv = srv and w = w and form = form, OF assms(2-6)] .
  show ?thesis
    using assms(1) e
    by (cases c) (auto simp: discard_def list_dirs_def list_files_def list_kind_def make_dir_def
        get_disk_space_def get_fileinfo_def move_def act_simps)
qed

theorem run_call_service_error_witness:
  "run_call (failing_server 5 ''denied'') (\<lambda>_. None) (Move ''/a'' ''/b'')
     (\<lparr>userid = ''u'', useridx = PInt 7\<rparr>, empty_world) =
   (Inl (NdriveError (PInt 5) (PStr ''denied'')),
    (\<lparr>userid = ''u'', useridx = PInt 7\<rparr>,
     empty_world\<lparr>w_log := [post_req move_url (move_form ''/a'' ''/b'' \<lparr>userid = ''u'', useridx = PInt 7\<rparr>)]\<rparr>))"
proof -
  let ?n = "\<lparr>userid = ''u'', useridx = PInt 7\<rparr>"
  have p: "post_call (Move ''/a'' ''/b'') = Some (move_url, move_form ''/a'' ''/b'')" by simp
  have t: "truthy (useridx ?n)" by simp
  have s: "failing_server 5 ''denied'' (w_log empty_world) (post_req move_url (move_form ''/a'' ''/b'' ?n)) =
      Reply [] (Some (PDict [(''resultcode'', PInt 5), (''message'', PStr ''denied'')]))"
    by (simp add: failing_server_def)
  have r: "map_of [(''resultcode'', PInt 5), (''message'', PStr ''denied'')] ''resultcode'' = Some (PInt 5)"
    and z: "\<not> py_eq_int (PInt 5) 0"
    and m: "map_of [(''resultcode'', PInt 5), (''message'', PStr ''denied'')] ''message'' = Some (PStr ''denied'')"
    by simp_all
  show ?thesis
    using run_call_service_error [where srv = "failing_server 5 ''denied''" and w = empty_world
        and form = "move_form ''/a'' ''/b''" and g = "\<lambda>_. None", OF p t s r z m]
    by (simp add: empty_world_def)
qed

end
