(* ===== verification/Packaging.thy ===== *)
theory Packaging
  imports Prelude
begin

text \<open>
  Packaging: \<open>src/setup.py\<close> calls \<open>distutils.core.setup\<close> with keyword arguments,
  and \<open>pyncloud.py\<close> imports its modules. The keyword arguments are an association
  list of Python values, in the order of the source. \<open>distutils_setup\<close> is how
  Python 2.7's \<open>Distribution.__init__\<close> consumes them: a keyword that names a
  metadata field or a \<open>Distribution\<close> attribute is kept; any other keyword triggers
  the warning \<open>Unknown distribution option: 'key'\<close> and is dropped. The list of
  known names is distutils' own, so it is modelled from the library.
\<close>

text \<open>\<open>import\<close> and \<open>from ... import\<close> lines of \<open>pyncloud.py\<close>: the top-level modules.\<close>

definition pyncloud_imports :: "string list" where
  "pyncloud_imports = [''mimetypes'', ''os'', ''re'', ''shutil'', ''datetime'', ''rsa'', ''requests'']"

text \<open>The keyword arguments of the \<open>setup(...)\<close> call.\<close>

definition setup_kwargs :: "(string \<times> pyval) list" where
  "setup_kwargs =
     [(''name'', PStr ''pyncloud''),
      (''packages'', PList [PStr ''pyncloud'']),
      (''version'', PStr ''0.0.3''),
      (''description'', PStr ''Simple python library for Naver Cloud (https://cloud.naver.com).''),
      (''long_description'', PStr ''WIP''),
      (''license'', PStr ''MIT License''),
      (''author'', PStr ''Sl Kim''),
      (''author_email'', PStr ''sl@lxf.kr''),
      (''url'', PStr ''https://github.com/lexifdev/pyncloud''),
      (''classifiers'', PList [PStr ''Development Status :: 2 - Pre-Alpha'',
                               PStr ''License :: OSI Approved :: MIT License'']),
      (''install_requires'', PList [PStr ''rsa'', PStr ''requests''])]"

text \<open>\<open>DistributionMetadata\<close>'s fields and the attributes \<open>Distribution.__init__\<close>
  sets, in Python 2.7.\<close>

definition distribution_options :: "string list" where
  "distribution_options =
     [''name'', ''version'', ''author'', ''author_email'', ''maintainer'', ''maintainer_email'',
      ''url'', ''license'', ''description'', ''long_description'', ''keywords'', ''platforms'',
      ''classifiers'', ''download_url'', ''provides'', ''requires'', ''obsoletes'',
      ''verbose'', ''dry_run'', ''help'', ''cmdclass'', ''command_packages'', ''script_name'',
      ''script_args'', ''command_options'', ''dist_files'', ''packages'', ''package_data'',
      ''package_dir'', ''py_modules'', ''libraries'', ''headers'', ''ext_modules'', ''ext_package'',
      ''include_dirs'', ''extra_path'', ''scripts'', ''data_files'', ''password'', ''options'']"

definition unknown_option_warning :: "string \<Rightarrow> string" where
  "unknown_option_warning k = ''Unknown distribution option: '' @ [CHR 0x27] @ k @ [CHR 0x27]"

text \<open>The options \<open>Distribution\<close> keeps, and the warnings it emits.\<close>

definition distutils_setup :: "(string \<times> pyval) list \<Rightarrow> (string \<times> pyval) list \<times> string list" where
  "distutils_setup kw =
     (filter (\<lambda>(k, v). k \<in> set distribution_options) kw,
      map unknown_option_warning (filter (\<lambda>k. k \<notin> set distribution_options) (map fst kw)))"

text \<open>The requirement names a keyword list declares with \<open>install_requires\<close>.\<close>

definition declared_requires :: "(string \<times> pyval) list \<Rightarrow> string list" where
  "declared_requires kw =
     (case map_of kw ''install_requires'' of
        Some (PList xs) \<Rightarrow> concat (map (\<lambda>x. case x of PStr s \<Rightarrow> [s] | _ \<Rightarrow> []) xs)
      | _ \<Rightarrow> [])"

text \<open>
  \<open>setup.py\<close> declares the two third-party modules \<open>pyncloud.py\<close>
  imports, \<open>rsa\<close> and \<open>requests\<close>, only through \<open>install_requires\<close>. Plain distutils
  does not know that option. It warns and drops it, and keeps every other keyword, so
  the distribution it builds declares no dependency at all.
\<close>

theorem setup_requires_dropped:
  "declared_requires setup_kwargs = [''rsa'', ''requests''] \<and>
   set (declared_requires setup_kwargs) \<subseteq> set pyncloud_imports \<and>
   declared_requires (fst (distutils_setup setup_kwargs)) = [] \<and>
   snd (distutils_setup setup_kwargs) = [unknown_option_warning ''install_requires''] \<and>
   map fst (fst (distutils_setup setup_kwargs)) = butlast (map fst setup_kwargs)"
  by (simp add: declared_requires_def setup_kwargs_def pyncloud_imports_def distutils_setup_def
      distribution_options_def)

end
