(* ===== verification/MimeTypes.thy ===== *)
theory MimeTypes
  imports Prelude
begin

text \<open>
  \<open>mimetypes.guess_type\<close>, which \<open>Ndrive.upload\<close> calls on the remote path to fill
  the \<open>Content-Type\<close> header. It is a library function (Python 2.7
  \<open>MimeTypes.guess_type\<close> with \<open>strict=True\<close>), modelled from its source:
  \<^item> \<open>urllib.splittype\<close> and the \<open>data:\<close> URL branch;
  \<^item> \<open>posixpath.splitext\<close>: the extension starts at the last dot of the last path
    component, leading dots of the component not counting;
  \<^item> the loop \<open>while ext in suffix_map: base, ext = splitext(base + suffix_map[ext])\<close>,
    a \<open>partial_function (option)\<close>, because nothing in the library bounds it
    (\<open>suffix_map\<close> is a public, modifiable dictionary);
  \<^item> the encodings and the types lookup, exact case first, then lower case.
  The tables are a parameter (\<open>mime_tables\<close>): at run time they are the module's
  defaults extended by the system's \<open>mime.types\<close> files. \<open>default_tables\<close> holds the
  library's suffix and encodings maps and a part of its types map.
\<close>

record mime_tables =
  suffix_map :: "(string \<times> string) list"
  encodings_map :: "(string \<times> string) list"
  types_map :: "(string \<times> string) list"

definition lower_ascii :: "char \<Rightarrow> char" where
  "lower_ascii c = (if 65 \<le> (of_char c :: nat) \<and> (of_char c :: nat) \<le> 90 then char_of (of_char c + (32::nat)) else c)"

definition split_type :: "string \<Rightarrow> string option \<times> string" where
  "split_type url =
     (let s = takeWhile (\<lambda>c. c \<noteq> CHR ''/'' \<and> c \<noteq> CHR '':'') url;
          r = drop (length s) url
      in if s \<noteq> [] \<and> r \<noteq> [] \<and> hd r = CHR '':'' then (Some (map lower_ascii s), tl r) else (None, url))"

definition data_type :: "string \<Rightarrow> string option \<times> string option" where
  "data_type url =
     (if CHR '','' \<notin> set url then (None, None)
      else (let pre = takeWhile (\<lambda>c. c \<noteq> CHR '','') url;
                ty = takeWhile (\<lambda>c. c \<noteq> CHR '';'') pre
            in (Some (if CHR ''='' \<in> set ty \<or> CHR ''/'' \<notin> set ty then ''text/plain'' else ty), None)))"

definition splitext :: "string \<Rightarrow> string \<times> string" where
  "splitext p =
     (let name = rev (takeWhile (\<lambda>c. c \<noteq> CHR ''/'') (rev p));
          stem = dropWhile (\<lambda>c. c = CHR ''.'') name;
          e = rev (takeWhile (\<lambda>c. c \<noteq> CHR ''.'') (rev stem));
          k = length p - length e - 1
      in if CHR ''.'' \<in> set stem then (take k p, drop k p) else (p, []))"

partial_function (option) suffix_loop ::
  "(string \<times> string) list \<Rightarrow> string \<Rightarrow> string \<Rightarrow> (string \<times> string) option" where
  "suffix_loop sm base ext =
     (case map_of sm ext of
        None \<Rightarrow> Some (base, ext)
      | Some s \<Rightarrow> (case splitext (base @ s) of (b, e) \<Rightarrow> suffix_loop sm b e))"

definition guess_type :: "mime_tables \<Rightarrow> string \<Rightarrow> (string option \<times> string option) option" where
  "guess_type t url0 =
     (case split_type url0 of (scheme, url) \<Rightarrow>
        if scheme = Some ''data'' then Some (data_type url)
        else (case splitext url of (base0, ext0) \<Rightarrow>
          map_option (\<lambda>(base, ext).
              let (enc, ext') = (case map_of (encodings_map t) ext of
                                   Some e \<Rightarrow> (Some e, snd (splitext base))
                                 | None \<Rightarrow> (None, ext))
              in (case map_of (types_map t) ext' of
                    Some ty \<Rightarrow> (Some ty, enc)
                  | None \<Rightarrow> (map_of (types_map t) (map lower_ascii ext'), enc)))
            (suffix_loop (suffix_map t) base0 ext0)))"

text \<open>\<open>mime = mimetypes.guess_type(target_path)[0]\<close> in \<open>Ndrive.upload\<close>; \<open>None\<close> is a
  call that does not return.\<close>

definition upload_mime :: "mime_tables \<Rightarrow> string \<Rightarrow> string option option" where
  "upload_mime t target_path = map_option fst (guess_type t target_path)"

text \<open>Python 2.7's \<open>suffix_map\<close> and \<open>encodings_map\<close>, and eight entries of its
  \<open>types_map\<close>.\<close>

definition default_tables :: mime_tables where
  "default_tables =
     \<lparr>suffix_map = [(''.tgz'', ''.tar.gz''), (''.taz'', ''.tar.gz''), (''.tz'', ''.tar.gz''),
                    (''.tbz2'', ''.tar.bz2''), (''.txz'', ''.tar.xz'')],
      encodings_map = [(''.gz'', ''gzip''), (''.Z'', ''compress''), (''.bz2'', ''bzip2''), (''.xz'', ''xz'')],
      types_map = [(''.tar'', ''application/x-tar''), (''.txt'', ''text/plain''), (''.html'', ''text/html''),
                   (''.jpg'', ''image/jpeg''), (''.png'', ''image/png''), (''.pdf'', ''application/pdf''),
                   (''.zip'', ''application/zip''), (''.json'', ''application/json'')]\<rparr>"

lemma dropWhile_dot_suffix:
  assumes "\<exists>c\<in>set pre. c \<noteq> CHR ''.''"
  shows "\<exists>S. dropWhile (\<lambda>c. c = CHR ''.'') (nb @ pre @ CHR ''.'' # e) = S @ CHR ''.'' # e"
proof (cases "\<forall>x\<in>set nb. x = CHR ''.''")
  case True
  then have "dropWhile (\<lambda>c. c = CHR ''.'') (nb @ pre @ CHR ''.'' # e) =
      dropWhile (\<lambda>c. c = CHR ''.'') (pre @ CHR ''.'' # e)" by (simp add: dropWhile_append2)
  also have "\<dots> = dropWhile (\<lambda>c. c = CHR ''.'') pre @ CHR ''.'' # e"
    using assms by (auto simp: dropWhile_append1)
  finally show ?thesis by blast
next
  case False
  then show ?thesis by (auto simp: dropWhile_append1)
qed

lemma splitext_append:
  assumes "CHR ''/'' \<notin> set pre" and "CHR ''/'' \<notin> set e" and "CHR ''.'' \<notin> set e"
    and "\<exists>c\<in>set pre. c \<noteq> CHR ''.''"
  shows "splitext (b @ pre @ CHR ''.'' # e) = (b @ pre, CHR ''.'' # e)"
proof -
  let ?nb = "rev (takeWhile (\<lambda>c. c \<noteq> CHR ''/'') (rev b))"
  have name: "rev (takeWhile (\<lambda>c. c \<noteq> CHR ''/'') (rev (b @ pre @ CHR ''.'' # e))) =
      ?nb @ pre @ CHR ''.'' # e"
  proof -
    have "takeWhile (\<lambda>c. c \<noteq> CHR ''/'') (rev (pre @ CHR ''.'' # e) @ rev b) =
        rev (pre @ CHR ''.'' # e) @ takeWhile (\<lambda>c. c \<noteq> CHR ''/'') (rev b)"
      by (rule takeWhile_append2) (use assms(1,2) in auto)
    then show ?thesis by simp
  qed
  obtain S where S: "dropWhile (\<lambda>c. c = CHR ''.'') (?nb @ pre @ CHR ''.'' # e) = S @ CHR ''.'' # e"
    using dropWhile_dot_suffix [OF assms(4)] by blast
  have e: "rev (takeWhile (\<lambda>c. c \<noteq> CHR ''.'') (rev (S @ CHR ''.'' # e))) = e"
  proof -
    have "takeWhile (\<lambda>c. c \<noteq> CHR ''.'') (rev e @ CHR ''.'' # rev S) =
        rev e @ takeWhile (\<lambda>c. c \<noteq> CHR ''.'') (CHR ''.'' # rev S)"
      by (rule takeWhile_append2) (use assms(3) in auto)
    then show ?thesis by simp
  qed
  show ?thesis using name S e by (simp add: splitext_def Let_def)
qed

text \<open>The loop leaves a base and an extension no rule rewrites.\<close>

lemma suffix_loop_one_step:
  assumes "\<forall>(k, v)\<in>set sm. \<forall>b. map_of sm (snd (splitext (b @ v))) = None"
  shows "\<exists>r. suffix_loop sm base ext = Some r"
proof (cases "map_of sm ext")
  case None
  then show ?thesis by (simp add: suffix_loop.simps)
next
  case (Some v)
  then have "(ext, v) \<in> set sm" by (rule map_of_SomeD)
  with assms have "map_of sm (snd (splitext (base @ v))) = None" by blast
  with Some show ?thesis
    by (cases "splitext (base @ v)") (simp add: suffix_loop.simps)
qed

lemma guess_type_returns:
  assumes "\<forall>(k, v)\<in>set (suffix_map t). \<forall>b. map_of (suffix_map t) (snd (splitext (b @ v))) = None"
  shows "\<exists>r. guess_type t url = Some r"
proof -
  obtain scheme u where st: "split_type url = (scheme, u)" by fastforce
  obtain b0 e0 where se: "splitext u = (b0, e0)" by fastforce
  obtain r where "suffix_loop (suffix_map t) b0 e0 = Some r"
    using suffix_loop_one_step [OF assms] by blast
  then show ?thesis using st se by (simp add: guess_type_def)
qed

lemma suffix_loop_avoids:
  assumes "map_of sm e = Some v" and "\<forall>b. snd (splitext (b @ v)) = e"
    and "suffix_loop sm base ext = Some r"
  shows "ext \<noteq> e"
proof (rule suffix_loop.raw_induct [where P = "\<lambda>sm' base ext r. sm' = sm \<longrightarrow> ext \<noteq> e", OF _ assms(3), simplified])
  fix f :: "(string \<times> string) list \<Rightarrow> string \<Rightarrow> string \<Rightarrow> (string \<times> string) option"
    and sm' base ext r
  assume IH: "\<And>sm' base ext r. f sm' base ext = Some r \<Longrightarrow> sm' = sm \<longrightarrow> ext \<noteq> e"
    and eq: "(case map_of sm' ext of None \<Rightarrow> Some (base, ext)
             | Some s \<Rightarrow> (case splitext (base @ s) of (b, e) \<Rightarrow> f sm' b e)) = Some r"
  show "sm' = sm \<longrightarrow> ext \<noteq> e"
  proof (intro impI notI)
    assume "sm' = sm" and "ext = e"
    with eq assms(1) have "f sm (fst (splitext (base @ v))) (snd (splitext (base @ v))) = Some r"
      by (simp split: prod.splits)
    with IH have "snd (splitext (base @ v)) \<noteq> e" by blast
    with assms(2) show False by blast
  qed
qed

lemma guess_type_diverges:
  assumes "map_of (suffix_map t) e = Some v" and "\<forall>b. snd (splitext (b @ v)) = e"
    and "split_type url = (scheme, u)" and "scheme \<noteq> Some ''data''" and "snd (splitext u) = e"
  shows "guess_type t url = None"
proof -
  have "suffix_loop (suffix_map t) (fst (splitext u)) e = None"
    using suffix_loop_avoids [OF assms(1,2)] by (cases "suffix_loop (suffix_map t) (fst (splitext u)) e") auto
  then show ?thesis using assms(3-5) by (cases "splitext u") (simp add: guess_type_def)
qed

lemma default_suffix_one_step:
  "\<forall>(k, v)\<in>set (suffix_map default_tables). \<forall>b. map_of (suffix_map default_tables) (snd (splitext (b @ v))) = None"
proof -
  have "\<And>b. splitext (b @ ''.tar.gz'') = (b @ ''.tar'', ''.gz'')"
    "\<And>b. splitext (b @ ''.tar.bz2'') = (b @ ''.tar'', ''.bz2'')"
    "\<And>b. splitext (b @ ''.tar.xz'') = (b @ ''.tar'', ''.xz'')"
    using splitext_append [of "''.tar''" "''gz''"] splitext_append [of "''.tar''" "''bz2''"]
      splitext_append [of "''.tar''" "''xz''"] by simp_all
  then show ?thesis by (simp add: default_tables_def)
qed

text \<open>
  C31 (termination): the MIME step of \<open>upload\<close> returns, whatever the path, whenever
  no extension that \<open>suffix_map\<close> rewrites to is again a key of \<open>suffix_map\<close>.
  This is the case for Python's default map, whose values end in \<open>.gz\<close>, \<open>.bz2\<close>
  or \<open>.xz\<close>.
\<close>

theorem upload_mime_returns:
  assumes "\<forall>(k, v)\<in>set (suffix_map t). \<forall>b. map_of (suffix_map t) (snd (splitext (b @ v))) = None"
  shows "\<exists>m. upload_mime t target_path = Some m"
  using guess_type_returns [OF assms, of target_path] by (auto simp: upload_mime_def)

theorem upload_mime_returns_witness:
  "\<exists>m. upload_mime default_tables ''/docs/a.tgz'' = Some m"
  using upload_mime_returns [OF default_suffix_one_step] .

text \<open>
  With a suffix rule whose replacement ends in its own key (a
  modified \<open>suffix_map\<close>), the MIME step of \<open>upload\<close> never returns on a path with
  that extension. \<open>upload\<close> then hangs after resolving the index and before
  sending its request.
\<close>

theorem upload_mime_diverges:
  assumes "map_of (suffix_map t) e = Some v" and "\<forall>b. snd (splitext (b @ v)) = e"
    and "split_type target_path = (scheme, u)" and "scheme \<noteq> Some ''data''" and "snd (splitext u) = e"
  shows "upload_mime t target_path = None"
  using guess_type_diverges [OF assms] by (simp add: upload_mime_def)

theorem upload_mime_diverges_witness:
  "upload_mime (default_tables\<lparr>suffix_map := [(''.x'', ''.y.x'')]\<rparr>) ''/f.x'' = None"
proof -
  let ?t = "default_tables\<lparr>suffix_map := [(''.x'', ''.y.x'')]\<rparr>"
  have m: "map_of (suffix_map ?t) ''.x'' = Some ''.y.x''" by simp
  have l: "\<forall>b. snd (splitext (b @ ''.y.x'')) = ''.x''"
    using splitext_append [of "''.y''" "''x''"] by simp
  have st: "split_type ''/f.x'' = (None, ''/f.x'')" by (simp add: split_type_def)
  have d: "(None :: string option) \<noteq> Some ''data''" by simp
  have e: "snd (splitext ''/f.x'') = ''.x''" by (simp add: splitext_def)
  show ?thesis using upload_mime_diverges [OF m l st d e] .
qed

end
