(* ===== verification/Cookies.thy ===== *)
theory Cookies
  imports Client Handshake MimeTypes
begin

text \<open>
  The cookie jar of \<open>requests.Session\<close>. \<open>get_ndrive\<close> fetches the key with
  \<open>requests.get\<close>, which runs in a throwaway session with an empty jar, and sends
  everything after it through one \<open>requests.Session()\<close>, whose
  \<open>RequestsCookieJar\<close> is a Python 2.7 \<open>cookielib.CookieJar\<close> under the
  \<open>DefaultCookiePolicy\<close>. Before each request the session adds a \<open>Cookie\<close> header
  with the jar's cookies the policy lets through (\<open>return_ok\<close>); after each answer it
  stores the answer's \<open>Set-Cookie\<close> cookies the policy accepts (\<open>set_ok\<close>,
  \<open>CookieJar.set_cookie\<close>, which replaces a cookie of the same domain, path and name).

  A \<open>backend\<close> is a service that also sees the cookies of each request and also sets
  cookies; \<open>jar_server\<close> turns it into a \<^typ>\<open>server\<close> of the transport model by
  replaying the session's jar from the request log, so every theorem stated for all
  servers holds for a cookie-carrying service. Netscape (version 0) cookies with
  path \<open>/\<close> and no expiry are modelled; paths, expiry, ports and the policy's
  blocking lists are not.
\<close>

record cookie =
  ck_name :: string
  ck_value :: string
  ck_domain :: string
  ck_secure :: bool

text \<open>A \<open>Set-Cookie\<close> header: name, value, the \<open>Domain\<close> attribute if any, \<open>Secure\<close>.\<close>

record set_cookie =
  sc_name :: string
  sc_value :: string
  sc_domain :: "string option"
  sc_secure :: bool

type_synonym jar = "cookie list"

text \<open>The history, the request's \<open>(name, value)\<close> cookies, and the request; the
  answer and the cookies it sets.\<close>

type_synonym backend =
  "request list \<Rightarrow> (string \<times> string) list \<Rightarrow> request \<Rightarrow> reply \<times> set_cookie list"

section \<open>Request host and scheme\<close>

text \<open>\<open>urlparse\<close>: the scheme before the first colon; the host of the \<open>//\<close> network
  location, up to a port, path, query or fragment; \<open>cookielib.request_host\<close>
  lower-cases it.\<close>

definition url_scheme :: "string \<Rightarrow> string" where
  "url_scheme u = map lower_ascii (takeWhile (\<lambda>c. c \<noteq> CHR '':'') u)"

definition url_host :: "string \<Rightarrow> string" where
  "url_host u =
     (let rest = drop (Suc (length (takeWhile (\<lambda>c. c \<noteq> CHR '':'') u))) u in
      if take 2 rest = ''//''
      then map lower_ascii (takeWhile (\<lambda>c. c \<notin> set '':/?#'') (drop 2 rest))
      else [])"

text \<open>\<open>eff_request_host\<close>: a host name without a dot gets \<open>.local\<close>.\<close>

definition eff_host :: "string \<Rightarrow> string" where
  "eff_host h = (if CHR ''.'' \<in> set h then h else h @ ''.local'')"

definition req_erhn :: "request \<Rightarrow> string" where
  "req_erhn r = eff_host (url_host (req_url r))"

definition ends_with :: "string \<Rightarrow> string \<Rightarrow> bool" where
  "ends_with s t \<longleftrightarrow> length t \<le> length s \<and> drop (length s - length t) s = t"

section \<open>The policy\<close>

text \<open>\<open>return_ok_domain\<close> and \<open>return_ok_secure\<close>: the cookie's domain, with a leading
  dot added when it has none, ends \<open>"." + erhn\<close>; a secure cookie goes only over
  \<open>https\<close>.\<close>

definition dotted :: "string \<Rightarrow> string" where
  "dotted d = (if d = [] \<or> hd d = CHR ''.'' then d else CHR ''.'' # d)"

definition return_ok :: "string \<Rightarrow> string \<Rightarrow> cookie \<Rightarrow> bool" where
  "return_ok scheme erhn c \<longleftrightarrow>
     ends_with (CHR ''.'' # erhn) (dotted (ck_domain c)) \<and> (ck_secure c \<longrightarrow> scheme = ''https'')"

definition sent_cookies :: "request \<Rightarrow> jar \<Rightarrow> (string \<times> string) list" where
  "sent_cookies r j =
     map (\<lambda>c. (ck_name c, ck_value c))
       (filter (return_ok (url_scheme (req_url r)) (req_erhn r)) j)"

text \<open>\<open>_cookie_from_cookie_tuple\<close> and \<open>set_ok_domain\<close>: without a \<open>Domain\<close>
  attribute the cookie belongs to the request host; a \<open>Domain\<close> is lower-cased and
  dotted, must hold an embedded dot (or be \<open>.local\<close>) and must domain-match the
  request host, or the cookie is refused.\<close>

definition dot_prefix :: "string \<Rightarrow> string" where
  "dot_prefix d = (if take 1 d = ''.'' then d else CHR ''.'' # d)"

definition make_cookie :: "string \<Rightarrow> set_cookie \<Rightarrow> cookie option" where
  "make_cookie erhn sc =
     (case sc_domain sc of
        None \<Rightarrow> Some \<lparr>ck_name = sc_name sc, ck_value = sc_value sc, ck_domain = erhn,
                      ck_secure = sc_secure sc\<rparr>
      | Some d0 \<Rightarrow>
          (let d = dot_prefix (map lower_ascii d0) in
           if (CHR ''.'' \<in> set (tl d) \<or> d = ''.local'') \<and> ends_with (CHR ''.'' # erhn) d
           then Some \<lparr>ck_name = sc_name sc, ck_value = sc_value sc, ck_domain = d,
                      ck_secure = sc_secure sc\<rparr>
           else None))"

text \<open>\<open>CookieJar.set_cookie\<close>: \<open>self._cookies[domain][path][name] = cookie\<close>.\<close>

definition jar_key :: "cookie \<Rightarrow> string \<times> string" where
  "jar_key c = (ck_domain c, ck_name c)"

definition store :: "cookie \<Rightarrow> jar \<Rightarrow> jar" where
  "store c j = filter (\<lambda>d. jar_key d \<noteq> jar_key c) j @ [c]"

text \<open>\<open>extract_cookies\<close>: each \<open>Set-Cookie\<close> of the answer in turn.\<close>

definition absorb :: "string \<Rightarrow> set_cookie list \<Rightarrow> jar \<Rightarrow> jar" where
  "absorb erhn scs j =
     foldl (\<lambda>j sc. case make_cookie erhn sc of None \<Rightarrow> j | Some c \<Rightarrow> store c j) j scs"

section \<open>The session's jar and the transport\<close>

text \<open>One session request: the backend answers the request with the jar's cookies;
  an answer (not a transport failure) has its cookies stored.\<close>

definition jar_step :: "backend \<Rightarrow> request list \<Rightarrow> request \<Rightarrow> jar \<Rightarrow> jar" where
  "jar_step b h r j =
     (case b h (sent_cookies r j) r of
        (Unreachable, _) \<Rightarrow> j
      | (Reply _ _, scs) \<Rightarrow> absorb (req_erhn r) scs j)"

fun jar_replay :: "backend \<Rightarrow> request list \<Rightarrow> request list \<Rightarrow> jar \<Rightarrow> jar" where
  "jar_replay b h [] j = j"
| "jar_replay b h (r # rs) j = jar_replay b (h @ [r]) rs (if req_session r then jar_step b h r j else j)"

definition session_jar :: "backend \<Rightarrow> request list \<Rightarrow> jar" where
  "session_jar b log = jar_replay b [] log []"

text \<open>A session request carries the session's cookies; \<open>requests.get\<close> carries none.\<close>

definition jar_server :: "backend \<Rightarrow> server" where
  "jar_server b h r = fst (b h (if req_session r then sent_cookies r (session_jar b h) else []) r)"

text \<open>A service for examples: the login answer sets a secure authentication cookie
  and a plain session cookie for \<open>.naver.com\<close> and a host-only cookie; nothing
  else sets cookies.\<close>

definition login_cookies :: "set_cookie list" where
  "login_cookies =
     [\<lparr>sc_name = ''NID_AUT'', sc_value = ''a'', sc_domain = Some ''.naver.com'', sc_secure = True\<rparr>,
      \<lparr>sc_name = ''NID_SES'', sc_value = ''s'', sc_domain = Some ''naver.com'', sc_secure = False\<rparr>,
      \<lparr>sc_name = ''nid_inf'', sc_value = ''i'', sc_domain = None, sc_secure = False\<rparr>]"

definition demo_backend :: backend where
  "demo_backend h cs r = (Reply [] None, if req_url r = login_url then login_cookies else [])"

text \<open>The requests of a login against it: key fetch, login post, redirect.\<close>

definition demo_login_log :: "request list" where
  "demo_login_log = [key_req, login_req ''x'' ''y'', finalize_req ''http://nid.naver.com/fin'']"

text \<open>A request of the client to the API: sent through the session, to a path of
  \<open>http://ndrive2.naver.com\<close>. The methods that put a path of the caller's after the
  host (\<open>upload\<close>, \<open>download\<close>) do so as given: a path that does not start with
  \<open>/\<close> changes the host the request goes to.\<close>

definition api_req :: "request \<Rightarrow> bool" where
  "api_req r \<longleftrightarrow> req_session r \<and> (\<exists>p. req_url r = ndrive_host @ CHR ''/'' # p)"

fun call_paths_ok :: "call \<Rightarrow> bool" where
  "call_paths_ok (Upload p fp ow) = (take 1 p = ''/'')"
| "call_paths_ok (Download r l) = (take 1 r = ''/'')"
| "call_paths_ok _ = True"

text \<open>A step that only appends API requests to the log.\<close>

definition log_api :: "cst \<Rightarrow> cst \<Rightarrow> bool" where
  "log_api s s' \<longleftrightarrow> (\<exists>rs. w_log (snd s') = w_log (snd s) @ rs \<and> list_all api_req rs)"

section \<open>The jar along the log\<close>

lemma jar_replay_snoc:
  "jar_replay b h (xs @ [r]) j =
     (if req_session r then jar_step b (h @ xs) r (jar_replay b h xs j) else jar_replay b h xs j)"
  by (induction xs arbitrary: h j) simp_all

text \<open>The jar after one more request: a session request steps it, a plain
  \<open>requests.get\<close> leaves it alone.\<close>

lemma session_jar_snoc:
  "session_jar b (h @ [r]) = (if req_session r then jar_step b h r (session_jar b h) else session_jar b h)"
  by (simp add: session_jar_def jar_replay_snoc)

lemma session_jar_Nil [simp]: "session_jar b [] = []"
  by (simp add: session_jar_def)

lemma session_jar_induct [case_names Nil snoc]:
  assumes "P []"
    and "\<And>h r. P h \<Longrightarrow> P (h @ [r])"
  shows "P h"
  using assms by (induction h rule: rev_induct) simp_all

text \<open>The jar holds one cookie per domain and name.\<close>

definition jar_ok :: "jar \<Rightarrow> bool" where
  "jar_ok j \<longleftrightarrow> distinct (map jar_key j)"

lemma store_ok: "jar_ok j \<Longrightarrow> jar_ok (store c j)"
  by (auto simp: jar_ok_def store_def distinct_map_filter)

lemma absorb_ok: "jar_ok j \<Longrightarrow> jar_ok (absorb erhn scs j)"
  unfolding absorb_def
  by (induction scs arbitrary: j rule: rev_induct) (auto simp: store_ok split: option.split)

lemma jar_step_ok: "jar_ok j \<Longrightarrow> jar_ok (jar_step b h r j)"
  by (simp add: jar_step_def absorb_ok split: prod.split reply.split)

lemma session_jar_ok: "jar_ok (session_jar b h)"
  by (induction h rule: session_jar_induct) (auto simp: session_jar_snoc jar_step_ok, simp add: jar_ok_def)

text \<open>Every cookie of the jar domain-matches a host the session sent a request to:
  \<open>set_ok_domain\<close> keeps a service from planting cookies for a foreign domain.\<close>

definition set_by :: "request list \<Rightarrow> cookie \<Rightarrow> bool" where
  "set_by h c \<longleftrightarrow> (\<exists>r\<in>set h. req_session r \<and> ends_with (CHR ''.'' # req_erhn r) (dotted (ck_domain c)))"

lemma ends_with_dotted_self: "ends_with (CHR ''.'' # e) (dotted e)"
  by (cases e) (auto simp: ends_with_def dotted_def)

lemma dotted_dot [simp]: "dotted (CHR ''.'' # x) = CHR ''.'' # x"
  by (simp add: dotted_def)

lemma dotted_dot_prefix [simp]: "dotted (dot_prefix d) = dot_prefix d"
  by (cases d) (auto simp: dotted_def dot_prefix_def)

lemma make_cookie_matches:
  "make_cookie erhn sc = Some c \<Longrightarrow> ends_with (CHR ''.'' # erhn) (dotted (ck_domain c))"
  by (auto simp: make_cookie_def Let_def ends_with_dotted_self split: option.splits if_splits)

lemma absorb_from:
  "c \<in> set (absorb erhn scs j) \<Longrightarrow> c \<in> set j \<or> (\<exists>sc. make_cookie erhn sc = Some c)"
  unfolding absorb_def
  by (induction scs arbitrary: c rule: rev_induct) (auto simp: store_def split: option.splits)

lemma jar_step_from:
  assumes "c \<in> set (jar_step b h r j)"
  shows "c \<in> set j \<or> (\<exists>sc. make_cookie (req_erhn r) sc = Some c)"
proof -
  obtain a scs where "b h (sent_cookies r j) r = (a, scs)"
    by fastforce
  then show ?thesis
    using assms by (cases a) (auto simp: jar_step_def dest: absorb_from)
qed

lemma session_jar_set_by: "\<forall>c\<in>set (session_jar b h). set_by h c"
proof (induction h rule: session_jar_induct)
  case Nil
  then show ?case by simp
next
  case (snoc h r)
  then have "\<forall>c\<in>set (session_jar b h). set_by (h @ [r]) c"
    by (auto simp: set_by_def)
  moreover have "make_cookie (req_erhn r) sc = Some c \<Longrightarrow> req_session r \<Longrightarrow> set_by (h @ [r]) c" for sc c
    by (auto simp: set_by_def dest: make_cookie_matches)
  ultimately show ?case
    by (auto simp: session_jar_snoc dest: jar_step_from)
qed

section \<open>What the NDrive API receives\<close>

lemma ndrive_url_scheme: "url_scheme (ndrive_host @ CHR ''/'' # p) = ''http''"
  by (simp add: url_scheme_def ndrive_host_def lower_ascii_def eval_simps)

lemma ndrive_url_erhn: "req_url r = ndrive_host @ CHR ''/'' # p \<Longrightarrow> req_erhn r = ''ndrive2.naver.com''"
  by (simp add: req_erhn_def eff_host_def url_host_def ndrive_host_def lower_ascii_def eval_simps)

text \<open>A session request to a path of the NDrive host carries exactly the jar's
  cookies that are not secure and whose domain matches \<open>ndrive2.naver.com\<close>.\<close>

theorem api_request_cookies:
  assumes "req_session r" and "req_url r = ndrive_host @ CHR ''/'' # p"
  shows "jar_server b h r = fst (b h (sent_cookies r (session_jar b h)) r) \<and>
         set (sent_cookies r (session_jar b h)) =
           {(ck_name c, ck_value c) | c. c \<in> set (session_jar b h) \<and> \<not> ck_secure c \<and>
              ends_with ''.ndrive2.naver.com'' (dotted (ck_domain c))}"
  using assms
  by (auto simp: jar_server_def sent_cookies_def return_ok_def ndrive_url_scheme ndrive_url_erhn)

lemmas cookie_eval_simps = session_jar_def jar_step_def absorb_def make_cookie_def store_def jar_key_def
  sent_cookies_def return_ok_def req_erhn_def eff_host_def url_host_def url_scheme_def lower_ascii_def
  dot_prefix_def ends_with_def dotted_def

lemma demo_login_jar:
  "session_jar demo_backend demo_login_log =
     [\<lparr>ck_name = ''NID_AUT'', ck_value = ''a'', ck_domain = ''.naver.com'', ck_secure = True\<rparr>,
      \<lparr>ck_name = ''NID_SES'', ck_value = ''s'', ck_domain = ''.naver.com'', ck_secure = False\<rparr>,
      \<lparr>ck_name = ''nid_inf'', ck_value = ''i'', ck_domain = ''nid.naver.com'', ck_secure = False\<rparr>]"
  by (simp add: demo_login_log_def demo_backend_def login_cookies_def key_req_def login_req_def
      finalize_req_def get_req_def post_req_def login_url_def keys_url_def cookie_eval_simps eval_simps)

lemma demo_login_api_cookies:
  "{(ck_name c, ck_value c) | c. c \<in> set (session_jar demo_backend demo_login_log) \<and> \<not> ck_secure c \<and>
      ends_with ''.ndrive2.naver.com'' (dotted (ck_domain c))} = {(''NID_SES'', ''s'')}"
  unfolding demo_login_jar
proof (intro equalityI subsetI)
  fix x
  assume "x \<in> {(''NID_SES'', ''s'')}"
  then show "x \<in> {(ck_name c, ck_value c) | c. c \<in> set
      [\<lparr>ck_name = ''NID_AUT'', ck_value = ''a'', ck_domain = ''.naver.com'', ck_secure = True\<rparr>,
       \<lparr>ck_name = ''NID_SES'', ck_value = ''s'', ck_domain = ''.naver.com'', ck_secure = False\<rparr>,
       \<lparr>ck_name = ''nid_inf'', ck_value = ''i'', ck_domain = ''nid.naver.com'', ck_secure = False\<rparr>] \<and>
      \<not> ck_secure c \<and> ends_with ''.ndrive2.naver.com'' (dotted (ck_domain c))}"
    by (auto simp: dotted_def ends_with_def
        intro!: exI [where x = "\<lparr>ck_name = ''NID_SES'', ck_value = ''s'', ck_domain = ''.naver.com'', ck_secure = False\<rparr>"])
qed (auto simp: dotted_def ends_with_def)

theorem api_request_cookies_witness:
  "req_session (post_req mkdir_url (mkdir_form ''/b'' (new_ndrive ''u''))) \<and>
   req_url (post_req mkdir_url (mkdir_form ''/b'' (new_ndrive ''u''))) =
     ndrive_host @ CHR ''/'' # ''MakeDirectory.ndrive'' \<and>
   set (sent_cookies (post_req mkdir_url (mkdir_form ''/b'' (new_ndrive ''u'')))
          (session_jar demo_backend demo_login_log)) = {(''NID_SES'', ''s'')}"
proof -
  have s: "req_session (post_req mkdir_url (mkdir_form ''/b'' (new_ndrive ''u'')))"
    by (simp add: post_req_def)
  have u: "req_url (post_req mkdir_url (mkdir_form ''/b'' (new_ndrive ''u''))) =
       ndrive_host @ CHR ''/'' # ''MakeDirectory.ndrive''"
    by (simp add: post_req_def mkdir_url_def)
  have "set (sent_cookies (post_req mkdir_url (mkdir_form ''/b'' (new_ndrive ''u'')))
          (session_jar demo_backend demo_login_log)) = {(''NID_SES'', ''s'')}"
    using conjunct2 [OF api_request_cookies [OF s u, where b = demo_backend and h = demo_login_log]]
    by (simp only: demo_login_api_cookies)
  with s u show ?thesis by blast
qed

section \<open>The client sends only API requests\<close>

lemma reflp_log_api: "reflp log_api"
  by (rule reflpI) (auto simp: log_api_def intro: exI [where x = "[]"])

lemma transp_log_api: "transp log_api"
  by (rule transpI) (fastforce simp: log_api_def)

lemma nsend_log_api: "api_req r \<Longrightarrow> keeps log_api (nsend srv r)"
  by (rule keepsI) (auto simp: nsend_def send_def log_api_def Let_def split: reply.splits)

lemma set_useridx_log_api: "keeps log_api (set_useridx v)"
  by (rule keepsI) (auto simp: set_useridx_def log_api_def intro: exI [where x = "[]"])

lemma fs_act_log_api: "keeps log_api (fs_act f)"
  by (rule keepsI) (auto simp: fs_act_def log_api_def split: prod.splits intro: exI [where x = "[]"])

lemma api_req_urls [simp]:
  "api_req (status_req u)" "api_req (post_req getlist_url d)" "api_req (post_req mkdir_url d)"
  "api_req (post_req diskspace_url d)" "api_req (post_req checkupload_url d)"
  "api_req (post_req property_url d)" "api_req (post_req move_url d)"
  by (simp_all add: api_req_def status_req_def get_req_def post_req_def status_url_def getlist_url_def
      mkdir_url_def diskspace_url_def checkupload_url_def property_url_def move_url_def)

lemma api_req_put: "take 1 p = ''/'' \<Longrightarrow> api_req (put_req (ndrive_host @ p) b h)"
  by (cases p) (simp_all add: api_req_def put_req_def)

lemma api_req_dl: "take 1 p = ''/'' \<Longrightarrow> api_req (dl_req p n)"
  by (cases p) (simp_all add: api_req_def dl_req_def get_req_def)

lemmas api_req_path = api_req_put api_req_dl

lemmas log_api_intros = keeps_bindE keeps_catchE keeps_gets keeps_lift keeps_ret keeps_throw keeps_if
  nsend_log_api set_useridx_log_api fs_act_log_api reflp_log_api transp_log_api

lemma ensure_log_api: "keeps log_api (ensure_useridx srv)"
  unfolding ensure_useridx_def check_status_def by (intro log_api_intros) simp_all

lemma api_post_log_api:
  "api_req (post_req url (form n0)) \<Longrightarrow> (\<And>n. api_req (post_req url (form n))) \<Longrightarrow>
   keeps log_api (api_post srv url form)"
  unfolding api_post_def by (intro log_api_intros ensure_log_api) simp_all

lemma run_call_log_api:
  assumes "call_paths_ok c"
  shows "keeps log_api (run_call srv g c)"
proof (cases c)
  case (Exists p)
  have "keeps log_api (exists srv p)"
    unfolding exists_def get_fileinfo_def
    by (intro log_api_intros api_post_log_api) (auto split: exc.split intro: log_api_intros)
  with Exists show ?thesis by (simp add: discard_def keeps_bindE keeps_ret reflp_log_api transp_log_api)
next
  case (Upload p fp ow)
  with assms have "keeps log_api (upload srv g p fp ow)"
    unfolding upload_def by (intro log_api_intros ensure_log_api api_req_path) simp_all
  with Upload show ?thesis by (simp add: discard_def keeps_bindE keeps_ret reflp_log_api transp_log_api)
next
  case (Download r l)
  with assms have "keeps log_api (download srv r l)"
    unfolding download_def Let_def by (intro log_api_intros ensure_log_api api_req_path) simp_all
  with Download show ?thesis by simp
qed (simp_all add: discard_def list_dirs_def list_files_def list_kind_def make_dir_def get_disk_space_def
      get_fileinfo_def move_def check_upload_def check_status_def,
     (intro log_api_intros api_post_log_api ensure_log_api; simp)+)

end
