(* ===== verification/ErrorStr.thy ===== *)
theory ErrorStr
  imports PyStr
begin

text \<open>
  \<open>NdriveError.__str__\<close> and what \<open>str()\<close> makes of it, in Python 2. The method
  formats \<open>'NdriveError code="%s" message="%s"' % (self.code, self.message)\<close>.
  The two fields are copied from a JSON answer (\<open>data['resultcode']\<close>,
  \<open>data['message']\<close>), so a string among them is a \<open>unicode\<close> object, and \<open>%s\<close>
  of a \<open>unicode\<close> argument turns the whole result into \<open>unicode\<close>. \<open>str(e)\<close>, and
  with it \<open>print e\<close> and the traceback of an uncaught error, encodes a
  \<open>unicode\<close> result with the default ASCII codec, which raises
  \<open>UnicodeEncodeError\<close> on any character past 127.

  \<open>%s\<close> prints a string as it is and any other value as \<open>str()\<close> does: an
  integer in decimal, \<open>None\<close>, \<open>True\<close>, \<open>False\<close>, and a list or dict as its
  \<open>repr\<close>, whose strings are \<open>u'...'\<close> with Python 2's escapes. A dict prints in
  the order of the association list (CPython's own order follows the hash table).
  A \<open>datetime\<close> never comes from JSON; it prints here as its timestamp.
\<close>

section \<open>Formatting\<close>

fun nat_digits :: "nat \<Rightarrow> string" where
  "nat_digits n =
     (if n < 10 then [char_of (48 + n)] else nat_digits (n div 10) @ [char_of (48 + n mod 10)])"

declare nat_digits.simps [simp del]

text \<open>\<open>str(i)\<close> of an integer.\<close>

definition int_str :: "int \<Rightarrow> string" where
  "int_str i = (if i < 0 then CHR ''-'' # nat_digits (nat (- i)) else nat_digits (nat i))"

text \<open>One character of \<open>unicode.__repr__\<close> (\<open>unicodeescape_string\<close>) inside the
  quote \<open>q\<close>.\<close>

definition repr_char :: "char \<Rightarrow> char \<Rightarrow> string" where
  "repr_char q c =
     (if c = q \<or> c = CHR 0x5C then [CHR 0x5C, c]
      else if c = CHR 0x09 then [CHR 0x5C, CHR ''t'']
      else if c = CHR 0x0A then [CHR 0x5C, CHR ''n'']
      else if c = CHR 0x0D then [CHR 0x5C, CHR ''r'']
      else if of_char c < (32::nat) \<or> (127::nat) \<le> of_char c
      then [CHR 0x5C, CHR ''x'', hexchar (of_char c div 16), hexchar (of_char c mod 16)]
      else [c])"

text \<open>The quote is a double quote when the string holds a single quote and no
  double quote.\<close>

definition unicode_repr :: "string \<Rightarrow> string" where
  "unicode_repr s =
     (let q = (if CHR 0x27 \<in> set s \<and> CHR 0x22 \<notin> set s then CHR 0x22 else CHR 0x27) in
      CHR ''u'' # q # concat (map (repr_char q) s) @ [q])"

text \<open>\<open>sep.join(xs)\<close>.\<close>

fun join_str :: "string \<Rightarrow> string list \<Rightarrow> string" where
  "join_str sep [] = []"
| "join_str sep [x] = x"
| "join_str sep (x # y # xs) = x @ sep @ join_str sep (y # xs)"

fun py_repr :: "pyval \<Rightarrow> string" and py_repr_item :: "string \<times> pyval \<Rightarrow> string" where
  "py_repr PNone = ''None''"
| "py_repr (PBool b) = (if b then ''True'' else ''False'')"
| "py_repr (PInt i) = int_str i"
| "py_repr (PStr s) = unicode_repr s"
| "py_repr (PList xs) = CHR ''['' # join_str '', '' (map py_repr xs) @ '']''"
| "py_repr (PDict d) = CHR ''{'' # join_str '', '' (map py_repr_item d) @ ''}''"
| "py_repr (PDate t) = int_str t"
| "py_repr_item (k, v) = unicode_repr k @ '': '' @ py_repr v"

text \<open>\<open>%s\<close> of a value: \<open>str()\<close>.\<close>

definition py_str :: "pyval \<Rightarrow> string" where
  "py_str v = (case v of PStr s \<Rightarrow> s | _ \<Rightarrow> py_repr v)"

definition is_unicode :: "pyval \<Rightarrow> bool" where
  "is_unicode v = (case v of PStr _ \<Rightarrow> True | _ \<Rightarrow> False)"

text \<open>\<open>NdriveError.__str__\<close>: the text, and whether it is a \<open>unicode\<close> object.\<close>

definition ndrive_error_str :: "pyval \<Rightarrow> pyval \<Rightarrow> string \<times> bool" where
  "ndrive_error_str code message =
     (''NdriveError code='' @ [CHR 0x22] @ py_str code @ [CHR 0x22] @ '' message='' @ [CHR 0x22] @
        py_str message @ [CHR 0x22],
      is_unicode code \<or> is_unicode message)"

definition is_ascii :: "string \<Rightarrow> bool" where
  "is_ascii s \<longleftrightarrow> list_all (\<lambda>c. of_char c < (128::nat)) s"

text \<open>\<open>str(e)\<close>: a \<open>unicode\<close> result is encoded to ASCII.\<close>

definition str_of_error :: "pyval \<Rightarrow> pyval \<Rightarrow> string res" where
  "str_of_error code message =
     (case ndrive_error_str code message of
        (s, u) \<Rightarrow> if u \<and> \<not> is_ascii s then Inl UnicodeEncodeError else Inr s)"

section \<open>What is ASCII\<close>

lemma is_ascii_simps [simp]:
  "is_ascii []"
  "is_ascii (c # s) \<longleftrightarrow> of_char c < (128::nat) \<and> is_ascii s"
  "is_ascii (s @ t) \<longleftrightarrow> is_ascii s \<and> is_ascii t"
  by (simp_all add: is_ascii_def)

lemma is_ascii_concat: "(\<And>s. s \<in> set ss \<Longrightarrow> is_ascii s) \<Longrightarrow> is_ascii (concat ss)"
  by (induction ss) simp_all

lemma nat_digits_ascii: "is_ascii (nat_digits n)"
proof (induction n rule: nat_digits.induct)
  case (1 n)
  have "m < 10 \<Longrightarrow> of_char (char_of (48 + m) :: char) < (128::nat)" for m :: nat
    by (simp add: of_char_of)
  moreover have "n mod 10 < 10"
    by simp
  ultimately show ?case
    using 1 by (subst nat_digits.simps) auto
qed

lemma int_str_ascii: "is_ascii (int_str i)"
  by (simp add: int_str_def nat_digits_ascii)

lemma hexchar_ascii: "n < 16 \<Longrightarrow> of_char (hexchar n) < (128::nat)"
  by (simp add: of_char_hexchar)

lemma repr_char_ascii: "of_char q < (128::nat) \<Longrightarrow> is_ascii (repr_char q c)"
proof -
  have "(of_char c :: nat) div 16 < 16"
    using nat_of_char_less_256 [of c] by (simp add: less_mult_imp_div_less)
  then show "of_char q < (128::nat) \<Longrightarrow> is_ascii (repr_char q c)"
    by (auto simp: repr_char_def hexchar_ascii)
qed

lemma unicode_repr_ascii: "is_ascii (unicode_repr s)"
  by (auto simp: unicode_repr_def Let_def repr_char_ascii intro!: is_ascii_concat)

lemma join_str_ascii:
  "is_ascii sep \<Longrightarrow> (\<And>x. x \<in> set xs \<Longrightarrow> is_ascii x) \<Longrightarrow> is_ascii (join_str sep xs)"
  by (induction sep xs rule: join_str.induct) simp_all

text \<open>\<open>repr\<close> escapes every character past 126: its output is ASCII.\<close>

lemma py_repr_ascii: "is_ascii (py_repr v)" "is_ascii (py_repr_item kv)"
  by (induction v and kv rule: py_repr_py_repr_item.induct)
    (auto simp: int_str_ascii unicode_repr_ascii intro!: join_str_ascii)

lemma py_str_ascii: "\<not> is_unicode v \<Longrightarrow> is_ascii (py_str v)"
  by (cases v) (simp_all add: py_str_def is_unicode_def py_repr_ascii del: py_repr.simps)

section \<open>\<open>str()\<close> of an \<open>NdriveError\<close>\<close>

lemma ndrive_error_str_literals:
  "is_ascii (''NdriveError code='' @ [CHR 0x22])" "is_ascii ([CHR 0x22] @ '' message='' @ [CHR 0x22])"
  "is_ascii [CHR 0x22]"
  by (simp_all add: eval_simps)

text \<open>
  C34 (error): \<open>str()\<close> of \<open>NdriveError(code, message)\<close> raises
  \<open>UnicodeEncodeError\<close> exactly when the code or the message is a string with a
  character past 127, as a service that answers in Korean sends; otherwise it is the
  text \<open>__str__\<close> formats. An uncaught error with such a message is reported as
  \<open><unprintable NdriveError object>\<close>.
\<close>

theorem str_of_error_raises:
  "str_of_error code message =
     (if \<exists>s. (code = PStr s \<or> message = PStr s) \<and> \<not> is_ascii s then Inl UnicodeEncodeError
      else Inr (fst (ndrive_error_str code message)))"
proof -
  have str: "is_ascii (py_str v) \<longleftrightarrow> (\<forall>s. v = PStr s \<longrightarrow> is_ascii s)" for v
    using py_str_ascii [of v] by (cases v) (simp_all add: py_str_def is_unicode_def)
  have "is_unicode v \<longleftrightarrow> (\<exists>s. v = PStr s)" for v
    by (cases v) (simp_all add: is_unicode_def)
  then show ?thesis
    by (auto simp: str_of_error_def ndrive_error_str_def str ndrive_error_str_literals)
qed

theorem str_of_error_raises_witness:
  "str_of_error (PInt 11) (PStr (''caf'' @ [CHR 0xE9])) = Inl UnicodeEncodeError \<and>
   str_of_error (PInt 11) (PStr ''not found'') =
     Inr (''NdriveError code='' @ [CHR 0x22] @ ''11'' @ [CHR 0x22] @ '' message='' @ [CHR 0x22] @
          ''not found'' @ [CHR 0x22])"
  using str_of_error_raises [of "PInt 11" "PStr (''caf'' @ [CHR 0xE9])"]
    str_of_error_raises [of "PInt 11" "PStr ''not found''"]
  by (simp add: ndrive_error_str_def py_str_def int_str_def nat_digits.simps eval_simps)

end
