(* ===== verification/Spec2Isabelle.thy ===== *)
theory Spec2Isabelle
  imports Handshake Client Packaging MimeTypes Cookies ErrorStr
begin

text \<open>
  \<^bold>\<open>A verification development of pyncloud.\<close>
  pyncloud (\<open>src/pyncloud/pyncloud.py\<close>, Python 2) is a client for the Naver
  NDrive cloud service. It has three parts:
  \<^item> a login handshake, \<open>get_ndrive(nid, npw)\<close>. It fetches an RSA session key with
    \<open>requests.get\<close>, encrypts the credentials with \<open>_encrypt\<close> (length-prefixed
    framing by \<open>_naver_style_join\<close>, then PKCS#1 v1.5 encryption by \<open>rsa.encrypt\<close>,
    then hex), posts the login form, extracts the redirect target of the
    \<open>location.replace("...")\<close> script with \<open>re.search\<close>, follows it, and returns
    an \<open>Ndrive\<close> object;
  \<^item> the \<open>Ndrive\<close> object. Its state is the user id, a lazily resolved user index
    \<open>_useridx\<close> (resolved by \<open>check_status\<close> through \<open>if not self._useridx\<close>), and
    the HTTP session. Its public methods (\<open>list_dirs\<close>, \<open>list_files\<close>,
    \<open>make_dir\<close>, \<open>get_disk_space\<close>, \<open>check_upload\<close>, \<open>get_fileinfo\<close>, \<open>exists\<close>,
    \<open>upload\<close>, \<open>download\<close>, \<open>move\<close>) resolve the index, send one request, decode
    the JSON answer and raise \<open>NdriveError(code, message)\<close> on a non-zero result code;
  \<^item> the local file system, touched by \<open>download\<close> (\<open>os.makedirs\<close>, \<open>open\<close>);
  \<^item> packaging: \<open>src/setup.py\<close> calls \<open>distutils.core.setup\<close>.

  \<^bold>\<open>Theories and what they model.\<close>
  \<^item> \<open>Prelude\<close>: Python values (\<open>pyval\<close>), the exceptions (\<open>exc\<close>, one constructor
    per exception the code can raise, \<open>NdriveError\<close> with its code and message),
    truthiness, subscript, and an exception-state monad \<open>('s, 'a) act\<close> =
    \<open>'s \<Rightarrow> (exc + 'a) \<times> 's\<close>. A raise is an \<open>Inl\<close> result that keeps the state
    reached so far, as Python does. \<open>keeps R m\<close> says every run of \<open>m\<close>, returning or
    raising, relates its start and end states by \<open>R\<close>; its composition rules carry the
    frame lemmas of the client.
  \<^item> \<open>Framing\<close>: \<open>_naver_style_join\<close>, with Python 2's \<open>chr\<close> (ValueError from 256
    up), against a reference encoder \<open>frames\<close> and its decoder.
  \<^item> \<open>PyStr\<close>, \<open>Pkcs1\<close>: the library calls \<open>_encrypt\<close> makes: \<open>str.split\<close>,
    \<open>int(s, 16)\<close>, \<open>str.encode('hex')\<close>, and python-rsa's \<open>encrypt\<close> (PKCS#1 v1.5
    padding, big-endian conversion, modular power), modelled from their
    documented behaviour. The random padding bytes are a parameter \<open>rnd\<close>, a stream
    of bytes, so that every statement holds for every padding; where a statement
    needs the padding decodable, it assumes, as \<open>os.urandom\<close>-based python-rsa
    ensures, that no padding byte is zero.
  \<^item> \<open>Encrypt\<close>: \<open>_encrypt\<close>.
  \<^item> \<open>Http\<close>: the transport. The \<open>world\<close> record holds the log of requests sent and
    the local file system. A \<open>server\<close> maps the log so far and a request to a reply,
    so the service may depend on history; \<open>send\<close> logs the request and asks the
    server. An \<open>Unreachable\<close> reply is a network error.
  \<^item> \<open>Handshake\<close>: \<open>re.search\<close> for the redirect pattern (\<open>search_redirect\<close>,
    leftmost match, \<open>[^"]+\<close> greedy up to the first quote) and \<open>get_ndrive\<close>.
  \<^item> \<open>PyOs\<close>: \<open>os.path.dirname\<close>, \<open>os.path.exists\<close>, \<open>os.path.isdir\<close>, \<open>os.mkdir\<close>,
    \<open>os.makedirs\<close> (Python 2's recursion, with its catch of \<open>EEXIST\<close>) and writing a
    file, over a file system that maps normalised paths to \<open>Dir\<close> or \<open>File\<close>.
  \<^item> \<open>FsTree\<close>: the tree invariant \<open>fs_wf\<close> (every entry's parent is a directory)
    and an abstract specification \<open>makedirs_spec\<close> of \<open>os.makedirs\<close> over path
    components, with the refinement theorem.
  \<^item> \<open>Client\<close>: the \<open>Ndrive\<close> class. Its state \<open>cst\<close> is the object's fields
    (record \<open>ndrive\<close>) paired with the world. One definition per method, with the
    method's name, composed as the source composes them (\<open>_ensure_useridx\<close>,
    \<open>_api_post\<close>, \<open>_check_error\<close>, \<open>_list\<close>), and a datatype \<open>call\<close> of the public
    operations with \<open>run_call\<close> dispatching them.
  \<^item> \<open>MimeTypes\<close>: Python 2.7's \<open>mimetypes.guess_type\<close> over a table parameter
    (\<open>splittype\<close>, the \<open>data:\<close> branch, \<open>splitext\<close>, the suffix loop as a
    \<open>partial_function (option)\<close>, encodings, exact then lower-case type lookup).
    \<open>upload\<close> takes the guesser as a parameter, and the root composes the two.
  \<^item> \<open>Cookies\<close>: the cookie jar of the \<open>requests.Session\<close> that \<open>get_ndrive\<close>
    creates, as Python 2.7's \<open>cookielib\<close> keeps it under \<open>DefaultCookiePolicy\<close>.
    \<open>make_cookie\<close> applies the \<open>Domain\<close> rules of \<open>set_ok_domain\<close>, \<open>store\<close>
    replaces by domain and name, and \<open>sent_cookies\<close> applies \<open>return_ok\<close> (domain
    match and \<open>Secure\<close>). \<open>session_jar\<close> replays the jar from the request log,
    with \<open>requests.get\<close> outside it. \<open>jar_server\<close> turns a service that reads
    and sets cookies into a \<open>server\<close>, so every theorem stated for all servers
    covers it.
  \<^item> \<open>ErrorStr\<close>: \<open>NdriveError.__str__\<close> as Python 2's \<open>%s\<close> formatting of the
    JSON fields (\<open>str\<close> of numbers and strings, \<open>repr\<close> with \<open>u'...'\<close> escapes
    for lists and dicts, unicode promotion), and \<open>str(e)\<close>, which encodes a
    unicode result to ASCII.
  \<^item> \<open>Packaging\<close>: the keyword arguments of \<open>setup(...)\<close>, the imports of
    \<open>pyncloud.py\<close>, and how distutils' \<open>Distribution\<close> keeps known options and
    drops unknown ones with a warning.
  \<^item> this theory: sessions across the handshake, the client and the local file
    system.

  \<^bold>\<open>What is proved.\<close>
  \<^item> Framing (C1--C3): the exact behaviour of \<open>_naver_style_join\<close>: it raises for a
    field of 256 bytes or more, and otherwise decodes back to its fields and has
    the length of the fields plus one byte per field.
  \<^item> Encryption (C4--C7): \<open>_encrypt\<close>'s output is the hex of \<open>blk ^ e mod m\<close>
    for a block \<open>blk\<close> that unpads to the framing of the session key, the user
    id and the password; malformed keys, oversized credentials and too small a
    modulus raise. The third field of the key string is
    used as the modulus: \<open>rsa.PublicKey\<close> takes \<open>(n, e)\<close>.
  \<^item> Handshake (C8--C12): the redirect search returns the leftmost match and its
    target; \<open>get_ndrive\<close> returns a fresh object after exactly three requests, and
    raises the error the code raises when the page has no redirect or the key
    cannot be used.
  \<^item> Client (C13--C24): each call resolves the index at most once and keeps the user
    id; a false index (such as 0) is resolved again by every call (C14); the effect
    of each method on every branch (errors included), with the headers of
    \<open>upload\<close> written out (C21); \<open>check_upload\<close> can never succeed, because the
    name \<open>datetime\<close> is the class and has no attribute \<open>datetime\<close> (C20);
    \<open>_list\<close> raises \<open>KeyError\<close> on an absent value, \<open>download\<close> writes error bodies
    and fails on a bare file name.
    Every form-posting call raises \<open>NdriveError(resultcode, message)\<close> on a
    non-zero result code after exactly one request (C30).
  \<^item> Sessions (C25, C29, C32, C33, below): an inductive relation \<open>session\<close>, login
    then any calls, with invariants proved by rule induction: one implicit index
    resolution per session (C25); the local disk changes only at the local paths of
    the session's downloads and the directories above them, and a well-formed tree
    stays well formed (C29). A session never gets stuck (C32): against a service that
    resolves the user and accepts every API request, every reachable state has a
    successor in which \<open>make_dir\<close>, \<open>move\<close> or \<open>upload\<close> returned. The frame lemmas
    of \<open>Client\<close> are stated as relations every run keeps (\<open>keeps\<close>), composed
    through the methods' shared shape.
  \<^item> Transport (C33): in every session, the key fetch goes without the session, and
    every request the methods send is a session request to the plain-\<open>http\<close> API
    host, carrying exactly the jar's non-secure cookies that match
    \<open>ndrive2.naver.com\<close>: a \<open>Secure\<close> cookie from the \<open>https\<close> login never reaches
    the API. The jar holds one cookie per domain and name, and each of its cookies
    domain-matches a host the session sent a request to.
  \<^item> File system (C26, C28): Python 2's recursive \<open>os.makedirs\<close> refines its
    abstract specification on a well-formed tree (EEXIST, ENOTDIR without change,
    or exactly the missing ancestors created). \<open>download\<close> raises EEXIST when the
    directory part of its local path is a regular file.
  \<^item> Ciphertext shape (C27): lower-case hex, two digits per modulus byte.
  \<^item> MIME guessing (C31): the suffix loop returns whenever no rewritten extension is
    a key again (Python's default map included). It may diverge on a modified
    \<open>suffix_map\<close> (a lemma, not a property of the repository's code).
  \<^item> Error text (C34): \<open>str()\<close> of an \<open>NdriveError\<close> raises
    \<open>UnicodeEncodeError\<close> exactly when a field is a string with a non-ASCII
    character; otherwise it is the formatted text.
  \<^item> Examples, evaluated on fixed inputs: the spec's framing scenario, two
    \<open>make_dir\<close> calls, two downloads, a \<open>.tgz\<close> upload labelled
    \<open>application/x-tar\<close> with its gzip encoding dropped, and the dependencies that
    distutils drops from \<open>setup.py\<close>.

  \<^bold>\<open>Evaluation.\<close> The definitions are executable. The witnesses evaluate them by
  \<open>simp\<close> with the collection \<open>eval_simps\<close>. Big-number arithmetic goes through
  \<open>pow_mod_eq\<close>, not \<open>code_simp\<close>, so that it stays fast. No loop of the code
  needs fuel: \<open>makedirs\<close> recurses on a strictly shorter path and is a total
  \<open>function\<close> with a measure; every other loop is structural. The one loop that
  may not end, the suffix loop of \<open>mimetypes.guess_type\<close>, is a
  \<open>partial_function (option)\<close>. Its termination is a theorem with its
  condition (C31), and its divergence on a self-feeding rule is a lemma.

  \<^bold>\<open>Not modelled.\<close> The full MIME types table, which depends on the system's
  \<open>mime.types\<close> files, is not modelled: \<open>guess_type\<close> takes it as a parameter, and
  \<open>default_tables\<close> holds a part of the built-in one. The non-strict table is not
  modelled either, since \<open>upload\<close> uses \<open>strict=True\<close>. Closing
  the file of \<open>download\<close> and the garbage collector are not modelled. HTTP status
  codes are not modelled: the code never reads them. TLS is not modelled. Of the
  \<open>requests\<close> session, the cookie jar is modelled; cookie paths (every cookie has
  path \<open>/\<close>), expiry, ports and the redirects \<open>requests\<close> follows by itself are
  left to the server function. Header value types are not modelled either (a newer \<open>requests\<close> rejects
  the integer and datetime headers of \<open>upload\<close>). The local file system has no
  symbolic links, permissions or \<open>.\<close>/\<open>..\<close> resolution, and relative paths are
  keys of their own (the current directory is not located in the tree); the
  refinement of \<open>makedirs\<close> is stated for absolute paths of proper components for
  this reason. Packaging is modelled as the options \<open>setup()\<close> receives; what
  \<open>pip\<close> does around it (its setuptools shim) is not modelled.
\<close>

section \<open>Sessions: a login followed by calls\<close>

text \<open>
  A service whose status answers always resolve the user to a truthy index, and
  the sessions of a program that logs in and then makes calls in order, going on
  after a call raises (the caller may catch the exception). \<open>run_calls\<close> runs a
  list of calls and ignores their results.
\<close>

definition status_ok :: "server \<Rightarrow> bool" where
  "status_ok srv \<longleftrightarrow>
     (\<forall>h r. is_status r \<longrightarrow>
        (\<exists>c j i. srv h r = Reply c (Some j) \<and> status_index j = Inr i \<and> truthy i))"

text \<open>A service that accepts every other request to the NDrive host: a JSON object with
  result code 0.\<close>

definition accepts :: "server \<Rightarrow> bool" where
  "accepts srv \<longleftrightarrow>
     (\<forall>h r. \<not> is_status r \<and> take (length ndrive_host) (req_url r) = ndrive_host \<longrightarrow>
        (\<exists>c d. srv h r = Reply c (Some (PDict d)) \<and> map_of d ''resultcode'' = Some (PInt 0)))"

inductive session ::
  "server \<Rightarrow> (string \<Rightarrow> string option) \<Rightarrow> rng \<Rightarrow> string \<Rightarrow> string \<Rightarrow> fs \<Rightarrow> call list \<Rightarrow> cst \<Rightarrow> bool"
  for srv g rnd nid npw fs0 where
  login: "get_ndrive srv rnd nid npw \<lparr>w_log = [], w_fs = fs0\<rparr> = (Inr n, w) \<Longrightarrow>
            session srv g rnd nid npw fs0 [] (n, w)"
| call: "session srv g rnd nid npw fs0 cs s \<Longrightarrow> run_call srv g c s = (r, s') \<Longrightarrow>
           session srv g rnd nid npw fs0 (cs @ [c]) s'"

fun run_calls :: "server \<Rightarrow> (string \<Rightarrow> string option) \<Rightarrow> call list \<Rightarrow> cst \<Rightarrow> cst" where
  "run_calls srv g [] s = s"
| "run_calls srv g (c # cs) s = run_calls srv g cs (snd (run_call srv g c s))"

definition demo_server :: server where
  "demo_server h r =
     (if r = key_req \<or> req_url r = login_url then sample_server h r else drive_server (PInt 7) h r)"

definition demo_world :: world where
  "demo_world =
     \<lparr>w_log = [key_req, login_req ''keyA'' sample_ct, finalize_req ''http://nid/fin''], w_fs = Map.empty\<rparr>"

definition demo_calls :: "call list" where
  "demo_calls = [MakeDir ''/a'', CheckStatus, Exists ''/a'']"

definition fs_calls :: "call list" where
  "fs_calls = [Download ''/r/f.txt'' ''/tmp/d/f.txt'', MakeDir ''/a'', Download ''/r/g.txt'' ''g.txt'']"

text \<open>The same service with cookies: the login answer sets the cookies of
  \<^const>\<open>login_cookies\<close>, a secure one among them.\<close>

definition demo_cookie_backend :: backend where
  "demo_cookie_backend h cs r = (demo_server h r, if req_url r = login_url then login_cookies else [])"

lemma login_not_status [simp]:
  "\<not> is_status key_req" "\<not> is_status (login_req nm ct)" "\<not> is_status (finalize_req u)"
  by (simp_all add: is_status_def key_req_def login_req_def finalize_req_def get_req_def post_req_def)

lemma get_ndrive_Inr:
  assumes "get_ndrive srv rnd nid npw w = (Inr n, w')"
  shows "n = new_ndrive nid \<and> w_fs w' = w_fs w \<and>
         (\<exists>rs. w_log w' = w_log w @ rs \<and> \<not> list_ex is_status rs)"
  using assms
  by (auto simp: get_ndrive_def act_simps send_def Let_def split: reply.splits sum.splits prod.splits)

lemma check_status_resolves:
  assumes "status_ok srv" and "check_status srv s = (x, s')"
  shows "truthy (useridx (fst s'))"
proof -
  obtain c j i where "srv (w_log (snd s)) (status_req (userid (fst s))) = Reply c (Some j)"
    and "status_index j = Inr i" and "truthy i"
    using assms(1) is_status_status_req unfolding status_ok_def by blast
  then show ?thesis using assms(2)
    by (cases s) (auto simp: check_status_def act_simps nsend_def set_useridx_def resp_json_def
        status_index_def rbind_eq_Inr split: sum.splits)
qed

lemma ensure_resolves:
  "status_ok srv \<Longrightarrow> keeps (\<lambda>_ s'. truthy (useridx (fst s'))) (ensure_useridx srv)"
  by (rule keepsI) (auto simp: ensure_useridx_def act_simps dest: check_status_resolves split: if_splits sum.splits prod.splits)

lemma run_call_resolves:
  assumes "status_ok srv" and "run_call srv g c s = (x, s')"
  shows "truthy (useridx (fst s'))"
proof (cases "c = CheckStatus")
  case True
  with assms show ?thesis
    by (auto simp: discard_def act_simps dest: check_status_resolves split: prod.splits sum.splits)
next
  case False
  have "keeps (\<lambda>_ s'. truthy (useridx (fst s'))) (run_call srv g c)"
    by (rule run_call_keeps [OF False ensure_resolves [OF assms(1)]]) (simp add: quiet_def)
  then show ?thesis using assms(2) by (rule keepsD)
qed

lemma session_run_calls:
  "session srv g rnd nid npw fs0 cs s \<Longrightarrow> session srv g rnd nid npw fs0 (cs @ ds) (run_calls srv g ds s)"
proof (induction ds arbitrary: cs s)
  case Nil
  then show ?case by simp
next
  case (Cons d ds)
  obtain r s' where "run_call srv g d s = (r, s')" by (meson surj_pair)
  with Cons.prems have "session srv g rnd nid npw fs0 (cs @ [d]) s'" by (rule session.call)
  with Cons.IH [of "cs @ [d]" s'] \<open>run_call srv g d s = (r, s')\<close> show ?case by simp
qed

lemma discard_run: "discard m s = (r, s') \<Longrightarrow> \<exists>y. m s = (y, s')"
  by (auto simp: discard_def act_simps split: prod.splits sum.splits)

text \<open>
  C25 (invariant, across the handshake and the client): in every session that logs
  in with \<open>get_ndrive\<close> and then makes any sequence of calls, whether each call
  returns or raises, against a service whose status answers resolve the user to a
  truthy index, the object keeps the login's user id; its index is resolved exactly
  when at least one call has been made; and the log holds exactly one status
  request per explicit \<open>check_status\<close> call plus one implicit resolution, made by
  the first call when that call is not \<open>check_status\<close> itself. The login sends no
  status request. So the lazy resolution happens once per session, not once per call.
\<close>

theorem session_single_resolution:
  assumes "status_ok srv" and "session srv g rnd nid npw fs0 cs s"
  shows "userid (fst s) = nid \<and> (truthy (useridx (fst s)) \<longleftrightarrow> cs \<noteq> []) \<and>
         length (filter is_status (w_log (snd s))) =
           count_list cs CheckStatus + (if cs \<noteq> [] \<and> hd cs \<noteq> CheckStatus then 1 else 0)"
  using assms(2)
proof (induction cs s rule: session.induct)
  case (login n w)
  then show ?case
    by (auto simp: new_ndrive_def dest!: get_ndrive_Inr simp: list_ex_iff filter_empty_conv)
next
  case (call cs s c r s')
  have res: "truthy (useridx (fst s'))" using run_call_resolves [OF assms(1) call.hyps(2)] .
  show ?case
  proof (cases "c = CheckStatus")
    case True
    then obtain y where "check_status srv s = (y, s')"
      using call.hyps(2) by (auto dest: discard_run)
    from check_status_log [OF this] call.IH res True show ?thesis
      by (auto simp: is_status_status_req)
  next
    case False
    have "keeps one_status (run_call srv g c)"
      by (rule run_call_keeps [OF False ensure_one_status one_status_quiet])
    then have "one_status s s'" using call.hyps(2) by (rule keepsD)
    with call.IH res False show ?thesis
      by (auto simp: one_status_def is_status_status_req split: if_splits)
  qed
qed

lemma demo_status_ok: "status_ok demo_server"
  by (auto simp: status_ok_def demo_server_def drive_server_def status_index_def check_error_def
      is_status_def key_req_def get_req_def keys_url_def login_url_def status_url_def)

lemma demo_login:
  "get_ndrive demo_server (\<lambda>_. CHR ''A'') ''u'' ''p'' \<lparr>w_log = [], w_fs = Map.empty\<rparr> =
     (Inr (new_ndrive ''u''), demo_world)"
proof -
  have k: "demo_server [] key_req = Reply sample_key None"
    by (simp add: demo_server_def sample_server_def)
  have l: "demo_server [key_req] (login_req ''keyA'' sample_ct) = Reply sample_page None"
    by (simp add: demo_server_def sample_server_def sample_requests_differ)
  have f: "demo_server [key_req, login_req ''keyA'' sample_ct] (finalize_req ''http://nid/fin'') =
      Reply [] (Some (PDict [(''resultcode'', PInt 0), (''resultvalue'', PList [])]))"
    by (simp add: demo_server_def drive_server_def sample_requests_differ login_not_status)
  show ?thesis
    by (simp add: get_ndrive_def bindE_apply k l f sample_encrypt sample_search group1_def demo_world_def)
qed

theorem session_single_resolution_witness:
  "userid (fst (run_calls demo_server (\<lambda>_. None) demo_calls (new_ndrive ''u'', demo_world))) = ''u'' \<and>
   truthy (useridx (fst (run_calls demo_server (\<lambda>_. None) demo_calls (new_ndrive ''u'', demo_world)))) \<and>
   length (filter is_status (w_log (snd (run_calls demo_server (\<lambda>_. None) demo_calls
     (new_ndrive ''u'', demo_world))))) = 2"
proof -
  have "session demo_server (\<lambda>_. None) (\<lambda>_. CHR ''A'') ''u'' ''p'' Map.empty [] (new_ndrive ''u'', demo_world)"
    by (rule session.login [OF demo_login])
  then have "session demo_server (\<lambda>_. None) (\<lambda>_. CHR ''A'') ''u'' ''p'' Map.empty demo_calls
      (run_calls demo_server (\<lambda>_. None) demo_calls (new_ndrive ''u'', demo_world))"
    using session_run_calls by fastforce
  from session_single_resolution [OF demo_status_ok this] show ?thesis
    by (simp add: demo_calls_def)
qed

text \<open>The resolution step only sends; a call keeps the local tree well formed.\<close>

lemma ensure_keeps_wf:
  "keeps (\<lambda>s s'. fs_wf (w_fs (snd s)) \<longrightarrow> fs_wf (w_fs (snd s'))) (ensure_useridx srv)"
  by (rule keepsI) (auto simp: ensure_useridx_def act_simps dest: check_status_log split: if_splits sum.splits prod.splits)

lemma run_call_wf:
  assumes "fs_wf (w_fs (snd s))" and "run_call srv g c s = (x, s')"
  shows "fs_wf (w_fs (snd s'))"
proof (cases "c = CheckStatus")
  case True
  then obtain y where "check_status srv s = (y, s')" using assms(2) by (auto dest: discard_run)
  with assms(1) show ?thesis by (auto dest: check_status_log)
next
  case False
  have "keeps (\<lambda>s s'. fs_wf (w_fs (snd s)) \<longrightarrow> fs_wf (w_fs (snd s'))) (run_call srv g c)"
    by (rule run_call_keeps [OF False ensure_keeps_wf]) (simp add: quiet_def)
  with assms show ?thesis by (blast dest: keepsD)
qed

lemma call_writes_download: "call_writes c q \<Longrightarrow> \<exists>r l. c = Download r l \<and> prefix q l"
  by (cases c) auto

text \<open>
  C29 (invariant and safety, across the handshake, the client and the local file
  system): in every state of every session, whatever the service answers and
  whichever calls raise, every local path whose entry differs from the start is the
  local path of one of the session's downloads or a directory above it: the login
  and every other method leave the disk alone, and \<open>download\<close> writes nowhere
  else. A well-formed tree at the start stays one.
\<close>

theorem session_fs_local:
  assumes "fs_wf fs0" and "session srv g rnd nid npw fs0 cs s"
  shows "fs_wf (w_fs (snd s)) \<and>
         (\<forall>q. w_fs (snd s) q \<noteq> fs0 q \<longrightarrow> (\<exists>r l. Download r l \<in> set cs \<and> prefix q l))"
  using assms(2)
proof (induction cs s rule: session.induct)
  case (login n w)
  then show ?case using assms(1) by (auto dest: get_ndrive_Inr)
next
  case (call cs s c r s')
  have "fs_within (call_writes c) s s'" using run_call_fs_within call.hyps(2) by (rule keepsD)
  then have w: "w_fs (snd s') q \<noteq> w_fs (snd s) q \<Longrightarrow> \<exists>r l. c = Download r l \<and> prefix q l" for q
    by (auto simp: fs_within_def dest: call_writes_download)
  have "fs_wf (w_fs (snd s'))" using call.IH run_call_wf [OF _ call.hyps(2)] by blast
  moreover have "\<exists>r l. Download r l \<in> set (cs @ [c]) \<and> prefix q l" if "w_fs (snd s') q \<noteq> fs0 q" for q
  proof (cases "w_fs (snd s') q = w_fs (snd s) q")
    case True
    with that call.IH show ?thesis by fastforce
  next
    case False
    with w show ?thesis by fastforce
  qed
  ultimately show ?case by blast
qed

theorem session_fs_local_witness:
  "fs_wf (w_fs (snd (run_calls demo_server (\<lambda>_. None) fs_calls (new_ndrive ''u'', demo_world)))) \<and>
   w_fs (snd (run_calls demo_server (\<lambda>_. None) fs_calls (new_ndrive ''u'', demo_world))) ''/r/f.txt'' = None \<and>
   w_fs (snd (run_calls demo_server (\<lambda>_. None) fs_calls (new_ndrive ''u'', demo_world))) ''/etc/passwd'' = None"
proof -
  have wf: "fs_wf Map.empty" by (simp add: fs_wf_def)
  have "session demo_server (\<lambda>_. None) (\<lambda>_. CHR ''A'') ''u'' ''p'' Map.empty [] (new_ndrive ''u'', demo_world)"
    by (rule session.login [OF demo_login])
  then have "session demo_server (\<lambda>_. None) (\<lambda>_. CHR ''A'') ''u'' ''p'' Map.empty fs_calls
      (run_calls demo_server (\<lambda>_. None) fs_calls (new_ndrive ''u'', demo_world))"
    using session_run_calls by fastforce
  from session_fs_local [OF wf this] show ?thesis
    by (auto simp: fs_calls_def)
qed

lemma check_status_succeeds:
  assumes "status_ok srv"
  shows "\<exists>v s'. check_status srv s = (Inr v, s')"
proof -
  obtain c j i where "srv (w_log (snd s)) (status_req (userid (fst s))) = Reply c (Some j)"
    and "status_index j = Inr i" and "truthy i"
    using assms(1) is_status_status_req unfolding status_ok_def by blast
  then show ?thesis
    by (cases s) (auto simp: check_status_def act_simps nsend_def set_useridx_def resp_json_def
        status_index_def rbind_eq_Inr split: sum.splits)
qed

lemma ensure_succeeds:
  assumes "status_ok srv"
  shows "\<exists>s'. ensure_useridx srv s = (Inr (), s')"
  using check_status_succeeds [OF assms, of s]
  by (auto simp: ensure_useridx_def act_simps)

lemma accepted_post:
  assumes "status_ok srv" and "accepts srv" and "take (length ndrive_host) url = ndrive_host"
  shows "\<exists>v s'. api_post srv url form s = (Inr v, s')"
proof -
  obtain s1 where e: "ensure_useridx srv s = (Inr (), s1)" using ensure_succeeds [OF assms(1)] by blast
  have "\<not> is_status (post_req url (form (fst s1)))" by simp
  moreover have "take (length ndrive_host) (req_url (post_req url (form (fst s1)))) = ndrive_host"
    using assms(3) by (simp add: post_req_def)
  ultimately obtain c d where "srv (w_log (snd s1)) (post_req url (form (fst s1))) = Reply c (Some (PDict d))"
    and "map_of d ''resultcode'' = Some (PInt 0)"
    using assms(2) unfolding accepts_def by blast
  then show ?thesis using e
    by (cases s1) (simp add: api_post_def act_simps nsend_def resp_json_def check_error_def)
qed

lemma accepted_upload:
  assumes "status_ok srv" and "accepts srv"
  shows "\<exists>v s'. upload srv g p fp ow s = (Inr v, s')"
proof -
  obtain s1 where e: "ensure_useridx srv s = (Inr (), s1)" using ensure_succeeds [OF assms(1)] by blast
  have "\<not> is_status (put_req (ndrive_host @ p) (f_data fp) (upload_headers (fst s1) (PDate (f_mtime fp)) (g p) ow))"
    by simp
  moreover have "take (length ndrive_host) (req_url (put_req (ndrive_host @ p) (f_data fp) h)) = ndrive_host"
    for h by (simp add: put_req_def)
  ultimately obtain c d where "srv (w_log (snd s1)) (put_req (ndrive_host @ p) (f_data fp)
      (upload_headers (fst s1) (PDate (f_mtime fp)) (g p) ow)) = Reply c (Some (PDict d))"
    and "map_of d ''resultcode'' = Some (PInt 0)"
    using assms(2) unfolding accepts_def by blast
  then show ?thesis using e
    by (cases s1) (auto simp: upload_def act_simps nsend_def resp_json_def check_error_def)
qed

lemma discard_returns: "\<exists>v s'. m s = (Inr v, s') \<Longrightarrow> \<exists>s'. discard m s = (Inr (), s')"
  by (auto simp: discard_def act_simps)

lemma then_true_returns: "\<exists>v s'. m s = (Inr v, s') \<Longrightarrow> \<exists>v s'. bindE m (\<lambda>_. ret True) s = (Inr v, s')"
  by (auto simp: act_simps)

text \<open>
  C32 (liveness): a session never gets stuck. Against a service that resolves the
  user and accepts every request, every reachable state has a successor in which
  \<open>make_dir\<close>, \<open>move\<close> or \<open>upload\<close> returned normally, and that successor is a
  session state again. Earlier calls may have raised.
\<close>

theorem session_progress:
  assumes "status_ok srv" and "accepts srv" and "session srv g rnd nid npw fs0 cs s"
    and "c \<in> {MakeDir p, Move a b, Upload p fp ow}"
  shows "\<exists>s'. run_call srv g c s = (Inr (), s') \<and> session srv g rnd nid npw fs0 (cs @ [c]) s'"
proof -
  have post: "\<And>url form. take (length ndrive_host) url = ndrive_host \<Longrightarrow>
      \<exists>s'. discard (bindE (api_post srv url form) (\<lambda>_. ret True)) s = (Inr (), s')"
    by (rule discard_returns, rule then_true_returns, rule accepted_post [OF assms(1,2)])
  have up: "\<exists>s'. discard (upload srv g p fp ow) s = (Inr (), s')"
    by (rule discard_returns, rule accepted_upload [OF assms(1,2)])
  have "\<exists>s'. run_call srv g c s = (Inr (), s')"
    using assms(4) post [of mkdir_url] post [of move_url] up
    by (auto simp: make_dir_def move_def mkdir_url_def move_url_def ndrive_host_def)
  then show ?thesis using session.call [OF assms(3)] by blast
qed

theorem session_progress_witness:
  "\<exists>s'. run_call demo_server (\<lambda>_. None) (MakeDir ''/b'')
          (run_calls demo_server (\<lambda>_. None) demo_calls (new_ndrive ''u'', demo_world)) = (Inr (), s')"
proof -
  have ok: "status_ok demo_server" by (rule demo_status_ok)
  have acc: "accepts demo_server"
    by (auto simp: accepts_def demo_server_def drive_server_def key_req_def get_req_def keys_url_def
        login_url_def ndrive_host_def)
  have "session demo_server (\<lambda>_. None) (\<lambda>_. CHR ''A'') ''u'' ''p'' Map.empty [] (new_ndrive ''u'', demo_world)"
    by (rule session.login [OF demo_login])
  then have s: "session demo_server (\<lambda>_. None) (\<lambda>_. CHR ''A'') ''u'' ''p'' Map.empty demo_calls
      (run_calls demo_server (\<lambda>_. None) demo_calls (new_ndrive ''u'', demo_world))"
    using session_run_calls by fastforce
  have c: "MakeDir ''/b'' \<in> {MakeDir ''/b'', Move ''/b'' ''/b'', Upload ''/b'' \<lparr>f_data = [], f_mtime = 0\<rparr> True}"
    by simp
  show ?thesis using session_progress [OF ok acc s c] by blast
qed

section \<open>Cookies on the API requests\<close>

lemma get_ndrive_log:
  assumes "get_ndrive srv rnd nid npw \<lparr>w_log = [], w_fs = fs0\<rparr> = (Inr n, w)"
  shows "\<exists>a ct u. w_log w = [key_req, login_req a ct, finalize_req u]"
  using assms
  by (auto simp: get_ndrive_def act_simps send_def Let_def split: reply.splits sum.splits prod.splits)
    (blast+)

lemma session_log_api:
  assumes "session srv g rnd nid npw fs0 cs s" and "list_all call_paths_ok cs"
  shows "\<exists>a ct u rs. w_log (snd s) = [key_req, login_req a ct, finalize_req u] @ rs \<and> list_all api_req rs"
  using assms
proof (induction cs s rule: session.induct)
  case (login n w)
  then obtain a ct u where "w_log w = [key_req, login_req a ct, finalize_req u]"
    using get_ndrive_log by blast
  then have "w_log (snd (n, w)) = [key_req, login_req a ct, finalize_req u] @ [] \<and> list_all api_req []"
    by simp
  then show ?case by blast
next
  case (call cs s c r s')
  have "log_api s s'" using run_call_log_api [of c srv g] call.prems call.hyps(2) by (auto dest: keepsD)
  with call.IH call.prems show ?case by (fastforce simp: log_api_def)
qed

text \<open>
  C33 (safety, across the handshake, the client and the \<open>requests\<close> session): in
  every session over a cookie-carrying service, the key fetch goes out without the
  session (so without cookies), and every later request, made by any public method, is
  a session request to the plain-\<open>http\<close> NDrive host. It carries exactly the
  session jar's cookies that are not secure and whose domain matches
  \<open>ndrive2.naver.com\<close>: a secure cookie the \<open>https\<close> login sets never reaches the
  API. Uploads and downloads are assumed to name remote paths starting with \<open>/\<close>.
\<close>

theorem session_api_cookies:
  assumes "session (jar_server b) g rnd nid npw fs0 cs s" and "list_all call_paths_ok cs"
    and "3 \<le> i" and "i < length (w_log (snd s))"
  shows "\<not> req_session (w_log (snd s) ! 0) \<and> req_session (w_log (snd s) ! i) \<and>
         jar_server b (take i (w_log (snd s))) (w_log (snd s) ! i) =
           fst (b (take i (w_log (snd s)))
                  (sent_cookies (w_log (snd s) ! i) (session_jar b (take i (w_log (snd s))))) (w_log (snd s) ! i)) \<and>
         set (sent_cookies (w_log (snd s) ! i) (session_jar b (take i (w_log (snd s))))) =
           {(ck_name c, ck_value c) | c. c \<in> set (session_jar b (take i (w_log (snd s)))) \<and> \<not> ck_secure c \<and>
              ends_with ''.ndrive2.naver.com'' (dotted (ck_domain c))}"
proof -
  obtain a ct u rs where log: "w_log (snd s) = [key_req, login_req a ct, finalize_req u] @ rs"
    and api: "list_all api_req rs"
    using session_log_api [OF assms(1,2)] by blast
  have "api_req (w_log (snd s) ! i)"
    using api assms(3,4) by (simp add: log list_all_length nth_append)
  then obtain p where sess: "req_session (w_log (snd s) ! i)"
    and url: "req_url (w_log (snd s) ! i) = ndrive_host @ CHR ''/'' # p"
    by (auto simp: api_req_def)
  have "\<not> req_session (w_log (snd s) ! 0)" by (simp add: log key_req_def get_req_def)
  with sess api_request_cookies [OF sess url] show ?thesis by blast
qed

theorem session_api_cookies_witness:
  "\<not> req_session (w_log (snd (run_calls demo_server (\<lambda>_. None) [MakeDir ''/a''] (new_ndrive ''u'', demo_world))) ! 0) \<and>
   req_session (w_log (snd (run_calls demo_server (\<lambda>_. None) [MakeDir ''/a''] (new_ndrive ''u'', demo_world))) ! 3)"
proof -
  let ?s = "run_calls demo_server (\<lambda>_. None) [MakeDir ''/a''] (new_ndrive ''u'', demo_world)"
  have j: "jar_server demo_cookie_backend = demo_server"
    by (simp add: fun_eq_iff jar_server_def demo_cookie_backend_def)
  have "session demo_server (\<lambda>_. None) (\<lambda>_. CHR ''A'') ''u'' ''p'' Map.empty [] (new_ndrive ''u'', demo_world)"
    by (rule session.login [OF demo_login])
  then have "session demo_server (\<lambda>_. None) (\<lambda>_. CHR ''A'') ''u'' ''p'' Map.empty [MakeDir ''/a''] ?s"
    using session_run_calls [of demo_server "\<lambda>_. None" "\<lambda>_. CHR ''A''" "''u''" "''p''" Map.empty "[]" _
        "[MakeDir ''/a'']"] by simp
  then have s: "session (jar_server demo_cookie_backend) (\<lambda>_. None) (\<lambda>_. CHR ''A'') ''u'' ''p'' Map.empty
      [MakeDir ''/a''] ?s"
    by (simp only: j)
  have ok: "list_all call_paths_ok [MakeDir ''/a'']" by simp
  have three: "3 \<le> (3::nat)" by simp
  have "keeps one_status (run_call demo_server (\<lambda>_. None) (MakeDir ''/a''))"
    by (rule run_call_keeps [OF _ ensure_one_status one_status_quiet]) simp
  then have "one_status (new_ndrive ''u'', demo_world) ?s"
    using keepsD [OF _ surjective_pairing] by simp
  then have len: "3 < length (w_log (snd ?s))"
    by (auto simp: one_status_def new_ndrive_def demo_world_def)
  show ?thesis using session_api_cookies [OF s ok three len] by blast
qed

section \<open>Uploads and the MIME guesser\<close>

text \<open>
  Across \<open>upload\<close> and \<open>mimetypes\<close>, with the library's tables, a
  gzip-compressed tar archive, named \<open>.tgz\<close> or \<open>.tar.gz\<close>, is guessed as
  \<open>application/x-tar\<close> with encoding \<open>gzip\<close>. \<open>upload\<close> keeps only the first
  component (\<open>guess_type(...)[0]\<close>), so the file is sent as \<open>application/x-tar\<close>,
  and no header carries the compression. An upper-case extension falls back to the
  lower-case entry.
\<close>

theorem upload_tgz_content_type:
  "guess_type default_tables ''/docs/a.tgz'' = Some (Some ''application/x-tar'', Some ''gzip'') \<and>
   guess_type default_tables ''/docs/a.tar.gz'' = Some (Some ''application/x-tar'', Some ''gzip'') \<and>
   guess_type default_tables ''/docs/A.PDF'' = Some (Some ''application/pdf'', None) \<and>
   upload_mime default_tables ''/docs/a.tgz'' = Some (Some ''application/x-tar'') \<and>
   map_of (upload_headers n (PDate (f_mtime fp)) (the (upload_mime default_tables ''/docs/a.tgz'')) ow) ''Content-Type'' =
     Some (PStr ''application/x-tar'') \<and>
   ''Content-Encoding'' \<notin> fst ` set (upload_headers n (PDate (f_mtime fp)) (the (upload_mime default_tables ''/docs/a.tgz'')) ow)"
proof -
  have tgz: "guess_type default_tables ''/docs/a.tgz'' = Some (Some ''application/x-tar'', Some ''gzip'')"
    and targz: "guess_type default_tables ''/docs/a.tar.gz'' = Some (Some ''application/x-tar'', Some ''gzip'')"
    by (simp_all add: guess_type_def default_tables_def split_type_def splitext_def suffix_loop.simps)
  have pdf: "guess_type default_tables ''/docs/A.PDF'' = Some (Some ''application/pdf'', None)"
    by (simp add: guess_type_def default_tables_def split_type_def splitext_def suffix_loop.simps
        lower_ascii_def eval_simps)
  show ?thesis using tgz targz pdf
    by (simp add: upload_mime_def upload_headers_def ident_def content_type_def)
qed

end
